theory Spec2Isabelle
  imports Complex_Main
begin

section \<open>Data model (types/index.ts)\<close>

text \<open>
  The interfaces of the game are records. A JavaScript \<^verbatim>\<open>number\<close> that holds a round
  number, a timestamp in milliseconds, a duration or a score is an \<^typ>\<open>int\<close> (the
  values the game produces are integers far below \<open>2^53\<close>, where the arithmetic of
  doubles is exact). An optional field (\<^verbatim>\<open>field?: T\<close>) is an \<open>option\<close>.
  \<^verbatim>\<open>Record<string, T>\<close> is an association list in the order \<^verbatim>\<open>Object.keys\<close>
  yields, with distinct keys.
\<close>

record Choice =
  choice_id :: string
  choice_text :: string
  nextNodeId :: string

record StoryNode =
  node_id :: string
  node_title :: string
  content :: string
  imageUrl :: "string option"
  choices :: "Choice list option"
  isEnd :: "bool option"

record GameState =
  currentNodeId :: string
  roundNumber :: int
  storyPath :: "string list"
  isActive :: bool
  roundStartTime :: int
  roundDurationHours :: int
  testMode :: "bool option"

record AppConfig =
  cfg_roundDurationHours :: int
  isGameActive :: bool
  subredditName :: string

record Story =
  title :: string
  description :: string
  startNodeId :: string
  nodes :: "(string \<times> StoryNode) list"

record VoteData =
  vd_choices :: "(string \<times> string) list"
  roundEndTime :: int

record VoteResult =
  choiceId :: string
  commentId :: string
  upvotes :: int

section \<open>RedisManager (utils/redisManager.ts)\<close>

text \<open>
  The store holds the four kinds of keys of \<^verbatim>\<open>REDIS_KEYS\<close>. A value is written with
  \<^verbatim>\<open>JSON.stringify\<close> and read with \<^verbatim>\<open>JSON.parse\<close>; on the values of the data
  model this round trip is the identity, so the store holds the records themselves.
  The store is taken to answer every call (a failing Redis call is not modelled).
\<close>

record Redis =
  GAME_STATE :: "GameState option"
  STORY_DATA :: "Story option"
  CONFIG :: "AppConfig option"
  VOTE_DATA :: "int \<Rightarrow> VoteData option"

definition setGameState :: "GameState \<Rightarrow> Redis \<Rightarrow> Redis" where
  "setGameState gameState r = r\<lparr>GAME_STATE := Some gameState\<rparr>"

definition getGameState :: "Redis \<Rightarrow> GameState option" where
  "getGameState r = GAME_STATE r"

definition setStoryData :: "Story \<Rightarrow> Redis \<Rightarrow> Redis" where
  "setStoryData story r = r\<lparr>STORY_DATA := Some story\<rparr>"

definition getStoryData :: "Redis \<Rightarrow> Story option" where
  "getStoryData r = STORY_DATA r"

definition setConfiguration :: "AppConfig \<Rightarrow> Redis \<Rightarrow> Redis" where
  "setConfiguration config r = r\<lparr>CONFIG := Some config\<rparr>"

definition getConfiguration :: "Redis \<Rightarrow> AppConfig option" where
  "getConfiguration r = CONFIG r"

definition setVoteData :: "int \<Rightarrow> VoteData \<Rightarrow> Redis \<Rightarrow> Redis" where
  "setVoteData roundNo voteData r = r\<lparr>VOTE_DATA := (VOTE_DATA r)(roundNo \<mapsto> voteData)\<rparr>"

definition getVoteData :: "int \<Rightarrow> Redis \<Rightarrow> VoteData option" where
  "getVoteData roundNo r = VOTE_DATA r roundNo"

text \<open>
  \<^verbatim>\<open>clearGameData\<close>: deletes the game state, and the vote data of the rounds
  \<open>1 .. roundNumber\<close> when a game state was there. Story and configuration stay.
\<close>

definition clearGameData :: "Redis \<Rightarrow> Redis" where
  "clearGameData r =
     (case getGameState r of
        None \<Rightarrow> r\<lparr>GAME_STATE := None\<rparr>
      | Some gameState \<Rightarrow>
          r\<lparr>GAME_STATE := None,
            VOTE_DATA := (\<lambda>n. if 1 \<le> n \<and> n \<le> roundNumber gameState then None
                              else VOTE_DATA r n)\<rparr>)"

text \<open>
  \<^verbatim>\<open>initializeNewGame(startNodeId, subredditName, roundDurationHours, testMode = false)\<close>;
  \<open>now\<close> is the value of \<^verbatim>\<open>Date.now()\<close>.
\<close>

definition initializeNewGame :: "string \<Rightarrow> string \<Rightarrow> int \<Rightarrow> bool \<Rightarrow> int \<Rightarrow> Redis \<Rightarrow> Redis" where
  "initializeNewGame startId subreddit duration tm now r =
     (let r1 = clearGameData r;
          gameState = \<lparr>currentNodeId = startId, roundNumber = 1, storyPath = [startId],
                       isActive = True, roundStartTime = now, roundDurationHours = duration,
                       testMode = Some tm\<rparr>;
          config = \<lparr>cfg_roundDurationHours = duration, isGameActive = True,
                    subredditName = subreddit\<rparr>
      in setConfiguration config (setGameState gameState r1))"

text \<open>
  \<^verbatim>\<open>completeGame\<close>: without a game state it returns at once; otherwise it clears
  \<^verbatim>\<open>isActive\<close>, writes the state back, and clears \<^verbatim>\<open>isGameActive\<close> in the
  configuration when there is one.
\<close>

definition completeGame :: "Redis \<Rightarrow> Redis" where
  "completeGame r =
     (case getGameState r of
        None \<Rightarrow> r
      | Some gameState \<Rightarrow>
          (let r1 = setGameState (gameState\<lparr>isActive := False\<rparr>) r
           in case getConfiguration r1 of
                None \<Rightarrow> r1
              | Some config \<Rightarrow> setConfiguration (config\<lparr>isGameActive := False\<rparr>) r1))"

section \<open>StoryEngine (utils/storyEngine.ts)\<close>

text \<open>
  A thrown \<^verbatim>\<open>Error\<close> is the left summand, carrying its message. A \<^verbatim>\<open>StoryEngine\<close>
  object holds the field \<^verbatim>\<open>currentStory\<close> (a cache of the stored story) and talks
  to the store, so the state of an engine is the pair of the cache and the store. Each
  method returns its outcome together with the state it leaves: a method that throws
  has still filled the cache.
\<close>

type_synonym 'a outcome = "string + 'a"

type_synonym engine = "Story option \<times> Redis"

text \<open>
  \<^verbatim>\<open>story.nodes[id]\<close> finds, beside the nodes of the story, what every object inherits
  from \<^verbatim>\<open>Object.prototype\<close>: under an id such as \<^verbatim>\<open>constructor\<close> or \<^verbatim>\<open>toString\<close>
  the lookup yields a function (under \<^verbatim>\<open>__proto__\<close> the prototype object itself). Such a
  value is truthy and has none of the fields of a node: \<^verbatim>\<open>id\<close>, \<^verbatim>\<open>title\<close>,
  \<^verbatim>\<open>choices\<close>, \<^verbatim>\<open>isEnd\<close> read from it are \<^verbatim>\<open>undefined\<close>. \<open>NotANode\<close> stands for it.
  The names are those of ECMAScript (with its annex B, which every engine implements).
  The nodes of a stored story are taken to be a plain object, as \<^verbatim>\<open>Record<string,
  StoryNode>\<close> says.
\<close>

definition objectPrototypeMethods :: "string list" where
  "objectPrototypeMethods =
     [''__defineGetter__'', ''__defineSetter__'', ''hasOwnProperty'', ''__lookupGetter__'',
      ''__lookupSetter__'', ''isPrototypeOf'', ''propertyIsEnumerable'', ''toString'',
      ''valueOf'', ''toLocaleString'']"

definition objectPrototypeNames :: "string list" where
  "objectPrototypeNames = ''constructor'' # ''__proto__'' # objectPrototypeMethods"

datatype node_value = Node StoryNode | NotANode

definition lookupNode :: "Story \<Rightarrow> string \<Rightarrow> node_value option" where
  "lookupNode story nodeId =
     (case map_of (nodes story) nodeId of
        Some node \<Rightarrow> Some (Node node)
      | None \<Rightarrow> if nodeId \<in> set objectPrototypeNames then Some NotANode else None)"

text \<open>
  \<^verbatim>\<open>node.choices\<close>, \<^verbatim>\<open>node.isEnd\<close> and the text \<^verbatim>\<open>`${node.id}`\<close> of a value that a
  lookup has found.
\<close>

fun choicesOf :: "node_value \<Rightarrow> Choice list option" where
  "choicesOf (Node node) = choices node"
| "choicesOf NotANode = None"

fun isEndOf :: "node_value \<Rightarrow> bool option" where
  "isEndOf (Node node) = isEnd node"
| "isEndOf NotANode = None"

fun idTextOf :: "node_value \<Rightarrow> string" where
  "idTextOf (Node node) = node_id node"
| "idTextOf NotANode = ''undefined''"

text \<open>
  The recurring prologue \<^verbatim>\<open>if (!this.currentStory) this.currentStory = await
  this.redisManager.getStoryData()\<close>.
\<close>

definition loadCurrentStory :: "engine \<Rightarrow> engine" where
  "loadCurrentStory e =
     (case fst e of None \<Rightarrow> (getStoryData (snd e), snd e) | Some story \<Rightarrow> e)"

definition getCurrentNode :: "engine \<Rightarrow> node_value option outcome \<times> engine" where
  "getCurrentNode e =
     (let e1 = loadCurrentStory e in
      case fst e1 of
        None \<Rightarrow> (Inr None, e1)
      | Some story \<Rightarrow>
          (case getGameState (snd e1) of
             None \<Rightarrow> (Inr None, e1)
           | Some gameState \<Rightarrow>
               if \<not> isActive gameState then (Inr None, e1)
               else (case lookupNode story (currentNodeId gameState) of
                       None \<Rightarrow>
                         (Inl (''Current node retrieval failed: Current node '' @
                               currentNodeId gameState @ '' not found in story''), e1)
                     | Some currentNode \<Rightarrow> (Inr (Some currentNode), e1))))"

text \<open>
  The guarded append both \<^verbatim>\<open>navigateToNode\<close> and \<^verbatim>\<open>advanceStoryByChoice\<close> make:
  \<^verbatim>\<open>if (path.length === 0 || path[path.length - 1] !== nodeId) path.push(nodeId)\<close>.
\<close>

definition pushToPath :: "string list \<Rightarrow> string \<Rightarrow> string list" where
  "pushToPath path nodeId =
     (if path = [] \<or> last path \<noteq> nodeId then path @ [nodeId] else path)"

definition navigateToNode :: "string \<Rightarrow> engine \<Rightarrow> unit outcome \<times> engine" where
  "navigateToNode nodeId e =
     (let e1 = loadCurrentStory e in
      case fst e1 of
        None \<Rightarrow> (Inl ''Navigation failed: No story data found - cannot navigate'', e1)
      | Some story \<Rightarrow>
          (case lookupNode story nodeId of
             None \<Rightarrow>
               (Inl (''Navigation failed: Target node '' @ nodeId @ '' not found in story''), e1)
           | Some targetNode \<Rightarrow>
               (case getGameState (snd e1) of
                  None \<Rightarrow> (Inl ''Navigation failed: No game state found - cannot navigate'', e1)
                | Some gameState \<Rightarrow>
                    (Inr (),
                     (fst e1,
                      setGameState
                        (gameState\<lparr>currentNodeId := nodeId,
                                   storyPath := pushToPath (storyPath gameState) nodeId\<rparr>)
                        (snd e1))))))"

text \<open>
  \<^verbatim>\<open>initializeGame(subredditName, roundDurationHours, testMode = false)\<close> and
  \<^verbatim>\<open>resetGame()\<close>. The reset reads the duration from the stored configuration and
  calls \<^verbatim>\<open>initializeNewGame\<close> with three arguments, so the fourth takes its default
  \<^verbatim>\<open>false\<close>.
\<close>

definition initializeGame :: "string \<Rightarrow> int \<Rightarrow> bool \<Rightarrow> int \<Rightarrow> engine \<Rightarrow> unit outcome \<times> engine" where
  "initializeGame subreddit duration tm now e =
     (let e1 = loadCurrentStory e in
      case fst e1 of
        None \<Rightarrow>
          (Inl ''Game initialization failed: No story data found - cannot initialize game'', e1)
      | Some story \<Rightarrow>
          if duration \<le> 0
          then (Inl ''Game initialization failed: Round duration must be positive'', e1)
          else (Inr (),
                (fst e1, initializeNewGame (startNodeId story) subreddit duration tm now (snd e1))))"

definition resetGame :: "int \<Rightarrow> engine \<Rightarrow> unit outcome \<times> engine" where
  "resetGame now e =
     (let e1 = loadCurrentStory e in
      case fst e1 of
        None \<Rightarrow> (Inl ''Game reset failed: No story data found - cannot reset game'', e1)
      | Some story \<Rightarrow>
          (case getConfiguration (snd e1) of
             None \<Rightarrow> (Inl ''Game reset failed: No configuration found - cannot reset game'', e1)
           | Some config \<Rightarrow>
               (Inr (),
                (fst e1,
                 initializeNewGame (startNodeId story) (subredditName config)
                   (cfg_roundDurationHours config) False now (clearGameData (snd e1))))))"

definition advanceStoryByChoice :: "string \<Rightarrow> int \<Rightarrow> engine \<Rightarrow> unit outcome \<times> engine" where
  "advanceStoryByChoice choiceId_arg now e =
     (case getCurrentNode e of
        (Inl msg, e1) \<Rightarrow> (Inl (''Story advancement failed: '' @ msg), e1)
      | (Inr None, e1) \<Rightarrow>
          (Inl ''Story advancement failed: No current node found - cannot advance story'', e1)
      | (Inr (Some currentNode), e1) \<Rightarrow>
          (case choicesOf currentNode of
             None \<Rightarrow>
               (Inl (''Story advancement failed: Current node '' @ idTextOf currentNode @
                     '' has no choices available''), e1)
           | Some cs \<Rightarrow>
               if cs = []
               then (Inl (''Story advancement failed: Current node '' @ idTextOf currentNode @
                          '' has no choices available''), e1)
               else (case find (\<lambda>choice. choice_id choice = choiceId_arg) cs of
                       None \<Rightarrow>
                         (Inl (''Story advancement failed: Choice '' @ choiceId_arg @
                               '' not found in current node '' @ idTextOf currentNode), e1)
                     | Some selectedChoice \<Rightarrow>
                         (case getGameState (snd e1) of
                            None \<Rightarrow>
                              (Inl ''Story advancement failed: No game state found - cannot advance story'',
                               e1)
                          | Some gameState \<Rightarrow>
                              (Inr (),
                               (fst e1,
                                setGameState
                                  (gameState\<lparr>currentNodeId := nextNodeId selectedChoice,
                                             roundNumber := roundNumber gameState + 1,
                                             roundStartTime := now,
                                             storyPath := pushToPath (storyPath gameState)
                                                            (nextNodeId selectedChoice)\<rparr>)
                                  (snd e1)))))))"

text \<open>
  \<^verbatim>\<open>getTimeRemainingInRound\<close>: \<open>0\<close> without an active game, else
  \<^verbatim>\<open>Math.max(0, roundDurationMs - (Date.now() - roundStartTime))\<close>, the duration read
  as minutes when \<^verbatim>\<open>testMode\<close> is truthy and as hours otherwise.
\<close>

definition getTimeRemainingInRound :: "int \<Rightarrow> Redis \<Rightarrow> int" where
  "getTimeRemainingInRound now r =
     (case getGameState r of
        None \<Rightarrow> 0
      | Some gameState \<Rightarrow>
          if \<not> isActive gameState then 0
          else (let roundDurationMs =
                      (if testMode gameState = Some True
                       then roundDurationHours gameState * 60 * 1000
                       else roundDurationHours gameState * 60 * 60 * 1000);
                    elapsedMs = now - roundStartTime gameState
                in max 0 (roundDurationMs - elapsedMs)))"

definition isRoundExpired :: "int \<Rightarrow> Redis \<Rightarrow> bool" where
  "isRoundExpired now r = (getTimeRemainingInRound now r \<le> 0)"

section \<open>VoteCounter (handlers/voteCounter.ts)\<close>

text \<open>
  \<^verbatim>\<open>VoteCounterConfig\<close> after the constructor has filled in the defaults
  (\<^verbatim>\<open>minimumVotes ?? 0\<close>, \<^verbatim>\<open>randomTieBreaking ?? true\<close>, \<^verbatim>\<open>maxRetries ?? 3\<close>).
\<close>

record VoteCounterConfig =
  minimumVotes :: int
  randomTieBreaking :: bool
  vc_maxRetries :: int

definition defaultVoteCounterConfig :: VoteCounterConfig where
  "defaultVoteCounterConfig = \<lparr>minimumVotes = 0, randomTieBreaking = True, vc_maxRetries = 3\<rparr>"

text \<open>
  The order in which JavaScript lists the own properties of an object
  (\<^verbatim>\<open>Object.keys\<close>, \<^verbatim>\<open>Object.entries\<close>, \<^verbatim>\<open>JSON.stringify\<close>): first the keys that
  are array indices (the decimal numerals, without leading zeros, of the numbers below
  \<open>2^32 - 1\<close>) in ascending order, then the other keys in the order in which they were
  added. \<open>arrayIndex k\<close> is the number the key \<open>k\<close> stands for when it is an array index.
\<close>

fun digitOf :: "char \<Rightarrow> nat option" where
  "digitOf c = map_of (zip ''0123456789'' [0, 1, 2, 3, 4, 5, 6, 7, 8, 9]) c"

fun parseDigits :: "nat \<Rightarrow> string \<Rightarrow> nat option" where
  "parseDigits acc [] = Some acc"
| "parseDigits acc (c # cs) =
     (case digitOf c of None \<Rightarrow> None | Some d \<Rightarrow> parseDigits (acc * 10 + d) cs)"

fun arrayIndex :: "string \<Rightarrow> nat option" where
  "arrayIndex k =
     (if k = [] \<or> (hd k = CHR ''0'' \<and> k \<noteq> ''0'') then None
      else (case parseDigits 0 k of
              None \<Rightarrow> None
            | Some n \<Rightarrow> if n < 4294967295 then Some n else None))"

text \<open>A new key \<open>k\<close> takes its place among the own properties \<open>kvs\<close>.\<close>

fun insertKey :: "string \<Rightarrow> 'v \<Rightarrow> (string \<times> 'v) list \<Rightarrow> (string \<times> 'v) list" where
  "insertKey k v [] = [(k, v)]"
| "insertKey k v ((k', v') # kvs) =
     (case arrayIndex k of
        None \<Rightarrow> (k', v') # insertKey k v kvs
      | Some n \<Rightarrow>
          (case arrayIndex k' of
             None \<Rightarrow> (k, v) # (k', v') # kvs
           | Some n' \<Rightarrow>
               if n' < n then (k', v') # insertKey k v kvs else (k, v) # (k', v') # kvs))"

fun replaceValue :: "string \<Rightarrow> 'v \<Rightarrow> (string \<times> 'v) list \<Rightarrow> (string \<times> 'v) list" where
  "replaceValue k v [] = []"
| "replaceValue k v ((k', v') # kvs) =
     (if k' = k then (k, v) # kvs else (k', v') # replaceValue k v kvs)"

text \<open>
  The assignment \<^verbatim>\<open>obj[key] = value\<close> on a record of string keys, \<open>value\<close> being a
  string: the value of an own property is replaced where it stands; a new key takes its
  place in the order of the properties. When no own property is named \<^verbatim>\<open>__proto__\<close>,
  assigning to this key calls the setter that \<^verbatim>\<open>Object.prototype\<close> provides, which
  ignores a string and adds no property.
\<close>

fun assign :: "string \<Rightarrow> 'v \<Rightarrow> (string \<times> 'v) list \<Rightarrow> (string \<times> 'v) list" where
  "assign k v kvs =
     (if k \<in> fst ` set kvs then replaceValue k v kvs
      else if k = ''__proto__'' then kvs
      else insertKey k v kvs)"

text \<open>
  \<^verbatim>\<open>trackChoiceComment(choiceId, commentId, roundNumber)\<close>: adds one entry to the
  vote data of the round, creating the vote data when the round has none.
\<close>

definition trackChoiceComment :: "string \<Rightarrow> string \<Rightarrow> int \<Rightarrow> Redis \<Rightarrow> unit outcome \<times> Redis" where
  "trackChoiceComment cid comment roundNo r =
     (case (case getVoteData roundNo r of
              Some voteData \<Rightarrow> Inr voteData
            | None \<Rightarrow>
                (case getGameState r of
                   None \<Rightarrow> Inl ''Choice tracking failed: No active game state found''
                 | Some gameState \<Rightarrow>
                     Inr \<lparr>vd_choices = [],
                          roundEndTime = roundStartTime gameState +
                                         roundDurationHours gameState * 60 * 60 * 1000\<rparr>)) of
        Inl msg \<Rightarrow> (Inl msg, r)
      | Inr voteData \<Rightarrow>
          (Inr (),
           setVoteData roundNo (voteData\<lparr>vd_choices := assign cid comment (vd_choices voteData)\<rparr>) r))"

text \<open>
  What one call of \<^verbatim>\<open>context.reddit.getCommentById\<close> does: it throws, it yields no
  comment, or it yields a comment whose \<^verbatim>\<open>score\<close> may be missing. The Reddit API is
  a parameter of the model: a function of the comment id and the number of the attempt.
\<close>

datatype fetched = FetchThrows string | NoComment | Comment "int option"

type_synonym reddit_comments = "string \<Rightarrow> int \<Rightarrow> fetched"

text \<open>
  \<^verbatim>\<open>getCommentUpvotes\<close>: the loop \<^verbatim>\<open>for (attempt = 1; attempt <= maxRetries; attempt++)\<close>
  runs over the list \<open>[1..maxRetries]\<close>. The function returns the outcome and the delays
  (in milliseconds) it has waited with \<^verbatim>\<open>setTimeout\<close>, in order.
\<close>

fun getCommentUpvotes_loop ::
  "int \<Rightarrow> reddit_comments \<Rightarrow> string \<Rightarrow> string option \<Rightarrow> int list \<Rightarrow> int outcome \<times> int list" where
  "getCommentUpvotes_loop maxR api cid lastError [] =
     (Inl (''Failed to get comment upvotes: '' @
           (case lastError of
              None \<Rightarrow> ''Unknown error''
            | Some msg \<Rightarrow> if msg = [] then ''Unknown error'' else msg)), [])"
| "getCommentUpvotes_loop maxR api cid lastError (attempt # rest) =
     (case api cid attempt of
        Comment score \<Rightarrow> (Inr (case score of None \<Rightarrow> 0 | Some n \<Rightarrow> n), [])
      | failed \<Rightarrow>
          (let msg = (case failed of FetchThrows m \<Rightarrow> m
                      | _ \<Rightarrow> ''Comment '' @ cid @ '' not found'');
               waited = (if attempt < maxR then [2 ^ nat (attempt - 1) * 1000] else []);
               (res, delays) = getCommentUpvotes_loop maxR api cid (Some msg) rest
           in (res, waited @ delays)))"

definition getCommentUpvotes ::
  "VoteCounterConfig \<Rightarrow> reddit_comments \<Rightarrow> string \<Rightarrow> int outcome \<times> int list" where
  "getCommentUpvotes cfg api cid =
     getCommentUpvotes_loop (vc_maxRetries cfg) api cid None [1..vc_maxRetries cfg]"

text \<open>
  \<^verbatim>\<open>countVotes\<close>: one result per entry of \<^verbatim>\<open>Object.entries(voteData.choices)\<close>, with
  \<open>0\<close> upvotes where the fetch threw, then \<^verbatim>\<open>results.sort((a, b) => b.upvotes - a.upvotes)\<close>.
  \<^verbatim>\<open>Array.prototype.sort\<close> is stable, and so is \<^const>\<open>sort_key\<close>.
\<close>

fun countVotes_loop ::
  "VoteCounterConfig \<Rightarrow> reddit_comments \<Rightarrow> (string \<times> string) list \<Rightarrow> VoteResult list \<times> int list" where
  "countVotes_loop cfg api [] = ([], [])"
| "countVotes_loop cfg api ((cid, comment) # entries) =
     (let (res, delays) = getCommentUpvotes cfg api comment;
          result = \<lparr>choiceId = cid, commentId = comment,
                    upvotes = (case res of Inl _ \<Rightarrow> 0 | Inr n \<Rightarrow> n)\<rparr>;
          (results, delays') = countVotes_loop cfg api entries
      in (result # results, delays @ delays'))"

definition countVotes ::
  "VoteCounterConfig \<Rightarrow> reddit_comments \<Rightarrow> int \<Rightarrow> Redis \<Rightarrow> VoteResult list \<times> int list" where
  "countVotes cfg api roundNo r =
     (case getVoteData roundNo r of
        None \<Rightarrow> ([], [])
      | Some voteData \<Rightarrow>
          (let (results, delays) = countVotes_loop cfg api (vd_choices voteData)
           in (sort_key (\<lambda>res. - upvotes res) results, delays)))"

text \<open>
  \<^verbatim>\<open>resolveTie\<close>. \<open>rnd\<close> is the value of \<^verbatim>\<open>Math.random()\<close>. Reading
  \<^verbatim>\<open>winner.choiceId\<close> of an index outside the array is a \<^verbatim>\<open>TypeError\<close>.
\<close>

definition resolveTie :: "VoteCounterConfig \<Rightarrow> rat \<Rightarrow> VoteResult list \<Rightarrow> string outcome" where
  "resolveTie cfg rnd tiedChoices =
     (if randomTieBreaking cfg
      then (let randomIndex = \<lfloor>rnd * of_nat (length tiedChoices)\<rfloor>
            in if 0 \<le> randomIndex \<and> randomIndex < int (length tiedChoices)
               then Inr (choiceId (tiedChoices ! nat randomIndex))
               else Inl ''Cannot read properties of undefined'')
      else (case tiedChoices of
              [] \<Rightarrow> Inl ''Cannot read properties of undefined''
            | winner # _ \<Rightarrow> Inr (choiceId winner)))"

text \<open>
  The part of \<^verbatim>\<open>getWinningChoice\<close> after the votes are counted: \<open>None\<close> is
  \<^verbatim>\<open>null\<close>.
\<close>

definition winnerOf :: "VoteCounterConfig \<Rightarrow> rat \<Rightarrow> VoteResult list \<Rightarrow> string option outcome" where
  "winnerOf cfg rnd voteResults =
     (if voteResults = [] then Inr None
      else (let validResults = filter (\<lambda>res. upvotes res \<ge> minimumVotes cfg) voteResults in
            case validResults of
              [] \<Rightarrow> Inr None
            | best # _ \<Rightarrow>
                (let highestVoteCount = upvotes best;
                     topChoices = filter (\<lambda>res. upvotes res = highestVoteCount) validResults
                 in if length topChoices = 1
                    then Inr (Some (choiceId (hd topChoices)))
                    else (case resolveTie cfg rnd topChoices of
                            Inl msg \<Rightarrow> Inl (''Winning choice determination failed: '' @ msg)
                          | Inr winningChoice \<Rightarrow> Inr (Some winningChoice)))))"

definition getWinningChoice ::
  "VoteCounterConfig \<Rightarrow> reddit_comments \<Rightarrow> rat \<Rightarrow> int \<Rightarrow> Redis \<Rightarrow> string option outcome \<times> int list" where
  "getWinningChoice cfg api rnd roundNo r =
     (let (voteResults, delays) = countVotes cfg api roundNo r
      in (winnerOf cfg rnd voteResults, delays))"

section \<open>PostManager (handlers/postManager.ts)\<close>

text \<open>
  What lies outside the program during one attempt of an advancement: the clock, the
  Reddit API, the random source and the scheduler of the platform. \<^verbatim>\<open>submitPost\<close> is
  the outcome of creating the post (image processing and \<^verbatim>\<open>reddit.submitPost\<close>),
  \<^verbatim>\<open>submitComments\<close> that of posting one comment per choice, \<^verbatim>\<open>runJob\<close> that of
  \<^verbatim>\<open>context.scheduler.runJob\<close>; each is a post id, comment ids or a job id, or the
  message of the error thrown.
\<close>

record Env =
  dateNow :: int
  getCommentById :: reddit_comments
  mathRandom :: rat
  submitPost :: "string outcome"
  submitComments :: "Choice list \<Rightarrow> string list outcome"
  runJob :: "string outcome"

record PostCreationResult =
  pc_success :: bool
  postId :: "string option"
  choiceCommentIds :: "string list option"
  pc_error :: "string option"

definition postFailed :: "string \<Rightarrow> PostCreationResult" where
  "postFailed msg =
     \<lparr>pc_success = False, postId = None, choiceCommentIds = None, pc_error = Some msg\<rparr>"

definition postCreated :: "string \<Rightarrow> string list \<Rightarrow> PostCreationResult" where
  "postCreated post commentIds =
     \<lparr>pc_success = True, postId = Some post, choiceCommentIds = Some commentIds,
      pc_error = None\<rparr>"

definition storeChoiceCommentMapping ::
  "int \<Rightarrow> Choice list \<Rightarrow> string list \<Rightarrow> Redis \<Rightarrow> unit outcome \<times> Redis" where
  "storeChoiceCommentMapping roundNo cs commentIds r =
     (if length cs \<noteq> length commentIds
      then (Inl ''Choice mapping storage failed: Mismatch between choices and comment IDs'', r)
      else (let choiceMapping =
                  fold (\<lambda>(c, comment) m. assign (choice_id c) comment m) (zip cs commentIds) []
            in case getGameState r of
                 None \<Rightarrow> (Inl ''Choice mapping storage failed: No game state found'', r)
               | Some gameState \<Rightarrow>
                   (Inr (),
                    setVoteData roundNo
                      \<lparr>vd_choices = choiceMapping,
                       roundEndTime = roundStartTime gameState +
                                      roundDurationHours gameState * 60 * 60 * 1000\<rparr> r)))"

text \<open>
  \<^verbatim>\<open>createStoryRoundPost\<close>: every exception inside is caught and turned into a result
  with \<^verbatim>\<open>success: false\<close>. The engine is the \<^verbatim>\<open>StoryEngine\<close> of the post manager.
\<close>

definition createStoryRoundPost :: "Env \<Rightarrow> engine \<Rightarrow> PostCreationResult \<times> engine" where
  "createStoryRoundPost env e =
     (case getCurrentNode e of
        (Inl msg, e1) \<Rightarrow> (postFailed (''Post creation failed: '' @ msg), e1)
      | (Inr None, e1) \<Rightarrow> (postFailed ''No current story node found'', e1)
      | (Inr (Some currentNode), e1) \<Rightarrow>
          (case getGameState (snd e1) of
             None \<Rightarrow> (postFailed ''No active game state found'', e1)
           | Some gameState \<Rightarrow>
               (case fst (loadCurrentStory e1) of
                  None \<Rightarrow> (postFailed ''No story metadata found'', loadCurrentStory e1)
                | Some story \<Rightarrow>
                    (case submitPost env of
                       Inl msg \<Rightarrow>
                         (postFailed (''Post creation failed: Reddit post creation failed: '' @ msg),
                          e1)
                     | Inr post \<Rightarrow>
                         (case choicesOf currentNode of
                            None \<Rightarrow> (postCreated post [], e1)
                          | Some cs \<Rightarrow>
                              if isEndOf currentNode = Some True \<or> cs = []
                              then (postCreated post [], e1)
                              else (case submitComments env cs of
                                      Inl msg \<Rightarrow>
                                        (postFailed (''Post creation failed: Choice comment creation failed: '' @ msg),
                                         e1)
                                    | Inr commentIds \<Rightarrow>
                                        (case storeChoiceCommentMapping (roundNumber gameState) cs
                                                commentIds (snd e1) of
                                           (Inl msg, r2) \<Rightarrow>
                                             (postFailed (''Post creation failed: '' @ msg), (fst e1, r2))
                                         | (Inr u, r2) \<Rightarrow>
                                             (postCreated post commentIds, (fst e1, r2)))))))))"

text \<open>
  \<^verbatim>\<open>createEndGameRecapPost\<close>: after the recap is posted the game is marked
  completed.
\<close>

definition createEndGameRecapPost :: "Env \<Rightarrow> engine \<Rightarrow> PostCreationResult \<times> engine" where
  "createEndGameRecapPost env e =
     (let e0 = loadCurrentStory e in
      case fst e0 of
        None \<Rightarrow> (postFailed ''No story metadata found - cannot create recap'', e0)
      | Some story \<Rightarrow>
          (case getGameState (snd e0) of
             None \<Rightarrow> (postFailed ''No game state found - cannot create recap'', e0)
           | Some gameState \<Rightarrow>
               (case getCurrentNode e0 of
                  (Inl msg, e1) \<Rightarrow> (postFailed (''Recap post creation failed: '' @ msg), e1)
                | (Inr None, e1) \<Rightarrow>
                    (postFailed ''Current node is not an end node - cannot create recap'', e1)
                | (Inr (Some currentNode), e1) \<Rightarrow>
                    if isEndOf currentNode \<noteq> Some True
                    then (postFailed ''Current node is not an end node - cannot create recap'', e1)
                    else (case submitPost env of
                            Inl msg \<Rightarrow>
                              (postFailed (''Recap post creation failed: Reddit post creation failed: '' @ msg),
                               e1)
                          | Inr post \<Rightarrow>
                              (postCreated post [], (fst e1, completeGame (snd e1)))))))"

section \<open>SchedulerHandler (handlers/schedulerHandler.ts)\<close>

text \<open>Decimal digits of a number inside a message (\<^verbatim>\<open>`${n}`\<close>).\<close>

fun show_nat :: "nat \<Rightarrow> string" where
  "show_nat n =
     (if n < 10 then [''0123456789'' ! n]
      else show_nat (n div 10) @ [''0123456789'' ! (n mod 10)])"

text \<open>
  The equation of \<^const>\<open>show_nat\<close> rewrites any call by itself; it is applied on
  request only.
\<close>

declare show_nat.simps [simp del]

definition show_int :: "int \<Rightarrow> string" where
  "show_int i = (if i < 0 then ''-'' @ show_nat (nat (- i)) else show_nat (nat i))"

text \<open>
  \<^verbatim>\<open>SchedulerConfig\<close> after the constructor has filled in the defaults, and
  \<^verbatim>\<open>SchedulerResult\<close> (its \<^verbatim>\<open>details\<close>, a text for the log with a formatted date,
  is left out).
\<close>

record SchedulerConfig =
  jobNamePrefix :: string
  maxRetries :: int
  retryDelayMs :: int

definition defaultSchedulerConfig :: SchedulerConfig where
  "defaultSchedulerConfig =
     \<lparr>jobNamePrefix = ''subquest_round_advance'', maxRetries = 3, retryDelayMs = 5000\<rparr>"

record SchedulerResult =
  success :: bool
  jobId :: "string option"
  error :: "string option"

definition failedWith :: "string \<Rightarrow> SchedulerResult" where
  "failedWith msg = \<lparr>success = False, jobId = None, error = Some msg\<rparr>"

definition succeeded :: "string option \<Rightarrow> SchedulerResult" where
  "succeeded job = \<lparr>success = True, jobId = job, error = None\<rparr>"

text \<open>
  A scheduler handler owns a \<^verbatim>\<open>StoryEngine\<close> and a \<^verbatim>\<open>PostManager\<close>, which owns a
  \<^verbatim>\<open>StoryEngine\<close> of its own; all share the store. The jobs handed to
  \<^verbatim>\<open>context.scheduler.runJob\<close> are collected in \<open>jobs\<close>.
\<close>

record Job =
  job_name :: string
  runAt :: int
  job_roundNumber :: int
  scheduledAt :: int
  job_durationHours :: int

record World =
  redis :: Redis
  se_currentStory :: "Story option"
  pm_currentStory :: "Story option"
  jobs :: "Job list"

definition onStoryEngine :: "(engine \<Rightarrow> 'a \<times> engine) \<Rightarrow> World \<Rightarrow> 'a \<times> World" where
  "onStoryEngine f w =
     (let (x, e) = f (se_currentStory w, redis w)
      in (x, w\<lparr>se_currentStory := fst e, redis := snd e\<rparr>))"

definition onPostManager :: "(engine \<Rightarrow> 'a \<times> engine) \<Rightarrow> World \<Rightarrow> 'a \<times> World" where
  "onPostManager f w =
     (let (x, e) = f (pm_currentStory w, redis w)
      in (x, w\<lparr>pm_currentStory := fst e, redis := snd e\<rparr>))"

text \<open>
  \<^verbatim>\<open>scheduleNextRound(durationHours, roundNumber)\<close>. \<^verbatim>\<open>cancelScheduledRound\<close> only
  writes to the log.
\<close>

definition scheduleNextRound ::
  "SchedulerConfig \<Rightarrow> Env \<Rightarrow> int \<Rightarrow> int \<Rightarrow> World \<Rightarrow> SchedulerResult \<times> World" where
  "scheduleNextRound cfg env durationHours roundNo w =
     (if durationHours \<le> 0 then (failedWith ''Duration must be positive'', w)
      else if roundNo \<le> 0 then (failedWith ''Round number must be positive'', w)
      else (let actualDurationMs =
                  (case getGameState (redis w) of
                     None \<Rightarrow> durationHours * 60 * 60 * 1000
                   | Some gameState \<Rightarrow>
                       if testMode gameState = Some True then durationHours * 60 * 1000
                       else durationHours * 60 * 60 * 1000)
            in case runJob env of
                 Inl msg \<Rightarrow> (failedWith (''Scheduling failed: '' @ msg), w)
               | Inr job \<Rightarrow>
                   (succeeded (Some job),
                    w\<lparr>jobs := jobs w @
                         [\<lparr>job_name = jobNamePrefix cfg, runAt = dateNow env + actualDurationMs,
                           job_roundNumber = roundNo, scheduledAt = dateNow env,
                           job_durationHours = durationHours\<rparr>]\<rparr>)))"

text \<open>
  \<^verbatim>\<open>executeRoundAdvancement(roundNumber)\<close>. Its \<^verbatim>\<open>catch\<close> re-throws the error as it
  is. The handler's vote counter is built with the default configuration
  (\<^verbatim>\<open>new VoteCounter(context)\<close>); the model takes the configuration as a parameter.
  The branch for a next round, after the story has advanced:
\<close>

definition publishNextRound ::
  "SchedulerConfig \<Rightarrow> Env \<Rightarrow> World \<Rightarrow> SchedulerResult outcome \<times> World" where
  "publishNextRound cfg env w =
     (case getGameState (redis w) of
        None \<Rightarrow> (Inl ''No game state found for next round creation'', w)
      | Some gameState \<Rightarrow>
          (case getConfiguration (redis w) of
             None \<Rightarrow> (Inl ''No configuration found for next round creation'', w)
           | Some config \<Rightarrow>
               (let gameStateBeforePost = gameState;
                    (postResult, w1) = onPostManager (createStoryRoundPost env) w
                in if \<not> pc_success postResult
                   then (let w2 = w1\<lparr>redis := setGameState gameStateBeforePost (redis w1)\<rparr>
                         in case onStoryEngine
                                   (navigateToNode (currentNodeId gameStateBeforePost)) w2 of
                              (Inl msg, w3) \<Rightarrow> (Inl msg, w3)
                            | (Inr u, w3) \<Rightarrow>
                                (Inl (''Failed to create next round post: '' @
                                      (case pc_error postResult of None \<Rightarrow> ''undefined''
                                       | Some msg \<Rightarrow> msg)), w3))
                   else (let (scheduleResult, w2) =
                               scheduleNextRound cfg env (roundDurationHours gameState)
                                 (roundNumber gameState) w1
                         in (Inr (succeeded None), w2)))))"

definition publishRecap :: "Env \<Rightarrow> World \<Rightarrow> SchedulerResult outcome \<times> World" where
  "publishRecap env w =
     (case getGameState (redis w) of
        None \<Rightarrow> (Inl ''No game state found for recap creation'', w)
      | Some gameState \<Rightarrow>
          (case getConfiguration (redis w) of
             None \<Rightarrow> (Inl ''No configuration found for recap creation'', w)
           | Some config \<Rightarrow>
               (let (recapResult, w1) = onPostManager (createEndGameRecapPost env) w
                in if \<not> pc_success recapResult
                   then (Inl (''Failed to create recap post: '' @
                              (case pc_error recapResult of None \<Rightarrow> ''undefined''
                               | Some msg \<Rightarrow> msg)), w1)
                   else (Inr (succeeded None), w1))))"

definition executeRoundAdvancement ::
  "SchedulerConfig \<Rightarrow> VoteCounterConfig \<Rightarrow> Env \<Rightarrow> int \<Rightarrow> World \<Rightarrow> SchedulerResult outcome \<times> World" where
  "executeRoundAdvancement cfg vcfg env roundNo w =
     (case fst (getWinningChoice vcfg (getCommentById env) (mathRandom env) roundNo (redis w)) of
        Inl msg \<Rightarrow> (Inl msg, w)
      | Inr None \<Rightarrow> (Inr (failedWith ''No winning choice could be determined''), w)
      | Inr (Some winningChoiceId) \<Rightarrow>
          if winningChoiceId = []
          then (Inr (failedWith ''No winning choice could be determined''), w)
          else (case onStoryEngine (advanceStoryByChoice winningChoiceId (dateNow env)) w of
                  (Inl msg, w1) \<Rightarrow> (Inl msg, w1)
                | (Inr u, w1) \<Rightarrow>
                    (case onStoryEngine getCurrentNode w1 of
                       (Inl msg, w2) \<Rightarrow> (Inl msg, w2)
                     | (Inr None, w2) \<Rightarrow>
                         (Inl ''Failed to get new current node after advancement'', w2)
                     | (Inr (Some newCurrentNode), w2) \<Rightarrow>
                         if isEndOf newCurrentNode = Some True then publishRecap env w2
                         else publishNextRound cfg env w2)))"

text \<open>
  \<^verbatim>\<open>handleRoundAdvancement(event)\<close>. Of the event only \<^verbatim>\<open>event.data?.roundNumber\<close>
  decides anything. The retry loop \<^verbatim>\<open>for (attempt = 1; attempt <= maxRetries; attempt++)\<close>
  runs over \<open>[1..maxRetries]\<close>; an unsuccessful result is thrown inside the \<^verbatim>\<open>try\<close>
  and lands in the same \<^verbatim>\<open>catch\<close> as an exception. The model returns, beside the
  result and the state, one entry per attempt: its number, how it ended, and the delay
  waited after it. \<open>envs attempt\<close> is the environment during that attempt.
\<close>

datatype attempt_end = Succeeded | ReturnedFailure string | Threw string

record AttemptLog =
  attempt_no :: int
  attempt_end :: attempt_end
  waited :: "int option"

fun advancement_loop ::
  "SchedulerConfig \<Rightarrow> VoteCounterConfig \<Rightarrow> (int \<Rightarrow> Env) \<Rightarrow> int \<Rightarrow> string option \<Rightarrow> int list \<Rightarrow>
     World \<Rightarrow> SchedulerResult \<times> World \<times> AttemptLog list" where
  "advancement_loop cfg vcfg envs roundNo lastError [] w =
     (failedWith (''All '' @ show_int (maxRetries cfg) @ '' attempts failed. Last error: '' @
                  (case lastError of
                     None \<Rightarrow> ''Unknown error''
                   | Some msg \<Rightarrow> if msg = [] then ''Unknown error'' else msg)), w, [])"
| "advancement_loop cfg vcfg envs roundNo lastError (attempt # rest) w =
     (let (res, w1) = executeRoundAdvancement cfg vcfg (envs attempt) roundNo w;
          waiting = (if attempt < maxRetries cfg then Some (retryDelayMs cfg) else None)
      in case res of
           Inr advancementResult \<Rightarrow>
             if success advancementResult
             then (advancementResult, w1,
                   [\<lparr>attempt_no = attempt, attempt_end = Succeeded, waited = None\<rparr>])
             else (let msg = (case error advancementResult of
                                None \<Rightarrow> ''Round advancement failed''
                              | Some m \<Rightarrow> if m = [] then ''Round advancement failed'' else m);
                       (result, w2, entries) =
                         advancement_loop cfg vcfg envs roundNo (Some msg) rest w1
                   in (result, w2,
                       \<lparr>attempt_no = attempt, attempt_end = ReturnedFailure msg,
                        waited = waiting\<rparr> # entries))
         | Inl msg \<Rightarrow>
             (let (result, w2, entries) = advancement_loop cfg vcfg envs roundNo (Some msg) rest w1
              in (result, w2,
                  \<lparr>attempt_no = attempt, attempt_end = Threw msg, waited = waiting\<rparr> # entries)))"

record SchedulerEvent =
  ev_roundNumber :: "int option"

definition handleRoundAdvancement ::
  "SchedulerConfig \<Rightarrow> VoteCounterConfig \<Rightarrow> (int \<Rightarrow> Env) \<Rightarrow> SchedulerEvent \<Rightarrow> World \<Rightarrow>
     SchedulerResult \<times> World \<times> AttemptLog list" where
  "handleRoundAdvancement cfg vcfg envs event w =
     (let fromEvent = (case ev_roundNumber event of
                         None \<Rightarrow> None
                       | Some n \<Rightarrow> if n \<le> 0 then None else Some n);
          fromState = (case getGameState (redis w) of
                         None \<Rightarrow> None
                       | Some gameState \<Rightarrow>
                           if isActive gameState then Some (roundNumber gameState) else None)
      in case (case fromEvent of Some n \<Rightarrow> Some n | None \<Rightarrow> fromState) of
           None \<Rightarrow> (failedWith ''No active game found and no round number provided'', w, [])
         | Some currentRoundNumber \<Rightarrow>
             (case getGameState (redis w) of
                None \<Rightarrow> (failedWith ''Game is no longer active'', w, [])
              | Some gameState \<Rightarrow>
                  if \<not> isActive gameState then (failedWith ''Game is no longer active'', w, [])
                  else if roundNumber gameState \<noteq> currentRoundNumber
                  then (failedWith (''Round mismatch: job for round '' @
                                    show_int currentRoundNumber @ '', current round is '' @
                                    show_int (roundNumber gameState)), w, [])
                  else advancement_loop cfg vcfg envs currentRoundNumber None
                         [1..maxRetries cfg] w))"

text \<open>\<^verbatim>\<open>manualRoundAdvancement(roundNumber)\<close>: the same checks, one attempt.\<close>

definition manualRoundAdvancement ::
  "SchedulerConfig \<Rightarrow> VoteCounterConfig \<Rightarrow> Env \<Rightarrow> int \<Rightarrow> World \<Rightarrow> SchedulerResult \<times> World" where
  "manualRoundAdvancement cfg vcfg env roundNo w =
     (case getGameState (redis w) of
        None \<Rightarrow> (failedWith ''No active game found'', w)
      | Some gameState \<Rightarrow>
          if \<not> isActive gameState then (failedWith ''No active game found'', w)
          else if roundNumber gameState \<noteq> roundNo
          then (failedWith (''Round mismatch: requested '' @ show_int roundNo @
                            '', current is '' @ show_int (roundNumber gameState)), w)
          else (case executeRoundAdvancement cfg vcfg env roundNo w of
                  (Inl msg, w1) \<Rightarrow> (failedWith (''Manual advancement failed: '' @ msg), w1)
                | (Inr result, w1) \<Rightarrow> (result, w1)))"

text \<open>
  \<^verbatim>\<open>getNextScheduledRound\<close>: \<^verbatim>\<open>null\<close> without an active game, else the round, the
  time the round ends and the time remaining.
\<close>

record ScheduleInfo =
  si_roundNumber :: int
  scheduledTime :: int
  timeRemaining :: int

definition getNextScheduledRound :: "int \<Rightarrow> Redis \<Rightarrow> ScheduleInfo option" where
  "getNextScheduledRound now r =
     (case getGameState r of
        None \<Rightarrow> None
      | Some gameState \<Rightarrow>
          if \<not> isActive gameState then None
          else (let roundEndTime = roundStartTime gameState +
                                   roundDurationHours gameState * 60 * 60 * 1000;
                    remaining = roundEndTime - now
                in Some \<lparr>si_roundNumber = roundNumber gameState, scheduledTime = roundEndTime,
                         timeRemaining = max 0 remaining\<rparr>))"

definition isRoundAdvancementDue :: "int \<Rightarrow> Redis \<Rightarrow> bool" where
  "isRoundAdvancementDue now r =
     (case getNextScheduledRound now r of
        None \<Rightarrow> False
      | Some scheduleInfo \<Rightarrow> timeRemaining scheduleInfo \<le> 0)"

section \<open>Successive advances\<close>

text \<open>
  A run of calls \<^verbatim>\<open>advanceStoryByChoice(choiceId)\<close>, each with the value of
  \<^verbatim>\<open>Date.now()\<close> at its time; the run stops at the first call that throws.
  \<open>selectedChoice e c\<close> is the choice the call looks up for the id \<open>c\<close>: the first
  choice with this id on the current node.
\<close>

fun advanceMany :: "(string \<times> int) list \<Rightarrow> engine \<Rightarrow> unit outcome \<times> engine" where
  "advanceMany [] e = (Inr (), e)"
| "advanceMany ((c, now) # rest) e =
     (case advanceStoryByChoice c now e of
        (Inl msg, e1) \<Rightarrow> (Inl msg, e1)
      | (Inr u, e1) \<Rightarrow> advanceMany rest e1)"

definition selectedChoice :: "engine \<Rightarrow> string \<Rightarrow> Choice option" where
  "selectedChoice e c =
     (case fst (getCurrentNode e) of
        Inr (Some currentNode) \<Rightarrow>
          (case choicesOf currentNode of
             None \<Rightarrow> None
           | Some cs \<Rightarrow> find (\<lambda>choice. choice_id choice = c) cs)
      | _ \<Rightarrow> None)"

section \<open>The attempts of a firing\<close>

text \<open>
  Notions for the properties of the retry loop. \<open>attemptEnd\<close> is how the loop reads what
  one call of \<^verbatim>\<open>executeRoundAdvancement\<close> did: it threw, it returned a result with
  \<^verbatim>\<open>success: true\<close>, or it returned an unsuccessful result, whose \<^verbatim>\<open>error\<close> (or
  \<^verbatim>\<open>'Round advancement failed'\<close>) then is the message. \<open>attemptState \<dots> k w i\<close> is the
  state in which the attempt number \<open>k + i\<close> begins when the attempt number \<open>k\<close> begins
  in \<open>w\<close>: each attempt starts where the one before it stopped. \<open>endMessage\<close> is the
  message an attempt leaves in \<^verbatim>\<open>lastError\<close>.

  The two exits of \<^verbatim>\<open>handleRoundAdvancement\<close> that lie before the loop:
  \<open>gameInactive\<close>, there is no game state or the game is not active; \<open>roundMismatch\<close>,
  the job carries a round number other than the current one. \<open>currentRound\<close> is the
  round number of the stored game state.
\<close>

definition attemptEnd :: "SchedulerResult outcome \<Rightarrow> attempt_end" where
  "attemptEnd res =
     (case res of
        Inl msg \<Rightarrow> Threw msg
      | Inr advancementResult \<Rightarrow>
          if success advancementResult then Succeeded
          else ReturnedFailure
                 (case error advancementResult of
                    None \<Rightarrow> ''Round advancement failed''
                  | Some m \<Rightarrow> if m = [] then ''Round advancement failed'' else m))"

fun attemptState ::
  "SchedulerConfig \<Rightarrow> VoteCounterConfig \<Rightarrow> (int \<Rightarrow> Env) \<Rightarrow> int \<Rightarrow> int \<Rightarrow> World \<Rightarrow> nat \<Rightarrow> World" where
  "attemptState cfg vcfg envs roundNo k w 0 = w"
| "attemptState cfg vcfg envs roundNo k w (Suc i) =
     attemptState cfg vcfg envs roundNo (k + 1)
       (snd (executeRoundAdvancement cfg vcfg (envs k) roundNo w)) i"

fun endMessage :: "attempt_end \<Rightarrow> string" where
  "endMessage Succeeded = []"
| "endMessage (ReturnedFailure msg) = msg"
| "endMessage (Threw msg) = msg"

definition gameInactive :: "World \<Rightarrow> bool" where
  "gameInactive w =
     (case getGameState (redis w) of None \<Rightarrow> True | Some gameState \<Rightarrow> \<not> isActive gameState)"

definition roundMismatch :: "SchedulerEvent \<Rightarrow> World \<Rightarrow> bool" where
  "roundMismatch event w =
     (case (ev_roundNumber event, getGameState (redis w)) of
        (Some n, Some gameState) \<Rightarrow> 0 < n \<and> n \<noteq> roundNumber gameState
      | _ \<Rightarrow> False)"

definition currentRound :: "World \<Rightarrow> int" where
  "currentRound w =
     (case getGameState (redis w) of None \<Rightarrow> 0 | Some gameState \<Rightarrow> roundNumber gameState)"

section \<open>Exponential backoff\<close>

text \<open>
  The delays of an exponential backoff after the attempts \<open>i, \<dots>, j\<close>: \<open>2^(attempt - 1)\<close>
  seconds after each, in milliseconds. The vote counter's retries are compared with it.
\<close>

definition backoffDelays :: "int \<Rightarrow> int \<Rightarrow> int list" where
  "backoffDelays i j = map (\<lambda>attempt. 2 ^ nat (attempt - 1) * 1000) [i..j]"

section \<open>Parsed JSON\<close>

text \<open>
  The validators receive what \<^verbatim>\<open>JSON.parse\<close> made of the story text: a value of any
  shape.
  \<^item> A number is an \<^typ>\<open>int\<close>; \<open>JNum n\<close> stands for the JavaScript number \<open>n\<close> when
    \<open>n\<close> is a safe integer (below \<open>2^53\<close> in magnitude), for which \<^verbatim>\<open>String(n)\<close> is the
    decimal numeral of \<open>n\<close>.
  \<^item> A string is the list of its characters.
  \<^item> An object is the list of its own properties in the order of \<^verbatim>\<open>Object.keys\<close>, with
    distinct keys.
  \<^item> \<open>JUndefined\<close> is what reading a missing property yields, and \<open>JBuiltin\<close> is what
    reading an inherited property yields: a function such as \<^verbatim>\<open>toString\<close>, which every
    object inherits from \<^verbatim>\<open>Object.prototype\<close>, or a prototype object itself (under the
    key \<^verbatim>\<open>__proto__\<close>). \<^verbatim>\<open>JSON.parse\<close> yields neither: they arise only from reading
    a property.
  \<open>fromJson\<close> tells the values that \<^verbatim>\<open>JSON.parse\<close> can yield and that the model
  represents: the numbers are safe integers, and the keys of an object are distinct and
  stand in the order of its own properties (\<open>ownKeyOrder\<close>: the array indices first, in
  ascending order). A \<^verbatim>\<open>Set\<close> of values is compared by structure (for strings, which are what
  the validators ask a set about, this is what JavaScript does).
\<close>

datatype builtin =
  ObjectPrototype | ArrayPrototype | ObjectConstructor | ArrayConstructor
| ObjectMethod string | ArrayMethod string

datatype jsval =
  JUndefined | JNull | JBool bool | JNum int | JStr string | JArr "jsval list"
| JObj "(string \<times> jsval) list" | JBuiltin builtin



fun truthy :: "jsval \<Rightarrow> bool" where
  "truthy JUndefined = False"
| "truthy JNull = False"
| "truthy (JBool b) = b"
| "truthy (JNum n) = (n \<noteq> 0)"
| "truthy (JStr s) = (s \<noteq> [])"
| "truthy (JArr xs) = True"
| "truthy (JObj kvs) = True"
| "truthy (JBuiltin b) = True"

fun typeof :: "jsval \<Rightarrow> string" where
  "typeof JUndefined = ''undefined''"
| "typeof JNull = ''object''"
| "typeof (JBool b) = ''boolean''"
| "typeof (JNum n) = ''number''"
| "typeof (JStr s) = ''string''"
| "typeof (JArr xs) = ''object''"
| "typeof (JObj kvs) = ''object''"
| "typeof (JBuiltin b) =
     (if b = ObjectPrototype \<or> b = ArrayPrototype then ''object'' else ''function'')"

text \<open>\<^verbatim>\<open>Array.isArray\<close>; \<^verbatim>\<open>Array.prototype\<close> is itself an array, an empty one.\<close>

fun isArray :: "jsval \<Rightarrow> bool" where
  "isArray (JArr xs) = True"
| "isArray (JBuiltin b) = (b = ArrayPrototype)"
| "isArray v = False"

definition nullish :: "jsval \<Rightarrow> bool" where
  "nullish v = (v = JNull \<or> v = JUndefined)"

text \<open>
  The own enumerable properties of a value, as \<^verbatim>\<open>Object.keys\<close> lists them: those of an
  object; the indices of an array or of a string; none for a number, a boolean, a
  function or a prototype object.
\<close>

fun objEntries :: "jsval \<Rightarrow> (string \<times> jsval) list" where
  "objEntries (JObj kvs) = kvs"
| "objEntries (JArr xs) = zip (map show_nat [0..<length xs]) xs"
| "objEntries (JStr s) = zip (map show_nat [0..<length s]) (map (\<lambda>c. JStr [c]) s)"
| "objEntries v = []"

definition objKeys :: "jsval \<Rightarrow> string list" where
  "objKeys v = map fst (objEntries v)"

text \<open>
  What \<^verbatim>\<open>Array.prototype\<close> defines under a string key (ECMAScript 2023, the language of
  Node.js 20 and later), beside \<^verbatim>\<open>constructor\<close>. What \<^verbatim>\<open>Object.prototype\<close> defines is
  listed with the story engine above.
\<close>

definition arrayPrototypeMethods :: "string list" where
  "arrayPrototypeMethods =
     [''at'', ''concat'', ''copyWithin'', ''entries'', ''every'', ''fill'', ''filter'',
      ''find'', ''findIndex'', ''findLast'', ''findLastIndex'', ''flat'', ''flatMap'',
      ''forEach'', ''includes'', ''indexOf'', ''join'', ''keys'', ''lastIndexOf'', ''map'',
      ''pop'', ''push'', ''reduce'', ''reduceRight'', ''reverse'', ''shift'', ''slice'',
      ''some'', ''sort'', ''splice'', ''toLocaleString'', ''toReversed'', ''toSorted'',
      ''toSpliced'', ''toString'', ''unshift'', ''values'', ''with'']"

text \<open>
  The property \<open>k\<close> as an object inherits it from \<^verbatim>\<open>Object.prototype\<close>, and the
  property \<open>k\<close> of a value when it is not one of its own enumerable properties: the
  \<^verbatim>\<open>length\<close> of an array or of a string, and what an object or an array inherits.
\<close>

definition fromObjectPrototype :: "string \<Rightarrow> jsval" where
  "fromObjectPrototype k =
     (if k = ''constructor'' then JBuiltin ObjectConstructor
      else if k \<in> set objectPrototypeMethods then JBuiltin (ObjectMethod k)
      else JUndefined)"

fun beyondKeys :: "jsval \<Rightarrow> string \<Rightarrow> jsval" where
  "beyondKeys (JObj kvs) k =
     (if k = ''__proto__'' then JBuiltin ObjectPrototype else fromObjectPrototype k)"
| "beyondKeys (JArr xs) k =
     (if k = ''length'' then JNum (int (length xs))
      else if k = ''__proto__'' then JBuiltin ArrayPrototype
      else if k = ''constructor'' then JBuiltin ArrayConstructor
      else if k \<in> set arrayPrototypeMethods then JBuiltin (ArrayMethod k)
      else fromObjectPrototype k)"
| "beyondKeys (JStr s) k = (if k = ''length'' then JNum (int (length s)) else JUndefined)"
| "beyondKeys v k = JUndefined"

text \<open>
  Reading the property \<open>k\<close> of a value that is neither \<^verbatim>\<open>null\<close> nor \<^verbatim>\<open>undefined\<close>
  (on those the read throws a \<^verbatim>\<open>TypeError\<close>; where the source may do that, the model
  tests \<^const>\<open>nullish\<close> first). For an object and for an array this is \<^verbatim>\<open>v[k]\<close> for
  every key \<open>k\<close>. From a string, a number, a boolean or a built-in value the validators
  read only \<^verbatim>\<open>id\<close>, \<^verbatim>\<open>title\<close>, \<^verbatim>\<open>content\<close>, \<^verbatim>\<open>imageUrl\<close>, \<^verbatim>\<open>choices\<close>,
  \<^verbatim>\<open>isEnd\<close>, \<^verbatim>\<open>text\<close>, \<^verbatim>\<open>nextNodeId\<close> and \<^verbatim>\<open>length\<close>; what such a value inherits
  under other names (\<^verbatim>\<open>'abc'.trim\<close>) is left out.
\<close>

definition getp :: "jsval \<Rightarrow> string \<Rightarrow> jsval" where
  "getp v k = (case map_of (objEntries v) k of Some x \<Rightarrow> x | None \<Rightarrow> beyondKeys v k)"

text \<open>
  \<^verbatim>\<open>x > n\<close> for a length \<open>x\<close> just read: a number is compared, \<^verbatim>\<open>undefined\<close> is not
  greater than anything, \<^verbatim>\<open>null\<close> and a boolean count as 0 and 1. A length that is a
  string, an array or an object would be converted to a number first, which the model
  does not do (it reads it as not greater): such a length can only come from an object
  with a property of its own named \<^verbatim>\<open>length\<close>, and \<open>plainLength\<close> tells the values
  that are not such an object.
\<close>

fun greaterThan_js :: "jsval \<Rightarrow> int \<Rightarrow> bool" where
  "greaterThan_js (JNum x) n = (x > n)"
| "greaterThan_js (JBool b) n = ((if b then 1 else 0) > n)"
| "greaterThan_js JNull n = (0 > n)"
| "greaterThan_js v n = False"


text \<open>The values a \<^verbatim>\<open>for ... of\<close> loop runs through; \<open>None\<close> when the value is not iterable.\<close>

fun iterate :: "jsval \<Rightarrow> jsval list option" where
  "iterate (JArr xs) = Some xs"
| "iterate (JStr s) = Some (map (\<lambda>c. JStr [c]) s)"
| "iterate (JBuiltin b) = (if b = ArrayPrototype then Some [] else None)"
| "iterate v = None"

text \<open>
  The string a value becomes in a template literal or as a property key
  (\<^verbatim>\<open>obj[value]\<close>); \<open>None\<close> is a \<^verbatim>\<open>TypeError\<close>. An array is joined with commas, with
  nothing for \<^verbatim>\<open>null\<close>. An object becomes \<^verbatim>\<open>[object Object]\<close> through the
  \<^verbatim>\<open>toString\<close> it inherits; when it has a property of its own named \<^verbatim>\<open>toString\<close>
  (which in a parsed text is never a function) the conversion throws.
\<close>

fun joinComma :: "string list \<Rightarrow> string" where
  "joinComma [] = []"
| "joinComma [s] = s"
| "joinComma (s # t # ss) = s @ '','' @ joinComma (t # ss)"

fun toKey :: "jsval \<Rightarrow> string option" where
  "toKey JUndefined = Some ''undefined''"
| "toKey JNull = Some ''null''"
| "toKey (JBool b) = Some (if b then ''true'' else ''false'')"
| "toKey (JNum n) = Some (show_int n)"
| "toKey (JStr s) = Some s"
| "toKey (JArr xs) =
     map_option joinComma
       (those (map (\<lambda>x. if x = JNull \<or> x = JUndefined then Some [] else toKey x) xs))"
| "toKey (JObj kvs) =
     (if ''toString'' \<in> set (map fst kvs) then None else Some ''[object Object]'')"
| "toKey (JBuiltin b) =
     Some (case b of
             ObjectPrototype \<Rightarrow> ''[object Object]''
           | ArrayPrototype \<Rightarrow> []
           | ObjectConstructor \<Rightarrow> ''function Object() { [native code] }''
           | ArrayConstructor \<Rightarrow> ''function Array() { [native code] }''
           | ObjectMethod name \<Rightarrow> ''function '' @ name @ ''() { [native code] }''
           | ArrayMethod name \<Rightarrow> ''function '' @ name @ ''() { [native code] }'')"

text \<open>\<^verbatim>\<open>obj[key]\<close> for a key of any kind; \<open>None\<close> is a \<^verbatim>\<open>TypeError\<close>.\<close>

definition getv :: "jsval \<Rightarrow> jsval \<Rightarrow> jsval option" where
  "getv obj key = map_option (getp obj) (toKey key)"

text \<open>\<^verbatim>\<open>!x || typeof x !== 'string'\<close>, the test the validators make of a required text.\<close>

definition notAString :: "jsval \<Rightarrow> bool" where
  "notAString x = (\<not> truthy x \<or> typeof x \<noteq> ''string'')"

section \<open>Reachability\<close>

text \<open>
  Both validators search the story from its start node with the same loop: a set
  \<^verbatim>\<open>reachable\<close> and a stack \<^verbatim>\<open>toVisit\<close>. \<open>choiceTargets\<close> are the
  \<^verbatim>\<open>nextNodeId\<close>s a \<^verbatim>\<open>for (const choice of node.choices)\<close> reads, or \<open>None\<close> when
  the loop throws a \<^verbatim>\<open>TypeError\<close> (the value is not iterable, or a choice is
  \<^verbatim>\<open>null\<close>). \<open>allTargets\<close>, every target any node of the story names, bounds the
  search.
\<close>

definition choiceTargets :: "jsval \<Rightarrow> jsval list option" where
  "choiceTargets nodeChoices =
     (case iterate nodeChoices of
        None \<Rightarrow> None
      | Some cs \<Rightarrow>
          if \<exists>choice \<in> set cs. nullish choice then None
          else Some (map (\<lambda>choice. getp choice ''nextNodeId'') cs))"

definition targetsOf :: "jsval \<Rightarrow> jsval list" where
  "targetsOf node =
     (case choiceTargets (getp node ''choices'') of None \<Rightarrow> [] | Some ids \<Rightarrow> ids)"

definition allTargets :: "jsval \<Rightarrow> jsval list" where
  "allTargets nodeMap = concat (map (\<lambda>(k, node). targetsOf node) (objEntries nodeMap))"

lemma getp_cases:
  "getp nodeMap k \<in> snd ` set (objEntries nodeMap) \<or> getp nodeMap k = JUndefined \<or>
   (\<exists>n. getp nodeMap k = JNum n) \<or> (\<exists>b. getp nodeMap k = JBuiltin b)"
proof (cases "map_of (objEntries nodeMap) k")
  case None
  then have "getp nodeMap k = beyondKeys nodeMap k"
    by (simp add: getp_def)
  moreover have "beyondKeys nodeMap k = JUndefined \<or> (\<exists>n. beyondKeys nodeMap k = JNum n) \<or>
                 (\<exists>b. beyondKeys nodeMap k = JBuiltin b)"
    by (cases nodeMap) (simp_all add: fromObjectPrototype_def)
  ultimately show ?thesis by simp
next
  case (Some x)
  then have "(k, x) \<in> set (objEntries nodeMap)"
    by (rule map_of_SomeD)
  then have "x \<in> snd ` set (objEntries nodeMap)"
    by force
  with Some show ?thesis
    by (simp add: getp_def)
qed

lemma getp_prim [simp]:
  "getp (JNum n) k = JUndefined" "getp JUndefined k = JUndefined" "getp JNull k = JUndefined"
  "getp (JBool b) k = JUndefined" "getp (JBuiltin f) k = JUndefined"
  by (simp_all add: getp_def)

lemma getv_Some: "getv nodeMap key = Some node \<Longrightarrow> \<exists>k. node = getp nodeMap k"
  by (auto simp: getv_def)

lemma targets_in_all:
  assumes "choiceTargets (getp (getp nodeMap k) ''choices'') = Some ids"
    and "truthy (getp (getp nodeMap k) ''choices'')"
  shows "set ids \<subseteq> set (allTargets nodeMap)"
proof -
  from getp_cases [of nodeMap k] assms(2) have "getp nodeMap k \<in> snd ` set (objEntries nodeMap)"
    by auto
  then obtain key where "(key, getp nodeMap k) \<in> set (objEntries nodeMap)" by auto
  moreover have "targetsOf (getp nodeMap k) = ids"
    using assms(1) by (simp add: targetsOf_def)
  ultimately show ?thesis
    by (force simp: allTargets_def)
qed

text \<open>
  The loop. The stack is kept with its top first. The set is a list in the order of
  insertion. \<open>guarded\<close> tells the two loops apart: the settings handler tests
  \<^verbatim>\<open>node && node.choices\<close>, the story engine reads \<^verbatim>\<open>currentNode.choices\<close> at once,
  which throws when the node is missing. \<open>None\<close> is a \<^verbatim>\<open>TypeError\<close>: of that
  read, of the conversion of the id to a property key, or of the loop over the choices.
\<close>

function reach_loop :: "bool \<Rightarrow> jsval \<Rightarrow> jsval list \<Rightarrow> jsval list \<Rightarrow> jsval list option" where
  "reach_loop guarded nodeMap reachable [] = Some reachable"
| "reach_loop guarded nodeMap reachable (currentId # toVisit) =
     (if currentId \<in> set reachable then reach_loop guarded nodeMap reachable toVisit
      else (case getv nodeMap currentId of
              None \<Rightarrow> None
            | Some node \<Rightarrow>
                if nullish node
                then (if guarded then reach_loop guarded nodeMap (reachable @ [currentId]) toVisit
                      else None)
                else if truthy (getp node ''choices'')
                then (case choiceTargets (getp node ''choices'') of
                        None \<Rightarrow> None
                      | Some ids \<Rightarrow>
                          reach_loop guarded nodeMap (reachable @ [currentId])
                            (rev (filter (\<lambda>n. n \<notin> set (reachable @ [currentId])) ids) @ toVisit))
                else reach_loop guarded nodeMap (reachable @ [currentId]) toVisit))"
  by pat_completeness auto
termination
proof (relation "measures
    [\<lambda>(guarded, nodeMap, reachable, toVisit).
        card ((set (allTargets nodeMap) \<union> set toVisit \<union> set reachable) - set reachable),
     \<lambda>(guarded, nodeMap, reachable, toVisit). length toVisit]", goal_cases)
  case 1
  show ?case by simp
next
  case (2 guarded nodeMap reachable currentId toVisit)
  then have "set (allTargets nodeMap) \<union> set (currentId # toVisit) \<union> set reachable - set reachable
       = set (allTargets nodeMap) \<union> set toVisit \<union> set reachable - set reachable"
    by auto
  then show ?case by simp
next
  case (3 guarded nodeMap reachable currentId toVisit x)
  then have "set (allTargets nodeMap) \<union> set toVisit \<union> set (reachable @ [currentId]) - set (reachable @ [currentId])
       \<subset> set (allTargets nodeMap) \<union> set (currentId # toVisit) \<union> set reachable - set reachable"
    by auto
  then show ?case by (simp add: psubset_card_mono)
next
  case (4 guarded nodeMap reachable currentId toVisit node ids)
  from 4 obtain k where "node = getp nodeMap k"
    using getv_Some by blast
  with 4 have "set ids \<subseteq> set (allTargets nodeMap)"
    using targets_in_all by blast
  with 4 have "set (allTargets nodeMap) \<union> set (rev (filter (\<lambda>n. n \<notin> set (reachable @ [currentId])) ids) @ toVisit)
         \<union> set (reachable @ [currentId]) - set (reachable @ [currentId])
       \<subset> set (allTargets nodeMap) \<union> set (currentId # toVisit) \<union> set reachable - set reachable"
    by auto
  then show ?case by (simp add: psubset_card_mono)
next
  case (5 guarded nodeMap reachable currentId toVisit x)
  then have "set (allTargets nodeMap) \<union> set toVisit \<union> set (reachable @ [currentId]) - set (reachable @ [currentId])
       \<subset> set (allTargets nodeMap) \<union> set (currentId # toVisit) \<union> set reachable - set reachable"
    by auto
  then show ?case by (simp add: psubset_card_mono)
qed

section \<open>Validation in the story engine (utils/storyEngine.ts)\<close>

text \<open>
  The story engine validates by throwing: the first check that fails ends the
  validation. The errors, with the message each stands for:
  \<^item> \<open>E_StoryNotObject\<close>: Story must be a valid object;
  \<^item> \<open>E_StoryTitle\<close>, \<open>E_StoryDescription\<close>, \<open>E_StoryStartNodeId\<close>: Story must have a
    valid title / description / startNodeId string;
  \<^item> \<open>E_StoryNodes\<close>: Story must have a nodes object; \<open>E_StoryNoNodes\<close>: Story must
    contain at least one node;
  \<^item> \<open>E_NodeNotObject n\<close>: Node n must be a valid object; \<open>E_NodeIdMismatch n\<close>: Node n has
    mismatched ID; \<open>E_NodeTitle n\<close>, \<open>E_NodeContent n\<close>: Node n must have a valid title /
    content string; \<open>E_NodeImageUrl n\<close>, \<open>E_NodeIsEnd n\<close>, \<open>E_NodeChoicesNotArray n\<close>:
    imageUrl must be a string / isEnd must be a boolean / choices must be an array if
    provided;
  \<^item> \<open>E_ChoiceNotObject n i\<close>, \<open>E_ChoiceId n i\<close>, \<open>E_ChoiceText n i\<close>,
    \<open>E_ChoiceNextNodeId n i\<close>: Node n choice i must be a valid object / must have a valid
    id / text / nextNodeId string;
  \<^item> \<open>E_EndHasChoices n\<close>: Node n is marked as end but has choices;
    \<open>E_NotEndNoChoices n\<close>: Node n is not marked as end but has no choices;
  \<^item> \<open>E_StartNodeNotFound s\<close>: Start node s not found in story nodes;
    \<open>E_DanglingReference n c t\<close>: Node n choice "c" references non-existent node t;
    \<open>E_NoEndNode\<close>: Story must contain at least one end node;
  \<^item> \<open>E_TypeError\<close>: a \<^verbatim>\<open>TypeError\<close> instead of one of these: a property of
    \<^verbatim>\<open>null\<close> or \<^verbatim>\<open>undefined\<close> was read, a value that is not iterable was looped
    over, or a value could not be converted to a string (for a property key, or for the
    message of an error).
\<close>

datatype story_error =
  E_StoryNotObject | E_StoryTitle | E_StoryDescription | E_StoryStartNodeId | E_StoryNodes
| E_StoryNoNodes
| E_NodeNotObject string | E_NodeIdMismatch string | E_NodeTitle string | E_NodeContent string
| E_NodeImageUrl string | E_NodeIsEnd string | E_NodeChoicesNotArray string
| E_ChoiceNotObject string nat | E_ChoiceId string nat | E_ChoiceText string nat
| E_ChoiceNextNodeId string nat
| E_EndHasChoices string | E_NotEndNoChoices string
| E_StartNodeNotFound jsval | E_DanglingReference string jsval jsval | E_NoEndNode
| E_TypeError

definition validateChoice :: "jsval \<Rightarrow> string \<Rightarrow> nat \<Rightarrow> story_error + unit" where
  "validateChoice choice nodeId choiceIndex =
     (if \<not> truthy choice \<or> typeof choice \<noteq> ''object''
      then Inl (E_ChoiceNotObject nodeId choiceIndex)
      else if notAString (getp choice ''id'') then Inl (E_ChoiceId nodeId choiceIndex)
      else if notAString (getp choice ''text'') then Inl (E_ChoiceText nodeId choiceIndex)
      else if notAString (getp choice ''nextNodeId'')
      then Inl (E_ChoiceNextNodeId nodeId choiceIndex)
      else Inr ())"

text \<open>\<^verbatim>\<open>for (let i = 0; i < node.choices.length; i++) this.validateChoice(...)\<close>, from \<open>i\<close> on.\<close>

fun validateChoices :: "jsval list \<Rightarrow> string \<Rightarrow> nat \<Rightarrow> story_error + unit" where
  "validateChoices [] nodeId i = Inr ()"
| "validateChoices (choice # rest) nodeId i =
     (case validateChoice choice nodeId i of
        Inl e \<Rightarrow> Inl e
      | Inr u \<Rightarrow> validateChoices rest nodeId (Suc i))"

definition validateStoryNode :: "jsval \<Rightarrow> string \<Rightarrow> story_error + unit" where
  "validateStoryNode node nodeId =
     (if \<not> truthy node \<or> typeof node \<noteq> ''object'' then Inl (E_NodeNotObject nodeId)
      else if getp node ''id'' \<noteq> JStr nodeId
      then (case toKey (getp node ''id'') of
              None \<Rightarrow> Inl E_TypeError
            | Some shown \<Rightarrow> Inl (E_NodeIdMismatch nodeId))
      else if notAString (getp node ''title'') then Inl (E_NodeTitle nodeId)
      else if notAString (getp node ''content'') then Inl (E_NodeContent nodeId)
      else if getp node ''imageUrl'' \<noteq> JUndefined \<and> typeof (getp node ''imageUrl'') \<noteq> ''string''
      then Inl (E_NodeImageUrl nodeId)
      else if getp node ''isEnd'' \<noteq> JUndefined \<and> typeof (getp node ''isEnd'') \<noteq> ''boolean''
      then Inl (E_NodeIsEnd nodeId)
      else (case (case getp node ''choices'' of
                    JUndefined \<Rightarrow> Inr ()
                  | JArr cs \<Rightarrow> validateChoices cs nodeId 0
                  | _ \<Rightarrow> Inl (E_NodeChoicesNotArray nodeId)) of
              Inl e \<Rightarrow> Inl e
            | Inr u \<Rightarrow>
                if getp node ''isEnd'' = JBool True \<and> truthy (getp node ''choices'') \<and>
                   greaterThan_js (getp (getp node ''choices'') ''length'') 0
                then Inl (E_EndHasChoices nodeId)
                else if getp node ''isEnd'' \<noteq> JBool True \<and>
                        (\<not> truthy (getp node ''choices'') \<or>
                         getp (getp node ''choices'') ''length'' = JNum 0)
                then Inl (E_NotEndNoChoices nodeId)
                else Inr ()))"

text \<open>\<^verbatim>\<open>for (const nodeId of nodeIds) this.validateStoryNode(story.nodes[nodeId], nodeId)\<close>.\<close>

fun validateStoryNodes :: "jsval \<Rightarrow> string list \<Rightarrow> story_error + unit" where
  "validateStoryNodes nodeMap [] = Inr ()"
| "validateStoryNodes nodeMap (nodeId # rest) =
     (case validateStoryNode (getp nodeMap nodeId) nodeId of
        Inl e \<Rightarrow> Inl e
      | Inr u \<Rightarrow> validateStoryNodes nodeMap rest)"

definition validateStoryStructure :: "jsval \<Rightarrow> story_error + unit" where
  "validateStoryStructure story =
     (if \<not> truthy story \<or> typeof story \<noteq> ''object'' then Inl E_StoryNotObject
      else if notAString (getp story ''title'') then Inl E_StoryTitle
      else if notAString (getp story ''description'') then Inl E_StoryDescription
      else if notAString (getp story ''startNodeId'') then Inl E_StoryStartNodeId
      else if \<not> truthy (getp story ''nodes'') \<or> typeof (getp story ''nodes'') \<noteq> ''object''
      then Inl E_StoryNodes
      else if objKeys (getp story ''nodes'') = [] then Inl E_StoryNoNodes
      else validateStoryNodes (getp story ''nodes'') (objKeys (getp story ''nodes'')))"

text \<open>
  \<^verbatim>\<open>validateStoryReferences\<close>, in four steps: the start node, the targets of all
  choices, the search for unreachable nodes, the end nodes. The unreachable nodes are
  written to the console with \<^verbatim>\<open>console.warn\<close> when there are any; the model returns
  them.
\<close>

fun referencesOfChoices :: "jsval \<Rightarrow> string \<Rightarrow> jsval list \<Rightarrow> story_error + unit" where
  "referencesOfChoices nodeMap nodeId [] = Inr ()"
| "referencesOfChoices nodeMap nodeId (choice # rest) =
     (if nullish choice then Inl E_TypeError
      else (case getv nodeMap (getp choice ''nextNodeId'') of
              None \<Rightarrow> Inl E_TypeError
            | Some target \<Rightarrow>
                if \<not> truthy target
                then (case toKey (getp choice ''id'') of
                        None \<Rightarrow> Inl E_TypeError
                      | Some shown \<Rightarrow>
                          Inl (E_DanglingReference nodeId (getp choice ''id'')
                                 (getp choice ''nextNodeId'')))
                else referencesOfChoices nodeMap nodeId rest))"

fun referencesOfNodes :: "jsval \<Rightarrow> string list \<Rightarrow> story_error + unit" where
  "referencesOfNodes nodeMap [] = Inr ()"
| "referencesOfNodes nodeMap (nodeId # rest) =
     (let node = getp nodeMap nodeId in
      if nullish node then Inl E_TypeError
      else (case (if truthy (getp node ''choices'')
                  then (case iterate (getp node ''choices'') of
                          None \<Rightarrow> Inl E_TypeError
                        | Some cs \<Rightarrow> referencesOfChoices nodeMap nodeId cs)
                  else Inr ()) of
              Inl e \<Rightarrow> Inl e
            | Inr u \<Rightarrow> referencesOfNodes nodeMap rest))"

definition validateStoryReferences :: "jsval \<Rightarrow> story_error + string list" where
  "validateStoryReferences story =
     (let nodeMap = getp story ''nodes'';
          nodeIds = objKeys nodeMap
      in if nullish story \<or> nullish nodeMap then Inl E_TypeError
         else (case getv nodeMap (getp story ''startNodeId'') of
                 None \<Rightarrow> Inl E_TypeError
               | Some startNode \<Rightarrow>
                   if \<not> truthy startNode
                   then Inl (E_StartNodeNotFound (getp story ''startNodeId''))
                   else (case referencesOfNodes nodeMap nodeIds of
                           Inl e \<Rightarrow> Inl e
                         | Inr u \<Rightarrow>
                             (case reach_loop False nodeMap [] [getp story ''startNodeId''] of
                                None \<Rightarrow> Inl E_TypeError
                              | Some reachableNodes \<Rightarrow>
                                  (let unreachableNodes =
                                         filter (\<lambda>nodeId. JStr nodeId \<notin> set reachableNodes)
                                           nodeIds;
                                       endNodes =
                                         filter (\<lambda>nodeId. getp (getp nodeMap nodeId) ''isEnd'' =
                                                           JBool True) nodeIds
                                   in if endNodes = [] then Inl E_NoEndNode
                                      else Inr unreachableNodes)))))"

text \<open>
  \<^verbatim>\<open>loadStory\<close>, from the parsed text on (a text that \<^verbatim>\<open>JSON.parse\<close> rejects is
  outside the model). The validated value is then used at the type \<^verbatim>\<open>Story\<close>
  (\<^verbatim>\<open>parsedStory as Story\<close>): \<open>asStory\<close> reads it into the record.
\<close>

fun asString :: "jsval \<Rightarrow> string" where
  "asString (JStr s) = s"
| "asString v = []"

definition asChoice :: "jsval \<Rightarrow> Choice" where
  "asChoice c =
     \<lparr>choice_id = asString (getp c ''id''), choice_text = asString (getp c ''text''),
      nextNodeId = asString (getp c ''nextNodeId'')\<rparr>"

definition asNode :: "jsval \<Rightarrow> StoryNode" where
  "asNode n =
     \<lparr>node_id = asString (getp n ''id''), node_title = asString (getp n ''title''),
      content = asString (getp n ''content''),
      imageUrl = (case getp n ''imageUrl'' of JStr s \<Rightarrow> Some s | _ \<Rightarrow> None),
      choices = (case getp n ''choices'' of JArr cs \<Rightarrow> Some (map asChoice cs) | _ \<Rightarrow> None),
      isEnd = (case getp n ''isEnd'' of JBool b \<Rightarrow> Some b | _ \<Rightarrow> None)\<rparr>"

definition asStory :: "jsval \<Rightarrow> Story" where
  "asStory s =
     \<lparr>title = asString (getp s ''title''), description = asString (getp s ''description''),
      startNodeId = asString (getp s ''startNodeId''),
      nodes = map (\<lambda>(k, n). (k, asNode n)) (objEntries (getp s ''nodes''))\<rparr>"

definition loadStory :: "jsval \<Rightarrow> engine \<Rightarrow> (story_error + string list) \<times> engine" where
  "loadStory parsedStory e =
     (case validateStoryStructure parsedStory of
        Inl err \<Rightarrow> (Inl err, e)
      | Inr u \<Rightarrow>
          (case validateStoryReferences parsedStory of
             Inl err \<Rightarrow> (Inl err, e)
           | Inr unreachableNodes \<Rightarrow>
               (Inr unreachableNodes,
                (Some (asStory parsedStory), setStoryData (asStory parsedStory) (snd e)))))"

section \<open>Validation in the settings handler (handlers/settingsHandler.ts)\<close>

text \<open>
  The settings handler collects its findings in the list \<^verbatim>\<open>errors\<close>. The findings,
  with the message each stands for:
  \<^item> \<open>F_NotAnObject\<close>: Story JSON must be a valid object, not an array or primitive value;
  \<^item> \<open>F_Title\<close>, \<open>F_Description\<close>, \<open>F_StartNodeId\<close>: Story must have a valid "title" /
    "description" / "startNodeId" field; \<open>F_Nodes\<close>: Story must have a "nodes" object;
    \<open>F_NoNodes\<close>: Story must have at least one node;
  \<^item> \<open>F_StartNodeNotFound s\<close>: Start node "s" not found in nodes;
  \<^item> \<open>F_NodeId n\<close>: Node "n" must have matching id field; \<open>F_NodeTitle n\<close>: must have a
    valid title; \<open>F_NodeContent n\<close>: must have valid content; \<open>F_NodeImageUrl n\<close>:
    imageUrl must be a string; \<open>F_ChoicesNotArray n\<close>: choices must be an array;
  \<^item> \<open>F_ChoiceId n i\<close>, \<open>F_ChoiceText n i\<close>, \<open>F_ChoiceNextNodeId n i\<close>: Node "n" choice i
    must have a valid id / valid text / a valid nextNodeId;
    \<open>F_ChoiceDangling n i t\<close>: Node "n" choice i references non-existent node "t";
  \<^item> \<open>F_EndWithChoices n\<close>: End node "n" should not have choices;
    \<open>F_NonEndWithoutChoices n\<close>: Non-end node "n" must have at least one choice;
  \<^item> \<open>F_Unreachable ns\<close>: Unreachable nodes found: ns;
  \<^item> \<open>F_Critical\<close>: Critical validation error occurred (the three lines the
    \<^verbatim>\<open>catch\<close> returns).
  The warnings: \<open>W_LargeStory n\<close> (more than 50 nodes), \<open>W_LongTitle\<close>,
  \<open>W_LongDescription\<close>.
\<close>

datatype finding =
  F_NotAnObject | F_Title | F_Description | F_StartNodeId | F_Nodes | F_NoNodes
| F_StartNodeNotFound jsval
| F_NodeId string | F_NodeTitle string | F_NodeContent string | F_NodeImageUrl string
| F_ChoicesNotArray string
| F_ChoiceId string nat | F_ChoiceText string nat | F_ChoiceNextNodeId string nat
| F_ChoiceDangling string nat string
| F_EndWithChoices string | F_NonEndWithoutChoices string
| F_Unreachable "string list"
| F_Critical

datatype advice = W_LargeStory nat | W_LongTitle | W_LongDescription

record StoryValidationResult =
  isValid :: bool
  errors :: "finding list"
  warnings :: "advice list"

text \<open>
  The body of \<^verbatim>\<open>node.choices.forEach((choice, index) => ...)\<close> for one choice, and the
  loop from \<open>index\<close> on. \<open>None\<close>: a \<^verbatim>\<open>TypeError\<close> (the choice is \<^verbatim>\<open>null\<close>).
\<close>

definition choiceFindings :: "jsval \<Rightarrow> string \<Rightarrow> nat \<Rightarrow> string list \<Rightarrow> finding list option" where
  "choiceFindings choice nodeId index allNodeIds =
     (if nullish choice then None
      else Some
        ((if notAString (getp choice ''id'') then [F_ChoiceId nodeId index] else []) @
         (if notAString (getp choice ''text'') then [F_ChoiceText nodeId index] else []) @
         (if notAString (getp choice ''nextNodeId'') then [F_ChoiceNextNodeId nodeId index]
          else if asString (getp choice ''nextNodeId'') \<notin> set allNodeIds
          then [F_ChoiceDangling nodeId index (asString (getp choice ''nextNodeId''))]
          else [])))"

fun choicesFindings :: "jsval list \<Rightarrow> string \<Rightarrow> nat \<Rightarrow> string list \<Rightarrow> finding list option" where
  "choicesFindings [] nodeId index allNodeIds = Some []"
| "choicesFindings (choice # rest) nodeId index allNodeIds =
     (case choiceFindings choice nodeId index allNodeIds of
        None \<Rightarrow> None
      | Some found \<Rightarrow>
          (case choicesFindings rest nodeId (Suc index) allNodeIds of
             None \<Rightarrow> None
           | Some others \<Rightarrow> Some (found @ others)))"

text \<open>
  \<^verbatim>\<open>validateStoryNode(node, nodeId, allNodeIds)\<close> of the settings handler. \<open>None\<close>: a
  \<^verbatim>\<open>TypeError\<close> (the node or one of its choices is \<^verbatim>\<open>null\<close>).
\<close>

definition validateStoryNode_settings :: "jsval \<Rightarrow> string \<Rightarrow> string list \<Rightarrow> finding list option" where
  "validateStoryNode_settings node nodeId allNodeIds =
     (if nullish node then None
      else (case (if truthy (getp node ''choices'')
                  then (case getp node ''choices'' of
                          JArr cs \<Rightarrow> choicesFindings cs nodeId 0 allNodeIds
                        | _ \<Rightarrow> Some [F_ChoicesNotArray nodeId])
                  else Some []) of
              None \<Rightarrow> None
            | Some ofChoices \<Rightarrow>
                Some
                  ((if \<not> truthy (getp node ''id'') \<or> getp node ''id'' \<noteq> JStr nodeId
                    then [F_NodeId nodeId] else []) @
                   (if notAString (getp node ''title'') then [F_NodeTitle nodeId] else []) @
                   (if notAString (getp node ''content'') then [F_NodeContent nodeId] else []) @
                   (if truthy (getp node ''imageUrl'') \<and>
                       typeof (getp node ''imageUrl'') \<noteq> ''string''
                    then [F_NodeImageUrl nodeId] else []) @
                   ofChoices @
                   (if truthy (getp node ''isEnd'') \<and> truthy (getp node ''choices'') \<and>
                       greaterThan_js (getp (getp node ''choices'') ''length'') 0
                    then [F_EndWithChoices nodeId] else []) @
                   (if \<not> truthy (getp node ''isEnd'') \<and>
                       (\<not> truthy (getp node ''choices'') \<or>
                        getp (getp node ''choices'') ''length'' = JNum 0)
                    then [F_NonEndWithoutChoices nodeId] else []))))"

text \<open>
  \<^verbatim>\<open>for (const nodeId of nodeIds) errors.push(...this.validateStoryNode(...))\<close>.
\<close>

fun nodesFindings :: "jsval \<Rightarrow> string list \<Rightarrow> string list \<Rightarrow> finding list option" where
  "nodesFindings nodeMap [] allNodeIds = Some []"
| "nodesFindings nodeMap (nodeId # rest) allNodeIds =
     (case validateStoryNode_settings (getp nodeMap nodeId) nodeId allNodeIds of
        None \<Rightarrow> None
      | Some found \<Rightarrow>
          (case nodesFindings nodeMap rest allNodeIds of
             None \<Rightarrow> None
           | Some others \<Rightarrow> Some (found @ others)))"

definition findReachableNodes :: "jsval \<Rightarrow> jsval list option" where
  "findReachableNodes story =
     reach_loop True (getp story ''nodes'') [] [getp story ''startNodeId'']"

text \<open>
  \<^verbatim>\<open>validateStoryJson\<close>, from the parsed text on. \<open>nodesBlock\<close> is the \<^verbatim>\<open>else\<close> branch
  that looks into the nodes; \<open>None\<close> is an exception, which the \<^verbatim>\<open>catch\<close> turns into
  the critical result.
\<close>

definition nodesBlock :: "jsval \<Rightarrow> finding list option" where
  "nodesBlock parsedStory =
     (let nodeMap = getp parsedStory ''nodes'';
          nodeIds = objKeys nodeMap;
          start = getp parsedStory ''startNodeId''
      in case (if truthy start then map_option (\<lambda>found. \<not> truthy found) (getv nodeMap start)
               else Some False) of
           None \<Rightarrow> None
         | Some startMissing \<Rightarrow>
             (case nodesFindings nodeMap nodeIds nodeIds of
                None \<Rightarrow> None
              | Some nodeErrors \<Rightarrow>
                  (case findReachableNodes parsedStory of
                     None \<Rightarrow> None
                   | Some reachableNodes \<Rightarrow>
                       (let unreachableNodes =
                              filter (\<lambda>nodeId. JStr nodeId \<noteq> start \<and>
                                               JStr nodeId \<notin> set reachableNodes) nodeIds
                        in Some
                             ((if nodeIds = [] then [F_NoNodes] else []) @
                              (if startMissing then [F_StartNodeNotFound start] else []) @
                              nodeErrors @
                              (if unreachableNodes \<noteq> [] then [F_Unreachable unreachableNodes]
                               else []))))))"

definition criticalResult :: StoryValidationResult where
  "criticalResult = \<lparr>isValid = False, errors = [F_Critical], warnings = []\<rparr>"

definition validateStoryJson :: "jsval \<Rightarrow> StoryValidationResult" where
  "validateStoryJson parsedStory =
     (if typeof parsedStory \<noteq> ''object'' \<or> parsedStory = JNull \<or> isArray parsedStory
      then \<lparr>isValid = False, errors = [F_NotAnObject], warnings = []\<rparr>
      else (let nodeMap = getp parsedStory ''nodes'';
                topErrors =
                  (if notAString (getp parsedStory ''title'') then [F_Title] else []) @
                  (if notAString (getp parsedStory ''description'') then [F_Description] else []) @
                  (if notAString (getp parsedStory ''startNodeId'') then [F_StartNodeId] else [])
            in case (if \<not> truthy nodeMap \<or> typeof nodeMap \<noteq> ''object'' then Some [F_Nodes]
                     else nodesBlock parsedStory) of
                 None \<Rightarrow> criticalResult
               | Some nodeErrors \<Rightarrow>
                   if nullish nodeMap then criticalResult
                   else (let allErrors = topErrors @ nodeErrors;
                             allWarnings =
                               (if int (length (objKeys nodeMap)) > 50
                                then [W_LargeStory (length (objKeys nodeMap))] else []) @
                               (if truthy (getp parsedStory ''title'') \<and>
                                   greaterThan_js (getp (getp parsedStory ''title'') ''length'') 100
                                then [W_LongTitle] else []) @
                               (if truthy (getp parsedStory ''description'') \<and>
                                   greaterThan_js
                                     (getp (getp parsedStory ''description'') ''length'') 500
                                then [W_LongDescription] else [])
                         in if allErrors \<noteq> []
                            then \<lparr>isValid = False, errors = allErrors, warnings = allWarnings\<rparr>
                            else \<lparr>isValid = True, errors = [], warnings = allWarnings\<rparr>)))"

section \<open>Notions the properties are stated with\<close>

text \<open>
  \<open>resolves nodeMap key\<close>: \<^verbatim>\<open>nodes[key]\<close> is something, which is what the validators ask
  of the start node and of the target of a choice.

  The choice edges of a story: \<open>(a, b)\<close> is an edge when what \<^verbatim>\<open>nodes[a]\<close> yields has a
  choice whose \<^verbatim>\<open>nextNodeId\<close> is \<open>b\<close>. A node id is reachable when the reflexive
  transitive closure of the edges relates the start node id to it.
\<close>

definition resolves :: "jsval \<Rightarrow> jsval \<Rightarrow> bool" where
  "resolves nodeMap key = (case getv nodeMap key of None \<Rightarrow> False | Some found \<Rightarrow> truthy found)"

definition choiceEdges :: "jsval \<Rightarrow> (jsval \<times> jsval) set" where
  "choiceEdges nodeMap =
     {(a, b). case getv nodeMap a of
                None \<Rightarrow> False
              | Some node \<Rightarrow> truthy (getp node ''choices'') \<and> b \<in> set (targetsOf node)}"

text \<open>
  The fatal checks of \<^verbatim>\<open>validateStoryReferences\<close>, said of the story rather than
  computed by its loops: the start node exists; every target of every node's choices
  exists; some node is an end node.
\<close>

definition startNodeExists :: "jsval \<Rightarrow> bool" where
  "startNodeExists story = resolves (getp story ''nodes'') (getp story ''startNodeId'')"

definition referencesResolve :: "jsval \<Rightarrow> bool" where
  "referencesResolve story =
     (\<forall>nodeId \<in> set (objKeys (getp story ''nodes'')).
        \<forall>target \<in> set (targetsOf (getp (getp story ''nodes'') nodeId)).
          resolves (getp story ''nodes'') target)"

definition hasEndNode :: "jsval \<Rightarrow> bool" where
  "hasEndNode story =
     (\<exists>nodeId \<in> set (objKeys (getp story ''nodes'')).
        getp (getp (getp story ''nodes'') nodeId) ''isEnd'' = JBool True)"

text \<open>
  What the structure validation of the story engine establishes about the nodes, as far
  as the later loops rely on it: a node is an object, and its choices, when it has any,
  are an array of objects with a text as \<^verbatim>\<open>nextNodeId\<close>.
\<close>

definition nodesWellFormed :: "jsval \<Rightarrow> bool" where
  "nodesWellFormed nodeMap =
     (\<forall>nodeId \<in> set (objKeys nodeMap).
        \<not> nullish (getp nodeMap nodeId) \<and>
        (truthy (getp (getp nodeMap nodeId) ''choices'') \<longrightarrow>
           (\<exists>cs. getp (getp nodeMap nodeId) ''choices'' = JArr cs \<and>
                 (\<forall>choice \<in> set cs. \<not> nullish choice \<and>
                                      typeof (getp choice ''nextNodeId'') = ''string''))))"

text \<open>The node ids of a story that the start node does not reach, in the order of the nodes.\<close>

definition unreachableIds :: "jsval \<Rightarrow> string list" where
  "unreachableIds story =
     filter (\<lambda>nodeId. (getp story ''startNodeId'', JStr nodeId)
                         \<notin> (choiceEdges (getp story ''nodes''))\<^sup>*)
       (objKeys (getp story ''nodes''))"





section \<open>A small game\<close>

text \<open>
  The story \<open>start \<rightarrow> [A \<rightarrow> nodeX, B \<rightarrow> nodeY]\<close>, \<open>nodeX \<rightarrow> [C \<rightarrow> theEnd]\<close>, with
  \<open>nodeY\<close> and \<open>theEnd\<close> end nodes, and a store in which round 1 of this story is being
  played and the comments \<open>t1_a\<close> and \<open>t1_b\<close> collect the votes for \<open>A\<close> and \<open>B\<close>.
\<close>

definition demoStory :: Story where
  "demoStory =
     \<lparr>title = ''Demo'', description = ''A demo story'', startNodeId = ''start'',
      nodes =
        [(''start'',
          \<lparr>node_id = ''start'', node_title = ''Start'', content = ''You wake up.'',
           imageUrl = None,
           choices = Some [\<lparr>choice_id = ''A'', choice_text = ''Go left'', nextNodeId = ''nodeX''\<rparr>,
                           \<lparr>choice_id = ''B'', choice_text = ''Go right'', nextNodeId = ''nodeY''\<rparr>],
           isEnd = None\<rparr>),
         (''nodeX'',
          \<lparr>node_id = ''nodeX'', node_title = ''Left'', content = ''A door.'', imageUrl = None,
           choices = Some [\<lparr>choice_id = ''C'', choice_text = ''Open it'', nextNodeId = ''theEnd''\<rparr>],
           isEnd = None\<rparr>),
         (''nodeY'',
          \<lparr>node_id = ''nodeY'', node_title = ''Right'', content = ''A pit.'', imageUrl = None,
           choices = None, isEnd = Some True\<rparr>),
         (''theEnd'',
          \<lparr>node_id = ''theEnd'', node_title = ''End'', content = ''Daylight.'', imageUrl = None,
           choices = None, isEnd = Some True\<rparr>)]\<rparr>"

definition demoGame :: GameState where
  "demoGame =
     \<lparr>currentNodeId = ''start'', roundNumber = 1, storyPath = [''start''], isActive = True,
      roundStartTime = 1000, roundDurationHours = 24, testMode = Some False\<rparr>"

definition emptyRedis :: Redis where
  "emptyRedis = \<lparr>GAME_STATE = None, STORY_DATA = None, CONFIG = None, VOTE_DATA = Map.empty\<rparr>"

definition demoRedis :: Redis where
  "demoRedis =
     \<lparr>GAME_STATE = Some demoGame, STORY_DATA = Some demoStory,
      CONFIG = Some \<lparr>cfg_roundDurationHours = 24, isGameActive = True, subredditName = ''demo''\<rparr>,
      VOTE_DATA = [1 \<mapsto> \<lparr>vd_choices = [(''A'', ''t1_a''), (''B'', ''t1_b'')],
                           roundEndTime = 86401000\<rparr>]\<rparr>"

text \<open>The same game in test mode: rounds of five minutes, the first begun at time 0.\<close>

definition testGame :: GameState where
  "testGame =
     \<lparr>currentNodeId = ''start'', roundNumber = 1, storyPath = [''start''], isActive = True,
      roundStartTime = 0, roundDurationHours = 5, testMode = Some True\<rparr>"

definition testRedis :: Redis where
  "testRedis = demoRedis\<lparr>GAME_STATE := Some testGame\<rparr>"

text \<open>
  A round with a tie. The current node offers its choices in the order \<open>B, A, C\<close>; the
  comments were tracked in the order \<open>A, B, C\<close>; \<open>A\<close> and \<open>B\<close> have 10 upvotes each and
  \<open>C\<close> has 5. \<open>firstChoiceConfig\<close> is the vote counter with
  \<^verbatim>\<open>randomTieBreaking: false\<close>.
\<close>

definition tieStory :: Story where
  "tieStory =
     \<lparr>title = ''Tie'', description = ''A story with three ways'', startNodeId = ''start'',
      nodes =
        [(''start'',
          \<lparr>node_id = ''start'', node_title = ''Start'', content = ''Three doors.'',
           imageUrl = None,
           choices = Some [\<lparr>choice_id = ''B'', choice_text = ''Blue'', nextNodeId = ''theEnd''\<rparr>,
                           \<lparr>choice_id = ''A'', choice_text = ''Amber'', nextNodeId = ''theEnd''\<rparr>,
                           \<lparr>choice_id = ''C'', choice_text = ''Cyan'', nextNodeId = ''theEnd''\<rparr>],
           isEnd = None\<rparr>),
         (''theEnd'',
          \<lparr>node_id = ''theEnd'', node_title = ''End'', content = ''Daylight.'', imageUrl = None,
           choices = None, isEnd = Some True\<rparr>)]\<rparr>"

definition tieRedis :: Redis where
  "tieRedis =
     snd (trackChoiceComment ''C'' ''t1_c'' 1
       (snd (trackChoiceComment ''B'' ''t1_b'' 1
         (snd (trackChoiceComment ''A'' ''t1_a'' 1
           \<lparr>GAME_STATE = Some demoGame, STORY_DATA = Some tieStory,
            CONFIG = Some \<lparr>cfg_roundDurationHours = 24, isGameActive = True,
                            subredditName = ''demo''\<rparr>,
            VOTE_DATA = Map.empty\<rparr>)))))"

definition tieScores :: reddit_comments where
  "tieScores comment attempt =
     (if comment = ''t1_a'' then Comment (Some 10)
      else if comment = ''t1_b'' then Comment (Some 10)
      else if comment = ''t1_c'' then Comment (Some 5)
      else NoComment)"

definition firstChoiceConfig :: VoteCounterConfig where
  "firstChoiceConfig = defaultVoteCounterConfig\<lparr>randomTieBreaking := False\<rparr>"

text \<open>
  A Reddit API on a bad day: every fetch of \<open>t1_a\<close> throws, and \<open>t1_b\<close> is found at the
  third attempt only, with 3 upvotes.
\<close>

definition flakyScores :: reddit_comments where
  "flakyScores comment attempt =
     (if comment = ''t1_a'' then FetchThrows ''rate limited''
      else if comment = ''t1_b'' then (if attempt < 3 then NoComment else Comment (Some 3))
      else NoComment)"

text \<open>
  The demo game as a scheduler job finds it: a fresh handler (empty caches, no job
  scheduled), \<open>A\<close> with 5 upvotes and \<open>B\<close> with 3. In \<open>publishFailsEnv\<close> Reddit refuses
  the post of the next round. \<open>noVotesWorld\<close> is the same game with no vote data.
\<close>

definition demoWorld :: World where
  "demoWorld = \<lparr>redis = demoRedis, se_currentStory = None, pm_currentStory = None, jobs = []\<rparr>"

definition demoScores :: reddit_comments where
  "demoScores comment attempt =
     (if comment = ''t1_a'' then Comment (Some 5)
      else if comment = ''t1_b'' then Comment (Some 3)
      else NoComment)"

definition publishFailsEnv :: Env where
  "publishFailsEnv =
     \<lparr>dateNow = 86401000, getCommentById = demoScores, mathRandom = 0,
      submitPost = Inl ''Reddit is down'',
      submitComments = (\<lambda>cs. Inr (map (\<lambda>c. ''t2_'' @ choice_id c) cs)),
      runJob = Inr ''job-2''\<rparr>"

definition noVotesWorld :: World where
  "noVotesWorld = demoWorld\<lparr>redis := demoRedis\<lparr>VOTE_DATA := Map.empty\<rparr>\<rparr>"

text \<open>
  The same environment at every attempt of a firing, and a handler that finds no game.
\<close>

definition always :: "Env \<Rightarrow> int \<Rightarrow> Env" where
  "always env attempt = env"

definition idleWorld :: World where
  "idleWorld = \<lparr>redis = emptyRedis, se_currentStory = None, pm_currentStory = None, jobs = []\<rparr>"

text \<open>
  Two more environments for the demo game: in \<open>okEnv\<close> Reddit accepts the post of the next
  round; in \<open>secondTry\<close> every comment has the score \<open>-1\<close> during the first attempt of a
  firing (below the minimum of 0 votes, so that no choice wins) and the scores of
  \<open>okEnv\<close> from the second attempt on.
\<close>

definition okEnv :: Env where
  "okEnv = publishFailsEnv\<lparr>submitPost := Inr ''t3_round2''\<rparr>"

definition coldScores :: reddit_comments where
  "coldScores comment attempt = Comment (Some (- 1))"

definition secondTry :: "int \<Rightarrow> Env" where
  "secondTry attempt = (if attempt = 1 then okEnv\<lparr>getCommentById := coldScores\<rparr> else okEnv)"

text \<open>
  Three parsed stories. \<open>orphanJson\<close> is sound except that no choice leads to its node
  \<open>orphan\<close>. \<open>twoDefectsJson\<close> has a node without a title (\<open>start\<close>) and, on another node
  (\<open>mid\<close>), a choice that leads to a node that does not exist. \<open>inheritedJson\<close> names
  \<^verbatim>\<open>constructor\<close> as its start node, which is none of its nodes \<open>a\<close> and \<open>b\<close> but
  something every object inherits.
\<close>

definition jsChoice :: "string \<Rightarrow> string \<Rightarrow> string \<Rightarrow> jsval" where
  "jsChoice c t n = JObj [(''id'', JStr c), (''text'', JStr t), (''nextNodeId'', JStr n)]"

definition jsEndNode :: "string \<Rightarrow> jsval" where
  "jsEndNode n =
     JObj [(''id'', JStr n), (''title'', JStr ''An end''), (''content'', JStr ''It ends here.''),
           (''isEnd'', JBool True)]"

definition orphanJson :: jsval where
  "orphanJson =
     JObj [(''title'', JStr ''Demo''), (''description'', JStr ''A demo story''),
           (''startNodeId'', JStr ''start''),
           (''nodes'',
            JObj [(''start'',
                   JObj [(''id'', JStr ''start''), (''title'', JStr ''Start''),
                         (''content'', JStr ''You wake up.''),
                         (''choices'', JArr [jsChoice ''A'' ''Go on'' ''theEnd''])]),
                  (''theEnd'', jsEndNode ''theEnd''),
                  (''orphan'', jsEndNode ''orphan'')])]"


definition inheritedJson :: jsval where
  "inheritedJson =
     JObj [(''title'', JStr ''Demo''), (''description'', JStr ''A demo story''),
           (''startNodeId'', JStr ''constructor''),
           (''nodes'', JObj [(''a'', jsEndNode ''a''), (''b'', jsEndNode ''b'')])]"

section \<open>Properties\<close>

subsection \<open>Completing a game\<close>

text \<open>
  C10. For every stored game state, \<^verbatim>\<open>completeGame\<close> sets \<^verbatim>\<open>isActive\<close> to false and
  leaves every other field of the game state (\<^verbatim>\<open>currentNodeId\<close>, \<^verbatim>\<open>roundNumber\<close>,
  \<^verbatim>\<open>storyPath\<close>, \<^verbatim>\<open>roundStartTime\<close>, \<^verbatim>\<open>roundDurationHours\<close>, \<^verbatim>\<open>testMode\<close>) as it
  was; when no game state exists it returns without an error and writes nothing: the
  store is the one it was given.
\<close>

theorem completeGame_frame:
  "(getGameState r = None \<longrightarrow> completeGame r = r) \<and>
   (\<forall>g. getGameState r = Some g \<longrightarrow>
      (\<exists>g'. getGameState (completeGame r) = Some g' \<and> isActive g' = False \<and>
         currentNodeId g' = currentNodeId g \<and> roundNumber g' = roundNumber g \<and>
         storyPath g' = storyPath g \<and> roundStartTime g' = roundStartTime g \<and>
         roundDurationHours g' = roundDurationHours g \<and> testMode g' = testMode g))"
  by (auto simp: completeGame_def getGameState_def setGameState_def getConfiguration_def
        setConfiguration_def Let_def split: option.splits)

theorem completeGame_frame_witness:
  "getGameState emptyRedis = None \<and> completeGame emptyRedis = emptyRedis \<and>
   getGameState demoRedis = Some demoGame \<and>
   (\<exists>g'. getGameState (completeGame demoRedis) = Some g' \<and> isActive g' = False \<and>
      currentNodeId g' = ''start'' \<and> roundNumber g' = 1 \<and> storyPath g' = [''start''] \<and>
      roundStartTime g' = 1000 \<and> roundDurationHours g' = 24 \<and> testMode g' = Some False)"
proof -
  have none: "getGameState emptyRedis = None"
    by (simp add: getGameState_def emptyRedis_def)
  have some: "getGameState demoRedis = Some demoGame"
    by (simp add: getGameState_def demoRedis_def)
  from completeGame_frame [of emptyRedis] none
  have a: "completeGame emptyRedis = emptyRedis" by blast
  from completeGame_frame [of demoRedis] some
  obtain g' where "getGameState (completeGame demoRedis) = Some g'" "isActive g' = False"
    "currentNodeId g' = currentNodeId demoGame" "roundNumber g' = roundNumber demoGame"
    "storyPath g' = storyPath demoGame" "roundStartTime g' = roundStartTime demoGame"
    "roundDurationHours g' = roundDurationHours demoGame" "testMode g' = testMode demoGame"
    by blast
  then have "\<exists>g'. getGameState (completeGame demoRedis) = Some g' \<and> isActive g' = False \<and>
      currentNodeId g' = ''start'' \<and> roundNumber g' = 1 \<and> storyPath g' = [''start''] \<and>
      roundStartTime g' = 1000 \<and> roundDurationHours g' = 24 \<and> testMode g' = Some False"
    by (simp add: demoGame_def)
  with none a some show ?thesis by blast
qed

subsection \<open>Time remaining in a round\<close>

text \<open>
  C9. Every time-remaining query computes \<open>max 0 ((roundStartTime + roundDuration) - now)\<close>
  with the duration in the unit of the game (hours, or minutes in test mode), so that the
  scheduler and the story engine agree on the same state. The story engine does; 
  \<^verbatim>\<open>getNextScheduledRound\<close> reads the duration as hours whatever the mode. In the test
  game (rounds of 5 minutes, begun at time 0), ten minutes later the story engine
  reports 0 ms remaining and the scheduler 17400000 ms (4 h 50 min).
\<close>

theorem timeRemaining_disagrees_in_testMode:
  "getTimeRemainingInRound 600000 testRedis = 0 \<and>
   map_option timeRemaining (getNextScheduledRound 600000 testRedis) = Some 17400000 \<and>
   isRoundExpired 600000 testRedis \<and> \<not> isRoundAdvancementDue 600000 testRedis"
  by (simp add: getTimeRemainingInRound_def getNextScheduledRound_def getGameState_def
        isRoundExpired_def isRoundAdvancementDue_def testRedis_def demoRedis_def testGame_def
        Let_def)

subsection \<open>Resetting a game\<close>

text \<open>
  C8 as stated (reset clears \<^verbatim>\<open>active\<close> and leaves the unit of the round duration
  untouched) fails: after \<^verbatim>\<open>resetGame\<close> on the test game the game is active, and
  it is no longer in test mode.
\<close>

theorem resetGame_counterexample:
  "map_option isActive (getGameState (snd (snd (resetGame 5000 (None, testRedis))))) = Some True \<and>
   map_option testMode (getGameState testRedis) = Some (Some True) \<and>
   map_option testMode (getGameState (snd (snd (resetGame 5000 (None, testRedis))))) =
     Some (Some False)"
  by (simp add: resetGame_def loadCurrentStory_def getStoryData_def getConfiguration_def
        initializeNewGame_def clearGameData_def setGameState_def setConfiguration_def
        getGameState_def testRedis_def demoRedis_def testGame_def Let_def)

text \<open>
  C8, amended. With a story and a configuration in place, \<^verbatim>\<open>resetGame\<close> starts the
  game afresh: the new game state is active, at round 1, on the start node, with the path
  \<open>[startNodeId]\<close>, the round begun now and the round duration taken from the
  configuration; the stored story is untouched, and the configuration keeps its round
  duration and its subreddit.
\<close>

theorem resetGame_reinitialises:
  assumes "fst (loadCurrentStory e) = Some story" and "getConfiguration (snd e) = Some config"
  shows "\<exists>e' g' c'. resetGame now e = (Inr (), e') \<and> getGameState (snd e') = Some g' \<and>
     isActive g' \<and> roundNumber g' = 1 \<and> storyPath g' = [startNodeId story] \<and>
     currentNodeId g' = startNodeId story \<and> roundStartTime g' = now \<and>
     roundDurationHours g' = cfg_roundDurationHours config \<and>
     getStoryData (snd e') = getStoryData (snd e) \<and> fst e' = Some story \<and>
     getConfiguration (snd e') = Some c' \<and>
     cfg_roundDurationHours c' = cfg_roundDurationHours config \<and>
     subredditName c' = subredditName config"
  using assms
  by (auto simp: resetGame_def loadCurrentStory_def getStoryData_def getConfiguration_def
        initializeNewGame_def clearGameData_def setGameState_def setConfiguration_def
        getGameState_def Let_def split: option.splits)

theorem resetGame_reinitialises_witness:
  "\<exists>e' g' c'. resetGame 5000 (None, testRedis) = (Inr (), e') \<and>
     getGameState (snd e') = Some g' \<and> isActive g' \<and> roundNumber g' = 1 \<and>
     storyPath g' = [''start''] \<and> currentNodeId g' = ''start'' \<and> roundStartTime g' = 5000 \<and>
     roundDurationHours g' = 24 \<and> getStoryData (snd e') = Some demoStory \<and>
     fst e' = Some demoStory \<and> getConfiguration (snd e') = Some c' \<and>
     cfg_roundDurationHours c' = 24 \<and> subredditName c' = ''demo''"
proof -
  have s: "fst (loadCurrentStory (None, testRedis)) = Some demoStory"
    by (simp add: loadCurrentStory_def getStoryData_def testRedis_def demoRedis_def)
  have c: "getConfiguration (snd (None, testRedis)) =
             Some \<lparr>cfg_roundDurationHours = 24, isGameActive = True, subredditName = ''demo''\<rparr>"
    by (simp add: getConfiguration_def testRedis_def demoRedis_def)
  have d: "getStoryData testRedis = Some demoStory"
    by (simp add: getStoryData_def testRedis_def demoRedis_def)
  have n: "startNodeId demoStory = ''start''"
    by (simp add: demoStory_def)
  from resetGame_reinitialises [OF s c, of 5000] d n show ?thesis
    by simp
qed

subsection \<open>Advancing along edges\<close>

lemma pushToPath_distinct_adj: "distinct_adj p \<Longrightarrow> distinct_adj (pushToPath p n)"
  by (auto simp: pushToPath_def distinct_adj_append_iff)

text \<open>What one successful call of \<^verbatim>\<open>advanceStoryByChoice\<close> has done.\<close>

lemma advance_step:
  assumes "advanceStoryByChoice c now e = (Inr u, e')"
  shows "\<exists>g g' ch. getGameState (snd e) = Some g \<and> getGameState (snd e') = Some g' \<and>
           selectedChoice e c = Some ch \<and>
           g' = g\<lparr>currentNodeId := nextNodeId ch, roundNumber := roundNumber g + 1,
                  roundStartTime := now, storyPath := pushToPath (storyPath g) (nextNodeId ch)\<rparr>"
  using assms
  by (auto simp: advanceStoryByChoice_def selectedChoice_def getCurrentNode_def lookupNode_def Let_def
       getGameState_def setGameState_def loadCurrentStory_def
       split: option.splits if_splits sum.splits prod.splits)

lemma advanceMany_append:
  "advanceMany (xs @ ys) e =
     (case advanceMany xs e of (Inl msg, e1) \<Rightarrow> (Inl msg, e1) | (Inr u, e1) \<Rightarrow> advanceMany ys e1)"
  by (induction xs arbitrary: e) (auto split: prod.splits sum.splits)

lemma advanceMany_inv:
  assumes "advanceMany steps e = (Inr u, e')" and "getGameState (snd e) = Some g"
    and "distinct_adj (storyPath g)"
  shows "\<exists>g'. getGameState (snd e') = Some g' \<and>
           roundNumber g' = roundNumber g + int (length steps) \<and> distinct_adj (storyPath g')"
  using assms
proof (induction steps arbitrary: e g)
  case Nil
  then show ?case by simp
next
  case (Cons step steps)
  obtain c now where step: "step = (c, now)" by (cases step)
  from Cons.prems(1) step obtain e1 where
    one: "advanceStoryByChoice c now e = (Inr (), e1)" and rest: "advanceMany steps e1 = (Inr u, e')"
    by (auto split: prod.splits sum.splits)
  from advance_step [OF one] Cons.prems(2) obtain g1 n where
    g1: "getGameState (snd e1) = Some g1" "roundNumber g1 = roundNumber g + 1"
        "storyPath g1 = pushToPath (storyPath g) n"
    by fastforce
  with Cons.prems(3) have "distinct_adj (storyPath g1)"
    by (simp add: pushToPath_distinct_adj)
  from Cons.IH [OF rest g1(1) this] g1(2) show ?case by auto
qed

text \<open>
  C4. After N successive successful calls of \<^verbatim>\<open>advanceStoryByChoice\<close> the round
  number is the initial one plus N; the current node is the \<^verbatim>\<open>nextNodeId\<close> of the
  choice selected by the last call (every prefix of a successful run is a successful run,
  so this holds after each call); and the path has no two consecutive equal node ids,
  given that the path the run started from had none, as the path \<open>[startNodeId]\<close> of a new
  game has.
\<close>

theorem advanceMany_rounds_and_path:
  assumes "advanceMany steps e = (Inr u, e')" and "getGameState (snd e) = Some g"
    and "distinct_adj (storyPath g)"
  shows "\<exists>g'. getGameState (snd e') = Some g' \<and>
           roundNumber g' = roundNumber g + int (length steps) \<and>
           distinct_adj (storyPath g') \<and>
           (\<forall>pre c now. steps = pre @ [(c, now)] \<longrightarrow>
              (\<exists>e1 ch. advanceMany pre e = (Inr (), e1) \<and> selectedChoice e1 c = Some ch \<and>
                        currentNodeId g' = nextNodeId ch))"
proof -
  from advanceMany_inv [OF assms] obtain g' where
    g': "getGameState (snd e') = Some g'" "roundNumber g' = roundNumber g + int (length steps)"
        "distinct_adj (storyPath g')" by blast
  have "\<exists>e1 ch. advanceMany pre e = (Inr (), e1) \<and> selectedChoice e1 c = Some ch \<and>
                        currentNodeId g' = nextNodeId ch" if "steps = pre @ [(c, now)]" for pre c now
  proof -
    from assms(1) that obtain e1 where
      pre: "advanceMany pre e = (Inr (), e1)" and last: "advanceStoryByChoice c now e1 = (Inr (), e')"
      by (auto simp: advanceMany_append split: prod.splits sum.splits)
    from advance_step [OF last] g'(1) obtain ch where
      "selectedChoice e1 c = Some ch" "currentNodeId g' = nextNodeId ch" by auto
    with pre show ?thesis by blast
  qed
  with g' show ?thesis by blast
qed

theorem advanceMany_rounds_and_path_witness:
  "fst (advanceMany [(''A'', 2000), (''C'', 3000)] (None, demoRedis)) = Inr () \<and>
   getGameState demoRedis = Some demoGame \<and> distinct_adj (storyPath demoGame) \<and>
   (\<exists>g'. getGameState (snd (snd (advanceMany [(''A'', 2000), (''C'', 3000)] (None, demoRedis)))) = Some g' \<and>
      roundNumber g' = 3 \<and> distinct_adj (storyPath g') \<and> currentNodeId g' = ''theEnd'')"
proof -
  let ?e = "(None, demoRedis) :: engine"
  let ?steps = "[(''A'', 2000), (''C'', 3000)] :: (string \<times> int) list"
  have ok: "fst (advanceMany ?steps ?e) = Inr ()"
    by (simp add: advanceStoryByChoice_def getCurrentNode_def lookupNode_def loadCurrentStory_def
          getStoryData_def getGameState_def setGameState_def pushToPath_def demoRedis_def
          demoStory_def demoGame_def)
  then have run: "advanceMany ?steps ?e = (Inr (), snd (advanceMany ?steps ?e))"
    by (metis prod.collapse)
  have gs: "getGameState (snd ?e) = Some demoGame"
    by (simp add: getGameState_def demoRedis_def)
  have da: "distinct_adj (storyPath demoGame)"
    by (simp add: demoGame_def)
  from advanceMany_rounds_and_path [OF run gs da] obtain g' where
    g': "getGameState (snd (snd (advanceMany ?steps ?e))) = Some g'"
        "roundNumber g' = roundNumber demoGame + int (length ?steps)" "distinct_adj (storyPath g')"
    and last: "\<And>pre c now. ?steps = pre @ [(c, now)] \<Longrightarrow>
                 \<exists>e1 ch. advanceMany pre ?e = (Inr (), e1) \<and> selectedChoice e1 c = Some ch \<and>
                          currentNodeId g' = nextNodeId ch"
    by blast
  have "?steps = [(''A'', 2000)] @ [(''C'', 3000)]" by simp
  from last [OF this] obtain e1 ch where
    e1: "advanceMany [(''A'', 2000)] ?e = (Inr (), e1)" "selectedChoice e1 ''C'' = Some ch"
        "currentNodeId g' = nextNodeId ch" by blast
  from e1(1) have "e1 = (Some demoStory, demoRedis\<lparr>GAME_STATE := Some
       \<lparr>currentNodeId = ''nodeX'', roundNumber = 2, storyPath = [''start'', ''nodeX''], isActive = True,
      roundStartTime = 2000, roundDurationHours = 24, testMode = Some False\<rparr>\<rparr>)"
    by (simp add: advanceStoryByChoice_def getCurrentNode_def lookupNode_def loadCurrentStory_def
          getStoryData_def getGameState_def setGameState_def pushToPath_def demoRedis_def
          demoStory_def demoGame_def)
  with e1(2) have "nextNodeId ch = ''theEnd''"
    by (auto simp add: selectedChoice_def getCurrentNode_def lookupNode_def loadCurrentStory_def
          getStoryData_def getGameState_def demoRedis_def demoStory_def)
  with e1(3) g' have "\<exists>g'. getGameState (snd (snd (advanceMany ?steps ?e))) = Some g' \<and>
      roundNumber g' = 3 \<and> distinct_adj (storyPath g') \<and> currentNodeId g' = ''theEnd''"
    by (auto simp: demoGame_def)
  with ok gs da show ?thesis by simp
qed

subsection \<open>Breaking a tie\<close>

text \<open>
  C2 as stated (with \<^verbatim>\<open>randomTieBreaking: false\<close> the winner among tied top scorers is
  the one that comes first in the current node's choice order, so that the tally
  \<open>{A: 10, B: 10, C: 5}\<close> with the node order \<open>[B, A, C]\<close> yields \<open>B\<close>) fails:
  \<^verbatim>\<open>resolveTie\<close> takes \<^verbatim>\<open>tiedChoices[0]\<close>, the first of the tally, and the winner
  is \<open>A\<close>.
\<close>

theorem firstChoice_tie_counterexample:
  "map_option (map choice_id)
     (case fst (getCurrentNode (None, tieRedis)) of
        Inr (Some currentNode) \<Rightarrow> choicesOf currentNode
      | _ \<Rightarrow> None) = Some [''B'', ''A'', ''C''] \<and>
   fst (countVotes firstChoiceConfig tieScores 1 tieRedis) =
     [\<lparr>choiceId = ''A'', commentId = ''t1_a'', upvotes = 10\<rparr>,
      \<lparr>choiceId = ''B'', commentId = ''t1_b'', upvotes = 10\<rparr>,
      \<lparr>choiceId = ''C'', commentId = ''t1_c'', upvotes = 5\<rparr>] \<and>
   fst (getWinningChoice firstChoiceConfig tieScores 0 1 tieRedis) = Inr (Some ''A'')"
  by (simp add: getWinningChoice_def countVotes_def getVoteData_def tieRedis_def
        trackChoiceComment_def setVoteData_def getGameState_def demoGame_def
        getCommentUpvotes_def firstChoiceConfig_def defaultVoteCounterConfig_def tieScores_def
        winnerOf_def resolveTie_def upto.simps getCurrentNode_def lookupNode_def loadCurrentStory_def
        getStoryData_def tieStory_def)

lemma find_as_filter: "find P xs = (case filter P xs of [] \<Rightarrow> None | x # _ \<Rightarrow> Some x)"
  by (induction xs) auto

lemma winnerOf_first:
  assumes first: "\<not> randomTieBreaking cfg"
  shows "winnerOf cfg rnd (sort_key (\<lambda>res. - upvotes res) tally) =
         Inr (map_option choiceId
               (find (\<lambda>res. minimumVotes cfg \<le> upvotes res \<and>
                             (\<forall>res' \<in> set tally. upvotes res' \<le> upvotes res)) tally))"
proof -
  let ?f = "\<lambda>res::VoteResult. - upvotes res"
  let ?s = "sort_key ?f tally"
  let ?P = "\<lambda>res. minimumVotes cfg \<le> upvotes res \<and> (\<forall>res' \<in> set tally. upvotes res' \<le> upvotes res)"
  let ?valid = "filter (\<lambda>res. upvotes res \<ge> minimumVotes cfg) ?s"
  show ?thesis
  proof (cases ?valid)
    case Nil
    then have "\<forall>res \<in> set tally. \<not> minimumVotes cfg \<le> upvotes res"
      by (auto simp: filter_empty_conv)
    then have "filter ?P tally = []"
      by (auto simp: filter_empty_conv)
    then have "find ?P tally = None"
      by (simp add: find_as_filter)
    with Nil show ?thesis
      by (simp add: winnerOf_def Let_def)
  next
    case (Cons best rest)
    let ?h = "upvotes best"
    have nonempty: "?s \<noteq> []" using Cons by auto
    have best_valid: "best \<in> set ?valid" using Cons by simp
    then have best_in: "best \<in> set tally" and min_le: "minimumVotes cfg \<le> ?h" by auto
    have "sorted (map ?f ?valid)"
      by (rule sorted_filter) (rule sorted_sort_key)
    with Cons have "\<forall>res \<in> set ?valid. ?f best \<le> ?f res" by auto
    then have valid_le: "\<forall>res \<in> set ?valid. upvotes res \<le> ?h" by auto
    have all_le: "\<forall>res \<in> set tally. upvotes res \<le> ?h"
    proof
      fix res assume r: "res \<in> set tally"
      show "upvotes res \<le> ?h"
      proof (cases "minimumVotes cfg \<le> upvotes res")
        case True
        with r have "res \<in> set ?valid" by simp
        with valid_le show ?thesis by blast
      next
        case False
        with min_le show ?thesis by linarith
      qed
    qed
    have P_iff: "?P res \<longleftrightarrow> upvotes res = ?h" if "res \<in> set tally" for res
      using that all_le best_in min_le by (auto intro: antisym)
    have "filter (\<lambda>res. upvotes res = ?h) ?valid = filter (\<lambda>res. ?f res = - ?h) ?s"
      using min_le by (auto intro: filter_cong)
    also have "\<dots> = filter (\<lambda>res. ?f res = - ?h) tally"
      by (rule sort_key_stable)
    also have "\<dots> = filter ?P tally"
      by (rule filter_cong) (simp_all add: P_iff)
    finally have top: "filter (\<lambda>res. upvotes res = ?h) ?valid = filter ?P tally" .
    have "best \<in> set (filter (\<lambda>res. upvotes res = ?h) ?valid)"
      using best_valid by simp
    with top obtain t ts where ts: "filter ?P tally = t # ts"
      by (cases "filter ?P tally") auto
    then have found: "find ?P tally = Some t"
      by (simp add: find_as_filter)
    from Cons nonempty top ts first have "winnerOf cfg rnd ?s = Inr (Some (choiceId t))"
      by (simp add: winnerOf_def Let_def resolveTie_def)
    with found show ?thesis by simp
  qed
qed

lemma countVotes_loop_ids:
  "map choiceId (fst (countVotes_loop cfg api entries)) = map fst entries"
  by (induction entries) (auto split: prod.splits)

text \<open>
  C2, amended. With \<^verbatim>\<open>randomTieBreaking: false\<close> the winner is the first entry of the
  tally, taken in the order of the entries of the round's vote data, whose score reaches
  \<^verbatim>\<open>minimumVotes\<close> and is the highest of the tally; there is no winner when no entry
  is such. The choice order of the current node plays no part.
\<close>

theorem getWinningChoice_first_in_tally:
  assumes "\<not> randomTieBreaking cfg" and "getVoteData roundNo r = Some voteData"
    and "countVotes_loop cfg api (vd_choices voteData) = (tally, delays)"
  shows "map choiceId tally = map fst (vd_choices voteData) \<and>
         fst (getWinningChoice cfg api rnd roundNo r) =
           Inr (map_option choiceId
                 (find (\<lambda>res. minimumVotes cfg \<le> upvotes res \<and>
                               (\<forall>res' \<in> set tally. upvotes res' \<le> upvotes res)) tally))"
proof -
  from assms(3) have "map choiceId tally = map fst (vd_choices voteData)"
    using countVotes_loop_ids [of cfg api "vd_choices voteData"] by simp
  moreover from assms(2,3) have
    "fst (getWinningChoice cfg api rnd roundNo r) =
       winnerOf cfg rnd (sort_key (\<lambda>res. - upvotes res) tally)"
    by (simp add: getWinningChoice_def countVotes_def)
  ultimately show ?thesis
    using winnerOf_first [OF assms(1), of rnd tally] by simp
qed

theorem getWinningChoice_first_in_tally_witness:
  "\<not> randomTieBreaking firstChoiceConfig \<and>
   map_option vd_choices (getVoteData 1 tieRedis) =
     Some [(''A'', ''t1_a''), (''B'', ''t1_b''), (''C'', ''t1_c'')] \<and>
   fst (getWinningChoice firstChoiceConfig tieScores 0 1 tieRedis) = Inr (Some ''A'')"
proof -
  let ?vd = "\<lparr>vd_choices = [(''A'', ''t1_a''), (''B'', ''t1_b''), (''C'', ''t1_c'')],
              roundEndTime = 86401000\<rparr>"
  let ?tally = "[\<lparr>choiceId = ''A'', commentId = ''t1_a'', upvotes = 10\<rparr>,
                 \<lparr>choiceId = ''B'', commentId = ''t1_b'', upvotes = 10\<rparr>,
                 \<lparr>choiceId = ''C'', commentId = ''t1_c'', upvotes = 5\<rparr>]"
  have first: "\<not> randomTieBreaking firstChoiceConfig"
    by (simp add: firstChoiceConfig_def)
  have vd: "getVoteData 1 tieRedis = Some ?vd"
    by (simp add: getVoteData_def tieRedis_def trackChoiceComment_def setVoteData_def
          getGameState_def demoGame_def)
  have tally: "countVotes_loop firstChoiceConfig tieScores (vd_choices ?vd) = (?tally, [])"
    by (simp add: getCommentUpvotes_def firstChoiceConfig_def defaultVoteCounterConfig_def
          tieScores_def upto.simps)
  from getWinningChoice_first_in_tally [OF first vd tally, of 0]
  have "fst (getWinningChoice firstChoiceConfig tieScores 0 1 tieRedis) = Inr (Some ''A'')"
    by (simp add: firstChoiceConfig_def defaultVoteCounterConfig_def)
  with first vd show ?thesis by simp
qed

subsection \<open>Counting votes when a fetch fails\<close>

text \<open>
  The retry loop of \<^verbatim>\<open>getCommentUpvotes\<close>: when every attempt fails, and when the
  attempt \<open>k\<close> is the first to yield a comment.
\<close>

lemma loop_exhausted:
  assumes "\<forall>a \<in> {i..maxR}. \<forall>s. api m a \<noteq> Comment s"
  shows "\<exists>msg. getCommentUpvotes_loop maxR api m lastError [i..maxR] =
           (Inl msg, backoffDelays i (maxR - 1))"
  using assms
proof (induction i maxR arbitrary: lastError rule: upto.induct)
  case (1 i j)
  show ?case
  proof (cases "i \<le> j")
    case False
    then show ?thesis by (simp add: backoffDelays_def)
  next
    case True
    then have fails: "\<forall>s. api m i \<noteq> Comment s" and rest: "\<forall>a \<in> {i + 1..j}. \<forall>s. api m a \<noteq> Comment s"
      using "1.prems" by auto
    obtain msg' where msg': "(case api m i of FetchThrows x \<Rightarrow> x | _ \<Rightarrow> ''Comment '' @ m @ '' not found'') = msg'"
      by simp
    from "1.IH" [OF True rest, of "Some msg'"] obtain msg where
      ih: "getCommentUpvotes_loop j api m (Some msg') [i + 1..j] = (Inl msg, backoffDelays (i + 1) (j - 1))"
      by blast
    have split: "[i..j] = i # [i + 1..j]" using True by (simp add: upto_rec1)
    have delays: "(if i < j then [2 ^ nat (i - 1) * 1000] else []) @ backoffDelays (i + 1) (j - 1)
                    = backoffDelays i (j - 1)"
      using True by (auto simp: backoffDelays_def upto_rec1)
    from fails ih msg' delays show ?thesis
      by (cases "api m i") (auto simp: split Let_def)
  qed
qed

lemma loop_succeeds:
  assumes "i \<le> k" "k \<le> maxR" "\<forall>a \<in> {i..<k}. \<forall>s. api m a \<noteq> Comment s" "api m k = Comment s"
  shows "getCommentUpvotes_loop maxR api m lastError [i..maxR] =
           (Inr (case s of None \<Rightarrow> 0 | Some n \<Rightarrow> n), backoffDelays i (k - 1))"
  using assms
proof (induction i maxR arbitrary: lastError rule: upto.induct)
  case (1 i j)
  have split: "[i..j] = i # [i + 1..j]" using "1.prems" by (simp add: upto_rec1)
  show ?case
  proof (cases "i = k")
    case True
    with "1.prems" split show ?thesis by (simp add: backoffDelays_def)
  next
    case False
    with "1.prems" have lt: "i < k" "i + 1 \<le> k" "i \<le> j" "i < j" by auto
    have fails: "\<forall>s. api m i \<noteq> Comment s" using "1.prems" lt by auto
    have rest: "\<forall>a \<in> {i + 1..<k}. \<forall>s. api m a \<noteq> Comment s" using "1.prems" by auto
    obtain msg' where msg': "(case api m i of FetchThrows x \<Rightarrow> x | _ \<Rightarrow> ''Comment '' @ m @ '' not found'') = msg'"
      by simp
    from "1.IH" [OF lt(3) lt(2) "1.prems"(2) rest "1.prems"(4), of "Some msg'"]
    have ih: "getCommentUpvotes_loop j api m (Some msg') [i + 1..j] =
                (Inr (case s of None \<Rightarrow> 0 | Some n \<Rightarrow> n), backoffDelays (i + 1) (k - 1))" .
    have delays: "[2 ^ nat (i - 1) * 1000] @ backoffDelays (i + 1) (k - 1) = backoffDelays i (k - 1)"
      using lt by (auto simp: backoffDelays_def upto_rec1)
    from fails ih msg' delays lt show ?thesis
      by (cases "api m i") (auto simp: split Let_def)
  qed
qed

lemma countVotes_loop_mem:
  assumes "(c, m) \<in> set entries"
  shows "\<lparr>choiceId = c, commentId = m,
          upvotes = (case fst (getCommentUpvotes cfg api m) of Inl _ \<Rightarrow> 0 | Inr n \<Rightarrow> n)\<rparr>
         \<in> set (fst (countVotes_loop cfg api entries))"
  using assms by (induction entries) (auto split: prod.splits)

lemma countVotes_loop_length: "length (fst (countVotes_loop cfg api entries)) = length entries"
  by (induction entries) (auto split: prod.splits)

lemma countVotes_results:
  assumes "getVoteData roundNo r = Some voteData"
  shows "set (fst (countVotes cfg api roundNo r)) =
           set (fst (countVotes_loop cfg api (vd_choices voteData)))"
    and "length (fst (countVotes cfg api roundNo r)) = length (vd_choices voteData)"
  using assms countVotes_loop_length [of cfg api "vd_choices voteData"]
  by (auto simp: countVotes_def split: prod.splits)

text \<open>
  C5. For every round and every tracked pair \<open>(choiceId, commentId)\<close>: the tally has one
  result per tracked pair; when all \<^verbatim>\<open>maxRetries\<close> attempts (3 by default) to fetch the
  score of this pair fail, the fetch has waited \<open>2^(attempt - 1)\<close> seconds after each
  attempt but the last and has thrown, and the tally holds this choice with 0 upvotes;
  when the attempt \<open>k\<close> within the budget is the first to succeed, the fetch has waited
  after the attempts before it and the tally holds the choice with the score fetched
  (0 when the comment has none). Neither depends on what the fetches of the other pairs
  do: the Reddit API \<open>api\<close> is arbitrary.
\<close>

theorem countVotes_isolates_fetch_failures:
  assumes "getVoteData roundNo r = Some voteData" and "(c, m) \<in> set (vd_choices voteData)"
  shows "length (fst (countVotes cfg api roundNo r)) = length (vd_choices voteData) \<and>
         ((\<forall>a \<in> {1..vc_maxRetries cfg}. \<forall>s. api m a \<noteq> Comment s) \<longrightarrow>
            (\<exists>msg. getCommentUpvotes cfg api m =
                     (Inl msg, backoffDelays 1 (vc_maxRetries cfg - 1))) \<and>
            \<lparr>choiceId = c, commentId = m, upvotes = 0\<rparr>
              \<in> set (fst (countVotes cfg api roundNo r))) \<and>
         (\<forall>k s. 1 \<le> k \<and> k \<le> vc_maxRetries cfg \<and>
                (\<forall>a \<in> {1..<k}. \<forall>s'. api m a \<noteq> Comment s') \<and> api m k = Comment s \<longrightarrow>
            getCommentUpvotes cfg api m =
              (Inr (case s of None \<Rightarrow> 0 | Some n \<Rightarrow> n), backoffDelays 1 (k - 1)) \<and>
            \<lparr>choiceId = c, commentId = m, upvotes = (case s of None \<Rightarrow> 0 | Some n \<Rightarrow> n)\<rparr>
              \<in> set (fst (countVotes cfg api roundNo r)))"
proof -
  note mem = countVotes_loop_mem [OF assms(2), of cfg api]
  note res = countVotes_results [OF assms(1), of cfg api]
  have exhausted: "(\<exists>msg. getCommentUpvotes cfg api m =
                     (Inl msg, backoffDelays 1 (vc_maxRetries cfg - 1))) \<and>
            \<lparr>choiceId = c, commentId = m, upvotes = 0\<rparr>
              \<in> set (fst (countVotes cfg api roundNo r))"
    if "\<forall>a \<in> {1..vc_maxRetries cfg}. \<forall>s. api m a \<noteq> Comment s"
  proof -
    from loop_exhausted [of 1 "vc_maxRetries cfg" api m None] that obtain msg where
      "getCommentUpvotes cfg api m = (Inl msg, backoffDelays 1 (vc_maxRetries cfg - 1))"
      by (auto simp: getCommentUpvotes_def)
    with mem res(1) show ?thesis by auto
  qed
  have fetched: "getCommentUpvotes cfg api m =
              (Inr (case s of None \<Rightarrow> 0 | Some n \<Rightarrow> n), backoffDelays 1 (k - 1)) \<and>
            \<lparr>choiceId = c, commentId = m, upvotes = (case s of None \<Rightarrow> 0 | Some n \<Rightarrow> n)\<rparr>
              \<in> set (fst (countVotes cfg api roundNo r))"
    if "1 \<le> k" "k \<le> vc_maxRetries cfg" "\<forall>a \<in> {1..<k}. \<forall>s'. api m a \<noteq> Comment s'"
       "api m k = Comment s" for k s
  proof -
    from loop_succeeds [of 1 k "vc_maxRetries cfg" api m s None] that have
      "getCommentUpvotes cfg api m =
         (Inr (case s of None \<Rightarrow> 0 | Some n \<Rightarrow> n), backoffDelays 1 (k - 1))"
      by (simp add: getCommentUpvotes_def)
    with mem res(1) show ?thesis by auto
  qed
  from res(2) exhausted fetched show ?thesis by blast
qed

theorem countVotes_isolates_fetch_failures_witness:
  "getVoteData 1 demoRedis \<noteq> None \<and>
   vc_maxRetries defaultVoteCounterConfig = 3 \<and>
   getCommentUpvotes defaultVoteCounterConfig flakyScores ''t1_a'' =
     (Inl ''Failed to get comment upvotes: rate limited'', [1000, 2000]) \<and>
   getCommentUpvotes defaultVoteCounterConfig flakyScores ''t1_b'' = (Inr 3, [1000, 2000]) \<and>
   length (fst (countVotes defaultVoteCounterConfig flakyScores 1 demoRedis)) = 2 \<and>
   \<lparr>choiceId = ''A'', commentId = ''t1_a'', upvotes = 0\<rparr>
     \<in> set (fst (countVotes defaultVoteCounterConfig flakyScores 1 demoRedis)) \<and>
   \<lparr>choiceId = ''B'', commentId = ''t1_b'', upvotes = 3\<rparr>
     \<in> set (fst (countVotes defaultVoteCounterConfig flakyScores 1 demoRedis))"
proof -
  let ?vd = "\<lparr>vd_choices = [(''A'', ''t1_a''), (''B'', ''t1_b'')], roundEndTime = 86401000\<rparr>"
  let ?cfg = defaultVoteCounterConfig
  have vd: "getVoteData 1 demoRedis = Some ?vd"
    by (simp add: getVoteData_def demoRedis_def)
  have max: "vc_maxRetries ?cfg = 3"
    by (simp add: defaultVoteCounterConfig_def)
  have a: "(''A'', ''t1_a'') \<in> set (vd_choices ?vd)" and b: "(''B'', ''t1_b'') \<in> set (vd_choices ?vd)"
    by simp_all
  have fa: "\<forall>a \<in> {1..vc_maxRetries ?cfg}. \<forall>s. flakyScores ''t1_a'' a \<noteq> Comment s"
    by (simp add: flakyScores_def)
  have fb: "1 \<le> (3::int) \<and> 3 \<le> vc_maxRetries ?cfg \<and>
            (\<forall>a \<in> {1..<3}. \<forall>s'. flakyScores ''t1_b'' a \<noteq> Comment s') \<and>
            flakyScores ''t1_b'' 3 = Comment (Some 3)"
    by (simp add: flakyScores_def max)
  have d: "backoffDelays 1 2 = [1000, 2000]"
    by (simp add: backoffDelays_def upto.simps)
  from countVotes_isolates_fetch_failures [OF vd a, of ?cfg flakyScores] fa
  have ra: "length (fst (countVotes ?cfg flakyScores 1 demoRedis)) = 2"
    "\<exists>msg. getCommentUpvotes ?cfg flakyScores ''t1_a'' = (Inl msg, [1000, 2000])"
    "\<lparr>choiceId = ''A'', commentId = ''t1_a'', upvotes = 0\<rparr>
       \<in> set (fst (countVotes ?cfg flakyScores 1 demoRedis))"
    by (auto simp: max d)
  from countVotes_isolates_fetch_failures [OF vd b, of ?cfg flakyScores]
  have "(1 \<le> (3::int) \<and> 3 \<le> vc_maxRetries ?cfg \<and>
            (\<forall>a \<in> {1..<3}. \<forall>s'. flakyScores ''t1_b'' a \<noteq> Comment s') \<and>
            flakyScores ''t1_b'' 3 = Comment (Some 3)) \<longrightarrow>
         getCommentUpvotes ?cfg flakyScores ''t1_b'' =
           (Inr (case Some 3 of None \<Rightarrow> 0 | Some n \<Rightarrow> n), backoffDelays 1 (3 - 1)) \<and>
         \<lparr>choiceId = ''B'', commentId = ''t1_b'',
          upvotes = (case Some 3 of None \<Rightarrow> 0 | Some n \<Rightarrow> n)\<rparr>
           \<in> set (fst (countVotes ?cfg flakyScores 1 demoRedis))"
    by blast
  with fb have rb: "getCommentUpvotes ?cfg flakyScores ''t1_b'' = (Inr 3, [1000, 2000])"
    "\<lparr>choiceId = ''B'', commentId = ''t1_b'', upvotes = 3\<rparr>
       \<in> set (fst (countVotes ?cfg flakyScores 1 demoRedis))"
    by (simp_all add: d)
  have msg: "fst (getCommentUpvotes ?cfg flakyScores ''t1_a'') =
               Inl ''Failed to get comment upvotes: rate limited''"
    by (simp add: getCommentUpvotes_def max flakyScores_def upto.simps)
  with ra(2) have "getCommentUpvotes ?cfg flakyScores ''t1_a'' =
     (Inl ''Failed to get comment upvotes: rate limited'', [1000, 2000])"
    by auto
  with vd max ra rb show ?thesis by simp
qed

subsection \<open>Retrying an advancement\<close>

text \<open>
  The record of the retry loop: the attempts are numbered from \<open>k\<close> on; the entry of an
  attempt tells what \<^verbatim>\<open>executeRoundAdvancement\<close> did in the state the attempts before
  it left; an attempt that did not succeed is followed by the delay and by another
  attempt as long as its number is below \<^verbatim>\<open>maxRetries\<close>; the result is the one of the
  attempt that succeeded, or else reports the message of the last attempt.
\<close>

lemma loop_log:
  assumes "advancement_loop cfg vcfg envs rn lastE [k..m] w = (result, w', lg)"
    and "m = maxRetries cfg"
  shows "(\<forall>i < length lg.
           attempt_no (lg ! i) = k + int i \<and> attempt_no (lg ! i) \<le> maxRetries cfg \<and>
           attempt_end (lg ! i) =
             attemptEnd (fst (executeRoundAdvancement cfg vcfg (envs (k + int i)) rn
                                (attemptState cfg vcfg envs rn k w i))) \<and>
           waited (lg ! i) =
             (if attempt_end (lg ! i) \<noteq> Succeeded \<and> attempt_no (lg ! i) < maxRetries cfg
              then Some (retryDelayMs cfg) else None) \<and>
           (i + 1 < length lg \<longleftrightarrow>
              attempt_end (lg ! i) \<noteq> Succeeded \<and> attempt_no (lg ! i) < maxRetries cfg)) \<and>
         w' = attemptState cfg vcfg envs rn k w (length lg) \<and>
         (lg = [] \<longleftrightarrow> m < k) \<and>
         (success result \<longleftrightarrow> lg \<noteq> [] \<and> attempt_end (last lg) = Succeeded) \<and>
         (success result \<longrightarrow>
            fst (executeRoundAdvancement cfg vcfg (envs (k + int (length lg - 1))) rn
                   (attemptState cfg vcfg envs rn k w (length lg - 1))) = Inr result) \<and>
         (lg \<noteq> [] \<and> \<not> success result \<longrightarrow>
            result = failedWith (''All '' @ show_int (maxRetries cfg) @
                       '' attempts failed. Last error: '' @
                       (if endMessage (attempt_end (last lg)) = [] then ''Unknown error''
                        else endMessage (attempt_end (last lg)))))"
  using assms
proof (induction k m arbitrary: lastE w result w' lg rule: upto.induct)
  case (1 k m)
  show ?case
  proof (cases "k \<le> m")
    case False
    then have "[k..m] = []" by simp
    with "1.prems" have "lg = []" "w' = w" "\<not> success result"
      by (auto simp: failedWith_def)
    with False show ?thesis by simp
  next
    case True
    then have split: "[k..m] = k # [k + 1..m]" by (simp add: upto_rec1)
    obtain res w1 where ex: "executeRoundAdvancement cfg vcfg (envs k) rn w = (res, w1)"
      by (cases "executeRoundAdvancement cfg vcfg (envs k) rn w")
    show ?thesis
    proof (cases "\<exists>r. res = Inr r \<and> success r")
      case True
      then obtain r where r: "res = Inr r" "success r" by blast
      with "1.prems" ex split have
        "result = r" "w' = w1"
        "lg = [\<lparr>attempt_no = k, attempt_end = Succeeded, waited = None\<rparr>]"
        by auto
      with r \<open>k \<le> m\<close> "1.prems"(2) ex show ?thesis by (simp add: attemptEnd_def)
    next
      case False
      define msg where "msg = (case res of Inl m \<Rightarrow> m
                                | Inr r \<Rightarrow> (case error r of None \<Rightarrow> ''Round advancement failed''
                                            | Some m \<Rightarrow> if m = [] then ''Round advancement failed'' else m))"
      define ending where "ending = (case res of Inl m \<Rightarrow> Threw m | Inr r \<Rightarrow> ReturnedFailure msg)"
      obtain result2 w2 lg2 where
        rest: "advancement_loop cfg vcfg envs rn (Some msg) [k + 1..m] w1 = (result2, w2, lg2)"
        by (cases "advancement_loop cfg vcfg envs rn (Some msg) [k + 1..m] w1") auto
      from False "1.prems"(1) ex split rest have
        res: "result = result2" "w' = w2"
        and lg: "lg = \<lparr>attempt_no = k, attempt_end = ending,
                          waited = (if k < maxRetries cfg then Some (retryDelayMs cfg) else None)\<rparr> # lg2"
        by (auto simp: msg_def ending_def Let_def split: sum.splits)
      have ending: "ending \<noteq> Succeeded"
        by (auto simp: ending_def split: sum.splits)
      have ending_is: "ending = attemptEnd res"
        using False by (auto simp: ending_def msg_def attemptEnd_def split: sum.splits)
      have ending_msg: "endMessage ending = msg"
        by (auto simp: ending_def msg_def split: sum.splits)
      have w1: "w1 = snd (executeRoundAdvancement cfg vcfg (envs k) rn w)"
        using ex by simp
      note ih = "1.IH" [OF \<open>k \<le> m\<close> rest "1.prems"(2)]
      from ih have
        ih1: "\<forall>i < length lg2.
           attempt_no (lg2 ! i) = k + 1 + int i \<and> attempt_no (lg2 ! i) \<le> maxRetries cfg \<and>
           attempt_end (lg2 ! i) =
             attemptEnd (fst (executeRoundAdvancement cfg vcfg (envs (k + 1 + int i)) rn
                                (attemptState cfg vcfg envs rn (k + 1) w1 i))) \<and>
           waited (lg2 ! i) =
             (if attempt_end (lg2 ! i) \<noteq> Succeeded \<and> attempt_no (lg2 ! i) < maxRetries cfg
              then Some (retryDelayMs cfg) else None) \<and>
           (i + 1 < length lg2 \<longleftrightarrow>
              attempt_end (lg2 ! i) \<noteq> Succeeded \<and> attempt_no (lg2 ! i) < maxRetries cfg)"
        and ih2: "w2 = attemptState cfg vcfg envs rn (k + 1) w1 (length lg2)"
        and ih3: "lg2 = [] \<longleftrightarrow> m < k + 1"
        and ih4: "success result2 \<longleftrightarrow> lg2 \<noteq> [] \<and> attempt_end (last lg2) = Succeeded"
        and ih5: "success result2 \<longrightarrow>
            fst (executeRoundAdvancement cfg vcfg (envs (k + 1 + int (length lg2 - 1))) rn
                   (attemptState cfg vcfg envs rn (k + 1) w1 (length lg2 - 1))) = Inr result2"
        and ih6: "lg2 \<noteq> [] \<and> \<not> success result2 \<longrightarrow>
            result2 = failedWith (''All '' @ show_int (maxRetries cfg) @
                       '' attempts failed. Last error: '' @
                       (if endMessage (attempt_end (last lg2)) = [] then ''Unknown error''
                        else endMessage (attempt_end (last lg2))))"
        by blast+
      have more: "lg2 \<noteq> [] \<longleftrightarrow> k < maxRetries cfg"
        using ih3 "1.prems"(2) by auto
      have entries: "attempt_no (lg ! i) = k + int i \<and> attempt_no (lg ! i) \<le> maxRetries cfg \<and>
           attempt_end (lg ! i) =
             attemptEnd (fst (executeRoundAdvancement cfg vcfg (envs (k + int i)) rn
                                (attemptState cfg vcfg envs rn k w i))) \<and>
           waited (lg ! i) =
             (if attempt_end (lg ! i) \<noteq> Succeeded \<and> attempt_no (lg ! i) < maxRetries cfg
              then Some (retryDelayMs cfg) else None) \<and>
           (i + 1 < length lg \<longleftrightarrow>
              attempt_end (lg ! i) \<noteq> Succeeded \<and> attempt_no (lg ! i) < maxRetries cfg)"
        if "i < length lg" for i
      proof (cases i)
        case 0
        with lg ending ending_is ex more \<open>k \<le> m\<close> "1.prems"(2) show ?thesis by auto
      next
        case (Suc j)
        with that lg have j: "j < length lg2" by simp
        have "k + 1 + int j = k + int (Suc j)" by simp
        with ih1 [rule_format, OF j] Suc lg w1 show ?thesis by simp
      qed
      have state: "w' = attemptState cfg vcfg envs rn k w (length lg)"
        using res(2) ih2 lg w1 by simp
      have verdict: "success result \<longleftrightarrow> lg \<noteq> [] \<and> attempt_end (last lg) = Succeeded"
        using res(1) lg ih4 ending by auto
      have won: "fst (executeRoundAdvancement cfg vcfg (envs (k + int (length lg - 1))) rn
                   (attemptState cfg vcfg envs rn k w (length lg - 1))) = Inr result"
        if "success result"
      proof -
        from that res(1) ih4 have ne: "lg2 \<noteq> []" by simp
        then obtain n where n: "length lg2 = Suc n" by (cases lg2) auto
        from that res(1) ih5 have
          "fst (executeRoundAdvancement cfg vcfg (envs (k + 1 + int (length lg2 - 1))) rn
                   (attemptState cfg vcfg envs rn (k + 1) w1 (length lg2 - 1))) = Inr result"
          by simp
        with n lg w1 show ?thesis by (simp add: add.assoc)
      qed
      have lost: "result = failedWith (''All '' @ show_int (maxRetries cfg) @
                       '' attempts failed. Last error: '' @
                       (if endMessage (attempt_end (last lg)) = [] then ''Unknown error''
                        else endMessage (attempt_end (last lg))))"
        if "\<not> success result"
      proof (cases "lg2 = []")
        case False
        with that res(1) ih6 lg show ?thesis by simp
      next
        case True
        with ih3 have "[k + 1..m] = []" by simp
        with rest have "result2 = failedWith (''All '' @ show_int (maxRetries cfg) @
                       '' attempts failed. Last error: '' @
                       (if msg = [] then ''Unknown error'' else msg))"
          by simp
        with True res(1) lg ending_msg show ?thesis by simp
      qed
      have started: "lg = [] \<longleftrightarrow> m < k"
        using lg \<open>k \<le> m\<close> by simp
      from entries state verdict won lost started show ?thesis by blast
    qed
  qed
qed

lemma execute_no_votes:
  assumes "getVoteData rn (redis w) = None"
  shows "executeRoundAdvancement cfg vcfg env rn w =
           (Inr (failedWith ''No winning choice could be determined''), w)"
  using assms
  by (simp add: executeRoundAdvancement_def getWinningChoice_def countVotes_def winnerOf_def)

lemma loop_no_votes:
  assumes "getVoteData rn (redis w) = None"
  shows "\<exists>result. advancement_loop cfg vcfg envs rn lastE atts w =
           (result, w,
            map (\<lambda>a. \<lparr>attempt_no = a,
                       attempt_end = ReturnedFailure ''No winning choice could be determined'',
                       waited = (if a < maxRetries cfg then Some (retryDelayMs cfg) else None)\<rparr>)
              atts)"
proof (induction atts arbitrary: lastE)
  case Nil
  show ?case by simp
next
  case (Cons a atts)
  from Cons [of "Some ''No winning choice could be determined''"] show ?case
    by (auto simp: execute_no_votes [OF assms] failedWith_def Let_def)
qed

text \<open>
  C3, amended. A firing makes no attempt at all, leaves the state as it is and reports a
  failure in two cases, both decided before the loop: the game state is missing or
  inactive, or the job carries a round number other than the current one. In every other
  case it makes the attempts \<open>1, 2, \<dots>\<close> up to at most \<^verbatim>\<open>maxRetries\<close> (3 by default),
  each starting in the state the one before left. The record of an attempt is what
  \<^verbatim>\<open>executeRoundAdvancement\<close> did: after every attempt that did not succeed, whether it
  threw or returned an unsuccessful result, the handler waits \<^verbatim>\<open>retryDelayMs\<close> (5000
  by default) and tries again, unless that was the attempt number \<^verbatim>\<open>maxRetries\<close>; an
  attempt that succeeds ends the loop and its result is the result of the firing;
  otherwise the firing fails with the message of the last attempt. In particular the
  outcome "no winning choice" is retried: with no vote data for the round every one of
  the \<^verbatim>\<open>maxRetries\<close> attempts is made and ends so, and the state is left as it was.
\<close>

theorem handleRoundAdvancement_retries:
  assumes "handleRoundAdvancement cfg vcfg envs event w = (result, w', lg)"
  shows "(gameInactive w \<or> roundMismatch event w \<longrightarrow> lg = [] \<and> w' = w \<and> \<not> success result) \<and>
         (\<not> gameInactive w \<and> \<not> roundMismatch event w \<longrightarrow> (lg = [] \<longleftrightarrow> maxRetries cfg < 1)) \<and>
         (\<forall>i < length lg.
            attempt_no (lg ! i) = 1 + int i \<and> attempt_no (lg ! i) \<le> maxRetries cfg \<and>
            attempt_end (lg ! i) =
              attemptEnd (fst (executeRoundAdvancement cfg vcfg (envs (1 + int i)) (currentRound w)
                                 (attemptState cfg vcfg envs (currentRound w) 1 w i))) \<and>
            waited (lg ! i) =
              (if attempt_end (lg ! i) \<noteq> Succeeded \<and> attempt_no (lg ! i) < maxRetries cfg
               then Some (retryDelayMs cfg) else None) \<and>
            (i + 1 < length lg \<longleftrightarrow>
               attempt_end (lg ! i) \<noteq> Succeeded \<and> attempt_no (lg ! i) < maxRetries cfg)) \<and>
         w' = attemptState cfg vcfg envs (currentRound w) 1 w (length lg) \<and>
         (success result \<longleftrightarrow> lg \<noteq> [] \<and> attempt_end (last lg) = Succeeded) \<and>
         (success result \<longrightarrow>
            fst (executeRoundAdvancement cfg vcfg (envs (1 + int (length lg - 1))) (currentRound w)
                   (attemptState cfg vcfg envs (currentRound w) 1 w (length lg - 1))) = Inr result) \<and>
         (lg \<noteq> [] \<and> \<not> success result \<longrightarrow>
            result = failedWith (''All '' @ show_int (maxRetries cfg) @
                       '' attempts failed. Last error: '' @
                       (if endMessage (attempt_end (last lg)) = [] then ''Unknown error''
                        else endMessage (attempt_end (last lg))))) \<and>
         (\<not> gameInactive w \<and> \<not> roundMismatch event w \<and>
          getVoteData (currentRound w) (redis w) = None \<longrightarrow>
            w' = w \<and>
            map attempt_end lg =
              replicate (nat (maxRetries cfg))
                (ReturnedFailure ''No winning choice could be determined''))"
proof (cases "gameInactive w \<or> roundMismatch event w")
  case True
  with assms have "lg = []" "w' = w" "\<not> success result"
    by (auto simp: handleRoundAdvancement_def gameInactive_def roundMismatch_def Let_def
          failedWith_def split: option.splits if_splits)
  with True show ?thesis by auto
next
  case False
  then obtain g where g: "getGameState (redis w) = Some g" "isActive g"
    by (auto simp: gameInactive_def split: option.splits)
  with False have ev: "ev_roundNumber event = None \<or> ev_roundNumber event = Some (roundNumber g) \<or>
       (\<exists>n. ev_roundNumber event = Some n \<and> n \<le> 0)"
    by (cases "ev_roundNumber event") (auto simp: roundMismatch_def)
  have cr: "currentRound w = roundNumber g"
    using g by (simp add: currentRound_def)
  from g ev assms have run:
    "advancement_loop cfg vcfg envs (currentRound w) None [1..maxRetries cfg] w = (result, w', lg)"
    by (auto simp: handleRoundAdvancement_def cr Let_def split: option.splits if_splits)
  note shape = loop_log [OF run refl]
  have "w' = w \<and> map attempt_end lg =
          replicate (nat (maxRetries cfg)) (ReturnedFailure ''No winning choice could be determined'')"
    if "getVoteData (currentRound w) (redis w) = None"
  proof -
    from loop_no_votes [OF that, of cfg vcfg envs None "[1..maxRetries cfg]"] run
    have "w' = w" and "map attempt_end lg =
        map (\<lambda>a. ReturnedFailure ''No winning choice could be determined'') [1..maxRetries cfg]"
      by (auto simp: comp_def)
    then show ?thesis
      by (simp add: map_replicate_const)
  qed
  with False shape show ?thesis by blast
qed


text \<open>
  The definitions that the evaluation of a firing of the demo game unfolds.
\<close>

lemmas firing =
  handleRoundAdvancement_def executeRoundAdvancement_def publishNextRound_def
  getWinningChoice_def countVotes_def getVoteData_def getCommentUpvotes_def winnerOf_def
  onStoryEngine_def onPostManager_def advanceStoryByChoice_def getCurrentNode_def
  lookupNode_def loadCurrentStory_def getStoryData_def getGameState_def setGameState_def
  pushToPath_def getConfiguration_def createStoryRoundPost_def postFailed_def postCreated_def
  storeChoiceCommentMapping_def setVoteData_def scheduleNextRound_def navigateToNode_def
  failedWith_def succeeded_def defaultSchedulerConfig_def defaultVoteCounterConfig_def
  publishFailsEnv_def demoWorld_def demoRedis_def demoStory_def demoGame_def demoScores_def
  always_def upto.simps Let_def

theorem handleRoundAdvancement_retries_witness:
  "gameInactive idleWorld \<and>
   snd (snd (handleRoundAdvancement defaultSchedulerConfig defaultVoteCounterConfig
               (always publishFailsEnv) \<lparr>ev_roundNumber = None\<rparr> idleWorld)) = [] \<and>
   roundMismatch \<lparr>ev_roundNumber = Some 7\<rparr> demoWorld \<and>
   snd (handleRoundAdvancement defaultSchedulerConfig defaultVoteCounterConfig
          (always publishFailsEnv) \<lparr>ev_roundNumber = Some 7\<rparr> demoWorld) = (demoWorld, []) \<and>
   (\<exists>result lg.
      handleRoundAdvancement defaultSchedulerConfig defaultVoteCounterConfig
        (always publishFailsEnv) \<lparr>ev_roundNumber = Some 1\<rparr> noVotesWorld =
        (result, noVotesWorld, lg) \<and>
      \<not> success result \<and>
      map attempt_end lg = replicate 3 (ReturnedFailure ''No winning choice could be determined'') \<and>
      attempt_no (lg ! 0) = 1 \<and> waited (lg ! 0) = Some 5000 \<and>
      attempt_no (lg ! 2) = 3 \<and> waited (lg ! 2) = None) \<and>
   (\<exists>result w' lg.
      handleRoundAdvancement defaultSchedulerConfig defaultVoteCounterConfig
        (always publishFailsEnv) \<lparr>ev_roundNumber = Some 1\<rparr> demoWorld = (result, w', lg) \<and>
      map attempt_end lg =
        [Threw ''Failed to create next round post: Post creation failed: Reddit post creation failed: Reddit is down'',
         Threw ''Story advancement failed: Choice A not found in current node nodeX'',
         Threw ''Story advancement failed: Choice A not found in current node nodeX''] \<and>
      map waited lg = [Some 5000, Some 5000, None] \<and>
      result = failedWith ''All 3 attempts failed. Last error: Story advancement failed: Choice A not found in current node nodeX'') \<and>
   (\<exists>result w' lg.
      handleRoundAdvancement defaultSchedulerConfig defaultVoteCounterConfig
        secondTry \<lparr>ev_roundNumber = Some 1\<rparr> demoWorld = (result, w', lg) \<and>
      map attempt_end lg = [ReturnedFailure ''No winning choice could be determined'', Succeeded] \<and>
      map waited lg = [Some 5000, None] \<and>
      success result \<and>
      fst (executeRoundAdvancement defaultSchedulerConfig defaultVoteCounterConfig (secondTry 2) 1
             demoWorld) = Inr result)"
proof -
  let ?cfg = defaultSchedulerConfig
  let ?h = "handleRoundAdvancement ?cfg defaultVoteCounterConfig"
  let ?nw = "ReturnedFailure ''No winning choice could be determined''"
  have cfg: "maxRetries ?cfg = 3" "retryDelayMs ?cfg = 5000"
    by (simp_all add: defaultSchedulerConfig_def)
  obtain result0 w0 lg0 where
    idle: "?h (always publishFailsEnv) \<lparr>ev_roundNumber = None\<rparr> idleWorld = (result0, w0, lg0)"
    by (cases "?h (always publishFailsEnv) \<lparr>ev_roundNumber = None\<rparr> idleWorld") auto
  have inactive: "gameInactive idleWorld"
    by (simp add: gameInactive_def getGameState_def idleWorld_def emptyRedis_def)
  with handleRoundAdvancement_retries [OF idle, THEN conjunct1] have "lg0 = []" by blast
  with idle have a: "snd (snd (?h (always publishFailsEnv) \<lparr>ev_roundNumber = None\<rparr> idleWorld)) = []"
    by simp
  obtain result7 w7 lg7 where
    other: "?h (always publishFailsEnv) \<lparr>ev_roundNumber = Some 7\<rparr> demoWorld = (result7, w7, lg7)"
    by (cases "?h (always publishFailsEnv) \<lparr>ev_roundNumber = Some 7\<rparr> demoWorld") auto
  have mismatch: "roundMismatch \<lparr>ev_roundNumber = Some 7\<rparr> demoWorld"
    by (simp add: roundMismatch_def getGameState_def demoWorld_def demoRedis_def demoGame_def)
  with handleRoundAdvancement_retries [OF other, THEN conjunct1] have "lg7 = []" "w7 = demoWorld"
    by blast+
  with other have b: "snd (?h (always publishFailsEnv) \<lparr>ev_roundNumber = Some 7\<rparr> demoWorld) =
                      (demoWorld, [])"
    by simp
  obtain result w' lg where
    run: "?h (always publishFailsEnv) \<lparr>ev_roundNumber = Some 1\<rparr> noVotesWorld = (result, w', lg)"
    by (cases "?h (always publishFailsEnv) \<lparr>ev_roundNumber = Some 1\<rparr> noVotesWorld") auto
  have state: "\<not> gameInactive noVotesWorld \<and>
      \<not> roundMismatch \<lparr>ev_roundNumber = Some 1\<rparr> noVotesWorld \<and>
      getVoteData (currentRound noVotesWorld) (redis noVotesWorld) = None"
    by (simp add: gameInactive_def roundMismatch_def currentRound_def getGameState_def
          getVoteData_def noVotesWorld_def demoWorld_def demoRedis_def demoGame_def)
  note th = handleRoundAdvancement_retries [OF run]
  note shape = th [THEN conjunct2, THEN conjunct2, THEN conjunct1, rule_format]
  note verdict = th [THEN conjunct2, THEN conjunct2, THEN conjunct2, THEN conjunct2, THEN conjunct1]
  note novotes = th [THEN conjunct2, THEN conjunct2, THEN conjunct2, THEN conjunct2,
                     THEN conjunct2, THEN conjunct2, THEN conjunct2, rule_format, OF state]
  from novotes have same: "w' = noVotesWorld"
    and ends: "map attempt_end lg = replicate 3 ?nw"
    by (simp_all add: cfg)
  from arg_cong [OF ends, of length] have len: "length lg = 3"
    by simp
  have e0: "attempt_end (lg ! 0) = ?nw"
    using arg_cong [OF ends, of "\<lambda>xs. xs ! 0"] len by (simp add: nth_map)
  have e2: "attempt_end (lg ! 2) = ?nw"
    using arg_cong [OF ends, of "\<lambda>xs. xs ! 2"] len by (simp add: nth_map)
  have "(0::nat) < length lg" using len by simp
  from shape [OF this] e0 have i0: "attempt_no (lg ! 0) = 1" "waited (lg ! 0) = Some 5000"
    by (simp_all add: cfg)
  have "(2::nat) < length lg" using len by simp
  from shape [OF this] e2 have i2: "attempt_no (lg ! 2) = 3" "waited (lg ! 2) = None"
    by (simp_all add: cfg)
  have "lg \<noteq> []" using len by auto
  then have "last lg = lg ! 2" using len by (simp add: last_conv_nth)
  with verdict e2 have fail: "\<not> success result" by simp
  from run same fail ends i0 i2 have c: "\<exists>result lg.
      ?h (always publishFailsEnv) \<lparr>ev_roundNumber = Some 1\<rparr> noVotesWorld =
        (result, noVotesWorld, lg) \<and>
      \<not> success result \<and> map attempt_end lg = replicate 3 ?nw \<and>
      attempt_no (lg ! 0) = 1 \<and> waited (lg ! 0) = Some 5000 \<and>
      attempt_no (lg ! 2) = 3 \<and> waited (lg ! 2) = None"
    by blast
  obtain resultT wT lgT where
    thrown: "?h (always publishFailsEnv) \<lparr>ev_roundNumber = Some 1\<rparr> demoWorld = (resultT, wT, lgT)"
    by (cases "?h (always publishFailsEnv) \<lparr>ev_roundNumber = Some 1\<rparr> demoWorld") auto
  have "map attempt_end
     (snd (snd (?h (always publishFailsEnv) \<lparr>ev_roundNumber = Some 1\<rparr> demoWorld))) =
     [Threw ''Failed to create next round post: Post creation failed: Reddit post creation failed: Reddit is down'',
      Threw ''Story advancement failed: Choice A not found in current node nodeX'',
      Threw ''Story advancement failed: Choice A not found in current node nodeX'']"
    by (simp add: firing)
  with thrown have endsT: "map attempt_end lgT =
     [Threw ''Failed to create next round post: Post creation failed: Reddit post creation failed: Reddit is down'',
      Threw ''Story advancement failed: Choice A not found in current node nodeX'',
      Threw ''Story advancement failed: Choice A not found in current node nodeX'']"
    by simp
  from arg_cong [OF endsT, of length] have lenT: "length lgT = 3" by simp
  then obtain x0 x1 x2 where lgT: "lgT = [x0, x1, x2]"
    by (cases lgT; cases "tl lgT"; cases "tl (tl lgT)") auto
  with endsT have xs: "attempt_end x0 \<noteq> Succeeded" "attempt_end x1 \<noteq> Succeeded"
    "attempt_end x2 = Threw ''Story advancement failed: Choice A not found in current node nodeX''"
    by auto
  note thT = handleRoundAdvancement_retries [OF thrown]
  note shapeT = thT [THEN conjunct2, THEN conjunct2, THEN conjunct1, rule_format]
  from shapeT [of 0] shapeT [of 1] shapeT [of 2] lgT xs have waitedT:
    "map waited lgT = [Some 5000, Some 5000, None]"
    by (simp add: cfg)
  have "\<not> success resultT"
    using thT [THEN conjunct2, THEN conjunct2, THEN conjunct2, THEN conjunct2, THEN conjunct1]
      lgT xs by simp
  with thT [THEN conjunct2, THEN conjunct2, THEN conjunct2, THEN conjunct2, THEN conjunct2,
            THEN conjunct2, THEN conjunct1] lgT xs
  have "resultT = failedWith ''All 3 attempts failed. Last error: Story advancement failed: Choice A not found in current node nodeX''"
    by (simp add: cfg show_int_def show_nat.simps)
  then have d: "\<exists>result w' lg.
      ?h (always publishFailsEnv) \<lparr>ev_roundNumber = Some 1\<rparr> demoWorld = (result, w', lg) \<and>
      map attempt_end lg =
        [Threw ''Failed to create next round post: Post creation failed: Reddit post creation failed: Reddit is down'',
         Threw ''Story advancement failed: Choice A not found in current node nodeX'',
         Threw ''Story advancement failed: Choice A not found in current node nodeX''] \<and>
      map waited lg = [Some 5000, Some 5000, None] \<and>
      result = failedWith ''All 3 attempts failed. Last error: Story advancement failed: Choice A not found in current node nodeX''"
    using thrown endsT waitedT by (intro exI conjI) assumption+
  obtain resultS wS lgS where
    second: "?h secondTry \<lparr>ev_roundNumber = Some 1\<rparr> demoWorld = (resultS, wS, lgS)"
    by (cases "?h secondTry \<lparr>ev_roundNumber = Some 1\<rparr> demoWorld") auto
  have "map attempt_end (snd (snd (?h secondTry \<lparr>ev_roundNumber = Some 1\<rparr> demoWorld))) =
     [?nw, Succeeded]"
    by (simp add: firing secondTry_def okEnv_def coldScores_def)
  with second have endsS: "map attempt_end lgS = [?nw, Succeeded]" by simp
  from arg_cong [OF endsS, of length] have lenS: "length lgS = 2" by simp
  then obtain y0 y1 where lgS: "lgS = [y0, y1]"
    by (cases lgS; cases "tl lgS") auto
  with endsS have ys: "attempt_end y0 = ?nw" "attempt_end y1 = Succeeded" by auto
  note thS = handleRoundAdvancement_retries [OF second]
  note shapeS = thS [THEN conjunct2, THEN conjunct2, THEN conjunct1, rule_format]
  from shapeS [of 0] shapeS [of 1] lgS ys have waitedS: "map waited lgS = [Some 5000, None]"
    by (simp add: cfg)
  have won: "success resultS"
    using thS [THEN conjunct2, THEN conjunct2, THEN conjunct2, THEN conjunct2, THEN conjunct1]
      lgS ys by simp
  have cr: "currentRound demoWorld = 1"
    by (simp add: currentRound_def getGameState_def demoWorld_def demoRedis_def demoGame_def)
  have first: "snd (executeRoundAdvancement ?cfg defaultVoteCounterConfig (secondTry 1) 1 demoWorld)
               = demoWorld"
    by (simp add: firing secondTry_def okEnv_def coldScores_def)
  from thS [THEN conjunct2, THEN conjunct2, THEN conjunct2, THEN conjunct2, THEN conjunct2,
            THEN conjunct1] won lenS
  have "fst (executeRoundAdvancement ?cfg defaultVoteCounterConfig (secondTry 2) 1 demoWorld) =
        Inr resultS"
    by (simp add: cr first)
  then have e: "\<exists>result w' lg.
      ?h secondTry \<lparr>ev_roundNumber = Some 1\<rparr> demoWorld = (result, w', lg) \<and>
      map attempt_end lg = [?nw, Succeeded] \<and> map waited lg = [Some 5000, None] \<and>
      success result \<and>
      fst (executeRoundAdvancement ?cfg defaultVoteCounterConfig (secondTry 2) 1 demoWorld) =
        Inr result"
    using second endsS waitedS won by (intro exI conjI) assumption+
  from inactive a mismatch b c d e show ?thesis by (intro conjI) assumption+
qed

text \<open>
  C3 as stated (the "no winner" exit is never retried) fails: a firing for round 1 of the
  demo game without vote data runs all three attempts, each returning "no winning
  choice", with the delay of 5000 ms after the first and the second.
\<close>

theorem no_winner_is_retried_counterexample:
  "map attempt_end
     (snd (snd (handleRoundAdvancement defaultSchedulerConfig defaultVoteCounterConfig
                  (always publishFailsEnv) \<lparr>ev_roundNumber = Some 1\<rparr> noVotesWorld))) =
     [ReturnedFailure ''No winning choice could be determined'',
      ReturnedFailure ''No winning choice could be determined'',
      ReturnedFailure ''No winning choice could be determined''] \<and>
   map waited
     (snd (snd (handleRoundAdvancement defaultSchedulerConfig defaultVoteCounterConfig
                  (always publishFailsEnv) \<lparr>ev_roundNumber = Some 1\<rparr> noVotesWorld))) =
     [Some 5000, Some 5000, None]"
  by (simp add: handleRoundAdvancement_def executeRoundAdvancement_def getWinningChoice_def
        countVotes_def getVoteData_def winnerOf_def getGameState_def failedWith_def
        defaultSchedulerConfig_def noVotesWorld_def demoWorld_def demoRedis_def demoGame_def
        upto.simps Let_def)

subsection \<open>A failed publication\<close>

text \<open>
  C1. When publishing the next round fails, the persisted game state after the firing is
  the state from before the firing. It is not: \<^verbatim>\<open>gameStateBeforePost\<close> is read after
  \<^verbatim>\<open>advanceStoryByChoice\<close> has stored the advanced state, so the "rollback" writes
  the advanced state back. In the demo game, with \<open>A\<close> winning round 1 and Reddit
  refusing the post, the attempt throws and leaves the game at round 2 on \<open>nodeX\<close>.
\<close>

theorem publish_failure_leaves_round_advanced:
  "getGameState (redis demoWorld) =
     Some \<lparr>currentNodeId = ''start'', roundNumber = 1, storyPath = [''start''],
           isActive = True, roundStartTime = 1000, roundDurationHours = 24,
           testMode = Some False\<rparr> \<and>
   fst (executeRoundAdvancement defaultSchedulerConfig defaultVoteCounterConfig
          publishFailsEnv 1 demoWorld) =
     Inl ''Failed to create next round post: Post creation failed: Reddit post creation failed: Reddit is down'' \<and>
   getGameState (redis (snd (executeRoundAdvancement defaultSchedulerConfig
                               defaultVoteCounterConfig publishFailsEnv 1 demoWorld))) =
     Some \<lparr>currentNodeId = ''nodeX'', roundNumber = 2, storyPath = [''start'', ''nodeX''],
           isActive = True, roundStartTime = 86401000, roundDurationHours = 24,
           testMode = Some False\<rparr>"
  by (simp add: executeRoundAdvancement_def publishNextRound_def getWinningChoice_def
        countVotes_def getVoteData_def getCommentUpvotes_def winnerOf_def onStoryEngine_def
        onPostManager_def advanceStoryByChoice_def getCurrentNode_def lookupNode_def loadCurrentStory_def
        getStoryData_def getGameState_def setGameState_def pushToPath_def getConfiguration_def
        createStoryRoundPost_def postFailed_def navigateToNode_def
        defaultVoteCounterConfig_def publishFailsEnv_def demoWorld_def demoRedis_def
        demoStory_def demoGame_def demoScores_def upto.simps Let_def)

subsection \<open>Unreachable nodes\<close>

text \<open>
  The definitions that the evaluation of a validation of one of the example stories
  unfolds.
\<close>

lemmas validation =
  validateStoryStructure_def validateStoryNode_def validateChoice_def
  validateStoryReferences_def validateStoryJson_def nodesBlock_def
  validateStoryNode_settings_def choiceFindings_def findReachableNodes_def
  choiceTargets_def jsChoice_def jsEndNode_def getp_def getv_def objKeys_def
  notAString_def nullish_def fromObjectPrototype_def objectPrototypeMethods_def Let_def

text \<open>
  C6 as stated (a graph that passes the fatal checks but has unreachable nodes is still
  valid, the unreached ids being warnings only) fails for \<^verbatim>\<open>validateStoryJson\<close>,
  the validation every uploaded story goes through: it pushes the unreached ids to
  \<^verbatim>\<open>errors\<close>. The story \<open>orphanJson\<close> passes both validations of the story engine,
  which returns the id \<open>orphan\<close> as a warning, and is rejected by the settings handler.
\<close>

theorem unreachable_is_fatal_in_settings_counterexample:
  "validateStoryStructure orphanJson = Inr () \<and>
   validateStoryReferences orphanJson = Inr [''orphan''] \<and>
   validateStoryJson orphanJson =
     \<lparr>isValid = False, errors = [F_Unreachable [''orphan'']], warnings = []\<rparr>"
  by (simp add: validation orphanJson_def)

text \<open>
  What the structure validation of the story engine establishes, and that the loops
  after it do not throw.
\<close>

lemma validateChoice_ok:
  assumes "validateChoice choice nodeId i = Inr ()"
  shows "\<not> nullish choice \<and> typeof (getp choice ''nextNodeId'') = ''string''"
proof -
  from assms have "truthy choice" and "\<not> notAString (getp choice ''nextNodeId'')"
    by (simp_all add: validateChoice_def split: if_splits)
  then show ?thesis by (auto simp: nullish_def notAString_def)
qed

lemma validateChoices_nonnull:
  "validateChoices cs nodeId i = Inr () \<Longrightarrow>
     \<forall>choice \<in> set cs. \<not> nullish choice \<and> typeof (getp choice ''nextNodeId'') = ''string''"
proof (induction cs nodeId i rule: validateChoices.induct)
  case (1 nodeId i)
  show ?case by simp
next
  case (2 choice rest nodeId i)
  from "2.prems" have one: "validateChoice choice nodeId i = Inr ()"
    and others: "validateChoices rest nodeId (Suc i) = Inr ()"
    by (simp_all split: sum.splits)
  from validateChoice_ok [OF one] "2.IH" [OF one others] show ?case by simp
qed

lemma validateStoryNode_wellFormed:
  assumes "validateStoryNode node nodeId = Inr ()"
  shows "\<not> nullish node \<and>
         (truthy (getp node ''choices'') \<longrightarrow>
            (\<exists>cs. getp node ''choices'' = JArr cs \<and>
                  (\<forall>choice \<in> set cs. \<not> nullish choice \<and>
                                       typeof (getp choice ''nextNodeId'') = ''string'')))"
proof -
  from assms have n: "truthy node"
    by (auto simp: validateStoryNode_def split: if_splits)
  then have "\<not> nullish node" by (auto simp: nullish_def)
  moreover have "\<exists>cs. getp node ''choices'' = JArr cs \<and>
                  (\<forall>choice \<in> set cs. \<not> nullish choice \<and>
                                       typeof (getp choice ''nextNodeId'') = ''string'')"
    if "truthy (getp node ''choices'')"
  proof (cases "getp node ''choices''")
    case (JArr cs)
    with assms have "validateChoices cs nodeId 0 = Inr ()"
      by (auto simp: validateStoryNode_def split: if_splits sum.splits option.splits)
    with JArr show ?thesis using validateChoices_nonnull by blast
  qed (use assms that in \<open>auto simp: validateStoryNode_def split: if_splits option.splits\<close>)
  ultimately show ?thesis by blast
qed

lemma validateStoryNodes_each:
  "validateStoryNodes nodeMap ks = Inr () \<Longrightarrow> k \<in> set ks \<Longrightarrow>
     validateStoryNode (getp nodeMap k) k = Inr ()"
  by (induction ks) (auto split: sum.splits)

lemma structure_wellFormed:
  assumes "validateStoryStructure story = Inr ()"
  shows "nodesWellFormed (getp story ''nodes'')"
proof -
  from assms have "validateStoryNodes (getp story ''nodes'') (objKeys (getp story ''nodes'')) = Inr ()"
    by (auto simp: validateStoryStructure_def split: if_splits)
  then show ?thesis
    unfolding nodesWellFormed_def
    using validateStoryNodes_each validateStoryNode_wellFormed by blast
qed

lemma lookup_with_choices_is_key:
  assumes "truthy (getp (getp nodeMap k) ''choices'')"
  shows "k \<in> set (objKeys nodeMap)"
proof -
  from getp_cases [of nodeMap k] assms have "getp nodeMap k \<in> snd ` set (objEntries nodeMap)"
    by auto
  moreover have "map_of (objEntries nodeMap) k \<noteq> None"
  proof
    assume "map_of (objEntries nodeMap) k = None"
    then have "getp nodeMap k = beyondKeys nodeMap k" by (simp add: getp_def)
    moreover have "getp (beyondKeys nodeMap k) ''choices'' = JUndefined"
      by (cases nodeMap) (simp_all add: fromObjectPrototype_def)
    ultimately show False using assms by simp
  qed
  then obtain x where "map_of (objEntries nodeMap) k = Some x" by blast
  then have "(k, x) \<in> set (objEntries nodeMap)" by (rule map_of_SomeD)
  then show ?thesis by (force simp: objKeys_def)
qed

lemma wellFormed_targets:
  assumes "nodesWellFormed nodeMap" and "truthy (getp (getp nodeMap k) ''choices'')"
  shows "choiceTargets (getp (getp nodeMap k) ''choices'') = Some (targetsOf (getp nodeMap k)) \<and>
         (\<forall>target \<in> set (targetsOf (getp nodeMap k)). typeof target = ''string'')"
proof -
  from lookup_with_choices_is_key [OF assms(2)] assms obtain cs where
    "getp (getp nodeMap k) ''choices'' = JArr cs"
    "\<forall>choice \<in> set cs. \<not> nullish choice \<and> typeof (getp choice ''nextNodeId'') = ''string''"
    unfolding nodesWellFormed_def by blast
  then show ?thesis
    by (auto simp: targetsOf_def choiceTargets_def)
qed

lemma string_key: "typeof v = ''string'' \<Longrightarrow> \<exists>s. v = JStr s \<and> toKey v = Some s"
  by (cases v) (auto split: if_splits)

lemma resolves_found:
  "resolves nodeMap key \<Longrightarrow> \<exists>node. getv nodeMap key = Some node \<and> truthy node"
  by (auto simp: resolves_def split: option.splits)

lemma reach_loop_succeeds:
  assumes "nodesWellFormed nodeMap"
    and "\<forall>k \<in> set (objKeys nodeMap). \<forall>target \<in> set (targetsOf (getp nodeMap k)).
           resolves nodeMap target"
    and "\<forall>a \<in> set toVisit. resolves nodeMap a"
  shows "reach_loop False nodeMap reachable toVisit \<noteq> None"
  using assms
proof (induction False nodeMap reachable toVisit rule: reach_loop.induct)
  case (1 nodeMap reachable)
  show ?case by simp
next
  case (2 nodeMap reachable currentId toVisit)
  note wf = "2.prems"(1) and res = "2.prems"(2)
  from "2.prems"(3) have "resolves nodeMap currentId"
    and rest: "\<forall>a \<in> set toVisit. resolves nodeMap a"
    by auto
  from resolves_found [OF this(1)] obtain node where
    found: "getv nodeMap currentId = Some node" and node: "truthy node" by blast
  from node have nn: "\<not> nullish node" by (auto simp: nullish_def)
  from found obtain k where k: "node = getp nodeMap k" using getv_Some by blast
  show ?case
  proof (cases "currentId \<in> set reachable")
    case True
    with "2.hyps"(1) [OF True wf res rest] show ?thesis by simp
  next
    case False
    show ?thesis
    proof (cases "truthy (getp node ''choices'')")
      case no: False
      with "2.hyps"(4) [OF False found nn no wf res rest] False nn found show ?thesis
        by simp
    next
      case yes: True
      let ?ids = "targetsOf node"
      from wellFormed_targets [OF wf yes [unfolded k]] k have
        t: "choiceTargets (getp node ''choices'') = Some ?ids" by simp
      from lookup_with_choices_is_key [OF yes [unfolded k]] res k have
        "\<forall>target \<in> set ?ids. resolves nodeMap target" by blast
      with rest have
        "\<forall>a \<in> set (rev (filter (\<lambda>n. n \<notin> set (reachable @ [currentId])) ?ids) @ toVisit).
           resolves nodeMap a"
        by auto
      from "2.hyps"(3) [OF False found nn yes t wf res this] False nn yes t found show ?thesis
        by simp
    qed
  qed
qed

lemma closed_rtrancl:
  assumes "\<forall>a \<in> set R. E `` {a} \<subseteq> set R \<union> set S"
  shows "E\<^sup>* `` set R \<subseteq> set R \<union> E\<^sup>* `` set S"
proof
  fix x assume "x \<in> E\<^sup>* `` set R"
  then obtain a where a: "a \<in> set R" "(a, x) \<in> E\<^sup>*" by blast
  from a(2) a(1) show "x \<in> set R \<union> E\<^sup>* `` set S"
  proof (induction rule: rtrancl_induct)
    case base
    then show ?case by simp
  next
    case (step y z)
    from step.IH [OF step.prems] show ?case
    proof
      assume "y \<in> set R"
      with assms step.hyps(2) have "z \<in> set R \<union> set S" by blast
      then show ?thesis by blast
    next
      assume "y \<in> E\<^sup>* `` set S"
      with step.hyps(2) show ?thesis by (blast intro: rtrancl_into_rtrancl)
    qed
  qed
qed

lemma edges_of:
  "choiceEdges nodeMap `` {a} =
     (case getv nodeMap a of
        None \<Rightarrow> {}
      | Some node \<Rightarrow> if truthy (getp node ''choices'') then set (targetsOf node) else {})"
  by (auto simp: choiceEdges_def split: option.splits)

lemma rtrancl_image_insert: "E\<^sup>* `` insert a A = insert a (E\<^sup>* `` (E `` {a})) \<union> E\<^sup>* `` A"
proof -
  have "E\<^sup>* `` {a} = insert a (E\<^sup>* `` (E `` {a}))"
    by (auto intro: converse_rtrancl_into_rtrancl elim: converse_rtranclE)
  then show ?thesis by blast
qed

lemma getp_nullish: "nullish v \<Longrightarrow> getp v k = JUndefined"
  by (auto simp: nullish_def)

lemma reach_loop_correct:
  assumes "reach_loop guarded nodeMap R S = Some R'"
    and "\<forall>a \<in> set R. choiceEdges nodeMap `` {a} \<subseteq> set R \<union> set S"
  shows "set R' = set R \<union> (choiceEdges nodeMap)\<^sup>* `` set S"
  using assms
proof (induction guarded nodeMap R S rule: reach_loop.induct)
  case (1 guarded nodeMap R)
  then show ?case by simp
next
  case (2 guarded nodeMap R currentId toVisit)
  let ?E = "choiceEdges nodeMap"
  note closed = "2.prems"(2)
  show ?case
  proof (cases "currentId \<in> set R")
    case True
    with "2.prems"(1) have run: "reach_loop guarded nodeMap R toVisit = Some R'" by simp
    from closed True have closed': "\<forall>a \<in> set R. ?E `` {a} \<subseteq> set R \<union> set toVisit" by auto
    from "2.IH"(1) [OF True run closed'] have r: "set R' = set R \<union> ?E\<^sup>* `` set toVisit" .
    from closed_rtrancl [OF closed'] True have "?E\<^sup>* `` {currentId} \<subseteq> set R \<union> ?E\<^sup>* `` set toVisit"
      by blast
    with r show ?thesis by auto
  next
    case False
    let ?R1 = "R @ [currentId]"
    from "2.prems"(1) False obtain node where found: "getv nodeMap currentId = Some node"
      by (cases "getv nodeMap currentId") simp_all
    show ?thesis
    proof (cases "truthy (getp node ''choices'')")
      case no: False
      then have none: "?E `` {currentId} = {}" by (simp add: edges_of found)
      from "2.prems"(1) False no found have
        run: "reach_loop guarded nodeMap ?R1 toVisit = Some R'"
        by (simp split: if_splits)
      from closed none have closed': "\<forall>a \<in> set ?R1. ?E `` {a} \<subseteq> set ?R1 \<union> set toVisit"
        by auto
      have "set R' = set ?R1 \<union> ?E\<^sup>* `` set toVisit"
      proof (cases "nullish node")
        case True
        with run False found have g: guarded using "2.prems"(1) by (simp split: if_splits)
        from "2.IH"(2) [OF False found True g run closed'] show ?thesis .
      next
        case nn: False
        from "2.IH"(4) [OF False found nn no run closed'] show ?thesis .
      qed
      with none show ?thesis
        by (simp add: rtrancl_image_insert)
    next
      case yes: True
      then have nn: "\<not> nullish node" using getp_nullish [of node "''choices''"] by auto
      from "2.prems"(1) False nn yes found obtain ids where
        t: "choiceTargets (getp node ''choices'') = Some ids"
        and run: "reach_loop guarded nodeMap ?R1
                    (rev (filter (\<lambda>n. n \<notin> set ?R1) ids) @ toVisit) = Some R'"
        by (auto split: option.splits)
      let ?S1 = "rev (filter (\<lambda>n. n \<notin> set ?R1) ids) @ toVisit"
      from t have succ: "?E `` {currentId} = set ids"
        using yes by (simp add: edges_of found targetsOf_def)
      from closed succ have closed': "\<forall>a \<in> set ?R1. ?E `` {a} \<subseteq> set ?R1 \<union> set ?S1"
        by auto
      from "2.IH"(3) [OF False found nn yes t run closed'] have
        r: "set R' = set ?R1 \<union> ?E\<^sup>* `` set ?S1" .
      have "?E\<^sup>* `` set ids \<subseteq> set ?R1 \<union> ?E\<^sup>* `` set ?S1"
      proof
        fix x assume "x \<in> ?E\<^sup>* `` set ids"
        then obtain b where b: "b \<in> set ids" "(b, x) \<in> ?E\<^sup>*" by blast
        show "x \<in> set ?R1 \<union> ?E\<^sup>* `` set ?S1"
        proof (cases "b \<in> set ?R1")
          case True
          with b(2) have "x \<in> ?E\<^sup>* `` set ?R1" by blast
          with closed_rtrancl [OF closed'] show ?thesis by blast
        next
          case False
          with b(1) have "b \<in> set ?S1" by simp
          with b(2) show ?thesis by blast
        qed
      qed
      moreover have "?E\<^sup>* `` set ?S1 \<subseteq> ?E\<^sup>* `` set ids \<union> ?E\<^sup>* `` set toVisit"
        by auto
      ultimately have "set ?R1 \<union> ?E\<^sup>* `` set ?S1 =
          set R \<union> (insert currentId (?E\<^sup>* `` set ids) \<union> ?E\<^sup>* `` set toVisit)"
        by auto
      with r succ show ?thesis
        by (simp add: rtrancl_image_insert)
    qed
  qed
qed

lemma referencesOfChoices_ok:
  assumes "\<forall>choice \<in> set cs. \<not> nullish choice \<and> resolves nodeMap (getp choice ''nextNodeId'')"
  shows "referencesOfChoices nodeMap nodeId cs = Inr ()"
  using assms by (induction cs) (auto dest: resolves_found)

lemma referencesOfNodes_ok:
  assumes "nodesWellFormed nodeMap"
    and "\<forall>k \<in> set (objKeys nodeMap). \<forall>target \<in> set (targetsOf (getp nodeMap k)).
           resolves nodeMap target"
    and "set ks \<subseteq> set (objKeys nodeMap)"
  shows "referencesOfNodes nodeMap ks = Inr ()"
  using assms(3)
proof (induction ks)
  case Nil
  show ?case by simp
next
  case (Cons k ks)
  then have k: "k \<in> set (objKeys nodeMap)" and ih: "referencesOfNodes nodeMap ks = Inr ()"
    by auto
  let ?node = "getp nodeMap k"
  from assms(1) k have nn: "\<not> nullish ?node"
    unfolding nodesWellFormed_def by blast
  have "(if truthy (getp ?node ''choices'')
         then (case iterate (getp ?node ''choices'') of
                 None \<Rightarrow> Inl E_TypeError
               | Some cs \<Rightarrow> referencesOfChoices nodeMap k cs)
         else Inr ()) = Inr ()"
  proof (cases "truthy (getp ?node ''choices'')")
    case True
    with assms(1) k obtain cs where
      cs: "getp ?node ''choices'' = JArr cs" "\<forall>choice \<in> set cs. \<not> nullish choice"
      unfolding nodesWellFormed_def by blast
    then have "targetsOf ?node = map (\<lambda>choice. getp choice ''nextNodeId'') cs"
      by (simp add: targetsOf_def choiceTargets_def)
    with assms(2) k have "\<forall>choice \<in> set cs. resolves nodeMap (getp choice ''nextNodeId'')"
      by auto
    with cs(2) have "referencesOfChoices nodeMap k cs = Inr ()"
      by (intro referencesOfChoices_ok) blast
    with True cs(1) show ?thesis by simp
  qed simp
  with nn ih show ?case by (simp add: Let_def)
qed

lemma show_nat_digits: "set (show_nat n) \<subseteq> set ''0123456789''"
proof (induction n rule: show_nat.induct)
  case (1 n)
  have digit: "''0123456789'' ! k \<in> set ''0123456789''" if "k < 10" for k
    using that by (intro nth_mem) simp
  show ?case
  proof (cases "n < 10")
    case True
    with digit [of n] show ?thesis
      by (subst show_nat.simps) simp
  next
    case False
    have "n mod 10 < 10" by simp
    from digit [OF this] "1.IH" [OF False] False show ?thesis
      by (subst show_nat.simps) simp
  qed
qed

lemma show_nat_not_title: "show_nat n \<noteq> ''title''"
proof
  assume "show_nat n = ''title''"
  then have "CHR ''t'' \<in> set (show_nat n)" by simp
  with show_nat_digits [of n] show False by auto
qed

lemma array_has_no_title: "getp (JArr xs) ''title'' = JUndefined"
proof -
  have "''title'' \<notin> fst ` set (zip (map show_nat [0..<length xs]) xs)"
  proof
    assume "''title'' \<in> fst ` set (zip (map show_nat [0..<length xs]) xs)"
    then obtain v where "(''title'', v) \<in> set (zip (map show_nat [0..<length xs]) xs)"
      by force
    then have "''title'' \<in> set (map show_nat [0..<length xs])"
      by (rule set_zip_leftD)
    then obtain n where "show_nat n = ''title''" by auto
    with show_nat_not_title show False by blast
  qed
  then have "map_of (objEntries (JArr xs)) ''title'' = None"
    by (simp add: map_of_eq_None_iff)
  then have "getp (JArr xs) ''title'' = beyondKeys (JArr xs) ''title''"
    by (simp only: getp_def option.case)
  then show ?thesis
    by (simp add: arrayPrototypeMethods_def fromObjectPrototype_def objectPrototypeMethods_def)
qed

lemma structure_is_object:
  assumes "validateStoryStructure story = Inr ()"
  shows "typeof story = ''object'' \<and> story \<noteq> JNull \<and> \<not> isArray story \<and>
         \<not> notAString (getp story ''title'') \<and> \<not> notAString (getp story ''description'') \<and>
         \<not> notAString (getp story ''startNodeId'') \<and>
         truthy (getp story ''nodes'') \<and> typeof (getp story ''nodes'') = ''object'' \<and>
         objKeys (getp story ''nodes'') \<noteq> []"
proof -
  from assms have *: "truthy story" "typeof story = ''object''" "\<not> notAString (getp story ''title'')"
    "\<not> notAString (getp story ''description'')" "\<not> notAString (getp story ''startNodeId'')"
    "truthy (getp story ''nodes'')" "typeof (getp story ''nodes'') = ''object''"
    "objKeys (getp story ''nodes'') \<noteq> []"
    by (auto simp: validateStoryStructure_def split: if_splits)
  from *(3) have "getp story ''title'' \<noteq> JUndefined" by (auto simp: notAString_def)
  then have "\<not> isArray story"
    using array_has_no_title by (cases story) auto
  with * show ?thesis by auto
qed

lemma guarded_loop_succeeds:
  assumes "nodesWellFormed nodeMap" and "\<forall>a \<in> set toVisit. typeof a = ''string''"
  shows "reach_loop True nodeMap reachable toVisit \<noteq> None"
  using assms
proof (induction True nodeMap reachable toVisit rule: reach_loop.induct)
  case (1 nodeMap reachable)
  show ?case by simp
next
  case (2 nodeMap reachable currentId toVisit)
  note wf = "2.prems"(1)
  from "2.prems"(2) have "typeof currentId = ''string''"
    and rest: "\<forall>a \<in> set toVisit. typeof a = ''string''" by auto
  from string_key [OF this(1)] obtain k where k: "toKey currentId = Some k" by blast
  define node where "node = getp nodeMap k"
  from k have found: "getv nodeMap currentId = Some node"
    by (simp add: getv_def node_def)
  show ?case
  proof (cases "currentId \<in> set reachable")
    case True
    with "2.hyps"(1) [OF True wf rest] show ?thesis by simp
  next
    case False
    show ?thesis
    proof (cases "truthy (getp node ''choices'')")
      case no: False
      show ?thesis
      proof (cases "nullish node")
        case True
        with "2.hyps"(2) [OF False found True TrueI wf rest] False found show ?thesis
          by simp
      next
        case nn: False
        with "2.hyps"(4) [OF False found nn no wf rest] False no found show ?thesis
          by simp
      qed
    next
      case yes: True
      then have nn: "\<not> nullish node" using getp_nullish [of node "''choices''"] by auto
      from wellFormed_targets [OF wf yes [unfolded node_def]] have
        t: "choiceTargets (getp node ''choices'') = Some (targetsOf node)"
        and strings: "\<forall>target \<in> set (targetsOf node). typeof target = ''string''"
        by (simp_all add: node_def)
      from strings rest have
        "\<forall>a \<in> set (rev (filter (\<lambda>n. n \<notin> set (reachable @ [currentId])) (targetsOf node)) @ toVisit).
           typeof a = ''string''"
        by auto
      from "2.hyps"(3) [OF False found nn yes t wf this] False nn yes t found show ?thesis
        by simp
    qed
  qed
qed

lemma choicesFindings_some:
  assumes "\<forall>choice \<in> set cs. \<not> nullish choice"
  shows "choicesFindings cs nodeId i allNodeIds \<noteq> None"
  using assms
  by (induction cs nodeId i allNodeIds rule: choicesFindings.induct)
     (auto simp: choiceFindings_def split: option.splits)

lemma nodesFindings_some:
  assumes "nodesWellFormed nodeMap" and "set ks \<subseteq> set (objKeys nodeMap)"
  shows "nodesFindings nodeMap ks allNodeIds \<noteq> None"
  using assms(2)
proof (induction ks)
  case Nil
  show ?case by simp
next
  case (Cons k ks)
  then have k: "k \<in> set (objKeys nodeMap)" and ih: "nodesFindings nodeMap ks allNodeIds \<noteq> None"
    by auto
  let ?node = "getp nodeMap k"
  from assms(1) k have nn: "\<not> nullish ?node"
    and arr: "truthy (getp ?node ''choices'') \<longrightarrow>
           (\<exists>cs. getp ?node ''choices'' = JArr cs \<and> (\<forall>choice \<in> set cs. \<not> nullish choice))"
    unfolding nodesWellFormed_def by blast+
  have "validateStoryNode_settings ?node k allNodeIds \<noteq> None"
  proof (cases "truthy (getp ?node ''choices'')")
    case True
    with arr obtain cs where cs: "getp ?node ''choices'' = JArr cs"
      "\<forall>choice \<in> set cs. \<not> nullish choice" by blast
    from choicesFindings_some [OF cs(2), of k 0 allNodeIds] obtain fs where
      "choicesFindings cs k 0 allNodeIds = Some fs" by blast
    with nn cs(1) show ?thesis
      by (simp add: validateStoryNode_settings_def)
  next
    case False
    with nn show ?thesis
      by (simp add: validateStoryNode_settings_def)
  qed
  with ih show ?case by (auto split: option.splits)
qed

lemma engine_reports_unreachable:
  assumes "validateStoryStructure story = Inr ()" and "startNodeExists story"
    and "referencesResolve story" and "hasEndNode story"
  shows "validateStoryReferences story = Inr (unreachableIds story)"
proof -
  let ?nm = "getp story ''nodes''"
  let ?st = "getp story ''startNodeId''"
  let ?keys = "objKeys ?nm"
  let ?E = "choiceEdges ?nm"
  have wf: "nodesWellFormed ?nm" by (rule structure_wellFormed [OF assms(1)])
  note obj = structure_is_object [OF assms(1)]
  from obj have nn: "\<not> nullish story" "\<not> nullish ?nm" by (auto simp: nullish_def)
  have res: "\<forall>k \<in> set ?keys. \<forall>target \<in> set (targetsOf (getp ?nm k)). resolves ?nm target"
    using assms(3) by (simp add: referencesResolve_def)
  have start: "resolves ?nm ?st"
    using assms(2) by (simp add: startNodeExists_def)
  from resolves_found [OF start] obtain startNode where
    startNode: "getv ?nm ?st = Some startNode" "truthy startNode" by blast
  have refs: "referencesOfNodes ?nm ?keys = Inr ()"
    by (rule referencesOfNodes_ok [OF wf res]) simp
  from reach_loop_succeeds [OF wf res, of "[?st]" "[]"] start obtain R where
    R: "reach_loop False ?nm [] [?st] = Some R" by auto
  from reach_loop_correct [OF R] have setR: "set R = ?E\<^sup>* `` {?st}" by simp
  have unreach: "filter (\<lambda>nodeId. JStr nodeId \<notin> set R) ?keys = unreachableIds story"
    unfolding unreachableIds_def by (rule filter_cong) (auto simp: setR)
  have ends: "filter (\<lambda>nodeId. getp (getp ?nm nodeId) ''isEnd'' = JBool True) ?keys \<noteq> []"
    using assms(4) by (auto simp: hasEndNode_def filter_empty_conv)
  from nn startNode refs R unreach ends show ?thesis
    by (simp add: validateStoryReferences_def Let_def)
qed

lemma settings_reports_unreachable:
  assumes "validateStoryStructure story = Inr ()" and "unreachableIds story \<noteq> []"
  shows "\<not> isValid (validateStoryJson story) \<and>
         F_Unreachable (unreachableIds story) \<in> set (errors (validateStoryJson story))"
proof -
  let ?nm = "getp story ''nodes''"
  let ?st = "getp story ''startNodeId''"
  let ?keys = "objKeys ?nm"
  let ?E = "choiceEdges ?nm"
  have wf: "nodesWellFormed ?nm" by (rule structure_wellFormed [OF assms(1)])
  note obj = structure_is_object [OF assms(1)]
  from obj have st: "typeof ?st = ''string''" by (auto simp: notAString_def)
  from string_key [OF st] obtain k where k: "toKey ?st = Some k" by blast
  from nodesFindings_some [OF wf subset_refl, of ?keys] obtain fs where
    fs: "nodesFindings ?nm ?keys ?keys = Some fs" by blast
  from guarded_loop_succeeds [OF wf, of "[?st]" "[]"] st obtain R where
    R: "reach_loop True ?nm [] [?st] = Some R" by auto
  from reach_loop_correct [OF R] have setR: "set R = ?E\<^sup>* `` {?st}" by simp
  have unreach: "filter (\<lambda>nodeId. JStr nodeId \<noteq> ?st \<and> JStr nodeId \<notin> set R) ?keys =
                 unreachableIds story"
    unfolding unreachableIds_def by (rule filter_cong) (auto simp: setR)
  from k have "\<exists>startMissing.
      (if truthy ?st then map_option (\<lambda>found. \<not> truthy found) (getv ?nm ?st)
       else Some False) = Some startMissing"
    by (cases "truthy ?st") (auto simp: getv_def)
  then obtain startMissing where
    sm: "(if truthy ?st then map_option (\<lambda>found. \<not> truthy found) (getv ?nm ?st)
          else Some False) = Some startMissing"
    by blast
  from fs R unreach assms(2) sm obtain pre where
    block: "nodesBlock story = Some (pre @ [F_Unreachable (unreachableIds story)])"
    by (auto simp: nodesBlock_def findReachableNodes_def Let_def simp del: reach_loop.simps)
  from obj have nn: "\<not> nullish ?nm" by (auto simp: nullish_def)
  from obj block nn show ?thesis
    by (simp add: validateStoryJson_def Let_def)
qed

lemma referencesOfChoices_resolve:
  assumes "referencesOfChoices nodeMap nodeId cs = Inr ()" and "choice \<in> set cs"
  shows "resolves nodeMap (getp choice ''nextNodeId'')"
  using assms
proof (induction cs)
  case Nil
  then show ?case by simp
next
  case (Cons c cs)
  from Cons.prems(1) have one: "resolves nodeMap (getp c ''nextNodeId'')"
    and others: "referencesOfChoices nodeMap nodeId cs = Inr ()"
    by (auto simp: resolves_def split: if_splits option.splits)
  with Cons.IH Cons.prems(2) show ?case by auto
qed

lemma referencesOfNodes_resolve:
  assumes "nodesWellFormed nodeMap" and "referencesOfNodes nodeMap ks = Inr ()"
    and "set ks \<subseteq> set (objKeys nodeMap)" and "k \<in> set ks"
    and "target \<in> set (targetsOf (getp nodeMap k))"
  shows "resolves nodeMap target"
  using assms(2-4)
proof (induction ks)
  case Nil
  then show ?case by simp
next
  case (Cons k' ks)
  let ?node = "getp nodeMap k'"
  from Cons.prems(1) have here:
    "(if truthy (getp ?node ''choices'')
      then (case iterate (getp ?node ''choices'') of
              None \<Rightarrow> Inl E_TypeError
            | Some cs \<Rightarrow> referencesOfChoices nodeMap k' cs)
      else Inr ()) = Inr ()"
    and others: "referencesOfNodes nodeMap ks = Inr ()"
    by (auto simp: Let_def split: if_splits sum.splits)
  show ?case
  proof (cases "k = k'")
    case False
    with Cons.IH [OF others] Cons.prems(2,3) show ?thesis by auto
  next
    case True
    show ?thesis
    proof (cases "truthy (getp ?node ''choices'')")
      case no: False
      then have "choiceTargets (getp ?node ''choices'') = None \<or>
                 choiceTargets (getp ?node ''choices'') = Some []"
        by (cases "getp ?node ''choices''") (auto simp: choiceTargets_def)
      with assms(5) True show ?thesis by (auto simp: targetsOf_def)
    next
      case yes: True
      from Cons.prems(2) have key: "k' \<in> set (objKeys nodeMap)" by simp
      with assms(1) yes obtain cs where
        cs: "getp ?node ''choices'' = JArr cs" "\<forall>choice \<in> set cs. \<not> nullish choice"
        unfolding nodesWellFormed_def by blast
      with here yes have refs: "referencesOfChoices nodeMap k' cs = Inr ()" by simp
      from cs have "targetsOf ?node = map (\<lambda>choice. getp choice ''nextNodeId'') cs"
        by (simp add: targetsOf_def choiceTargets_def)
      with assms(5) True obtain choice where "choice \<in> set cs" "target = getp choice ''nextNodeId''"
        by auto
      with referencesOfChoices_resolve [OF refs] show ?thesis by blast
    qed
  qed
qed

lemma engine_accepts_only_sound_references:
  assumes "validateStoryStructure story = Inr ()" and "validateStoryReferences story = Inr ws"
  shows "startNodeExists story \<and> referencesResolve story \<and> hasEndNode story"
proof -
  let ?nm = "getp story ''nodes''"
  let ?st = "getp story ''startNodeId''"
  let ?keys = "objKeys ?nm"
  have wf: "nodesWellFormed ?nm" by (rule structure_wellFormed [OF assms(1)])
  from assms(2) obtain startNode where
    start: "getv ?nm ?st = Some startNode" "truthy startNode"
    by (cases "getv ?nm ?st")
       (auto simp: validateStoryReferences_def Let_def simp del: reach_loop.simps
             split: if_splits)
  from assms(2) start have refs: "referencesOfNodes ?nm ?keys = Inr ()"
    by (cases "referencesOfNodes ?nm ?keys")
       (auto simp: validateStoryReferences_def Let_def simp del: reach_loop.simps
             split: if_splits)
  from assms(2) start refs have ends:
    "filter (\<lambda>nodeId. getp (getp ?nm nodeId) ''isEnd'' = JBool True) ?keys \<noteq> []"
    by (cases "reach_loop False ?nm [] [?st]")
       (auto simp: validateStoryReferences_def Let_def simp del: reach_loop.simps
             split: if_splits)
  have a: "startNodeExists story"
    using start by (simp add: startNodeExists_def resolves_def)
  have b: "referencesResolve story"
    unfolding referencesResolve_def
    using referencesOfNodes_resolve [OF wf refs subset_refl] by blast
  have c: "hasEndNode story"
    using ends by (auto simp: hasEndNode_def filter_empty_conv)
  from a b c show ?thesis by blast
qed

text \<open>
  C6, amended. For every story that passes the structure validation of the story engine:
  \<^verbatim>\<open>validateStoryReferences\<close> succeeds exactly when the start node exists, every
  choice target exists and there is an end node (a node "exists" when \<^verbatim>\<open>nodes[id]\<close>
  yields something, be it a node of the story or an inherited member); it then hands the
  ids of the nodes that the start node does not reach through choice edges to the
  warning, and \<^verbatim>\<open>loadStory\<close> succeeds with it. The settings handler's
  \<^verbatim>\<open>validateStoryJson\<close> treats the same ids as fatal: when there are any, its result is
  invalid and its error list holds them.
\<close>

theorem unreachable_nodes_warning_in_engine_error_in_settings:
  assumes "validateStoryStructure story = Inr ()"
  shows "((\<exists>ws. validateStoryReferences story = Inr ws) \<longleftrightarrow>
            startNodeExists story \<and> referencesResolve story \<and> hasEndNode story) \<and>
         (startNodeExists story \<and> referencesResolve story \<and> hasEndNode story \<longrightarrow>
            validateStoryReferences story = Inr (unreachableIds story) \<and>
            fst (loadStory story e) = Inr (unreachableIds story) \<and>
            (unreachableIds story \<noteq> [] \<longrightarrow>
               \<not> isValid (validateStoryJson story) \<and>
               F_Unreachable (unreachableIds story) \<in> set (errors (validateStoryJson story))))"
proof -
  have accepted: "validateStoryReferences story = Inr (unreachableIds story) \<and>
            fst (loadStory story e) = Inr (unreachableIds story) \<and>
            (unreachableIds story \<noteq> [] \<longrightarrow>
               \<not> isValid (validateStoryJson story) \<and>
               F_Unreachable (unreachableIds story) \<in> set (errors (validateStoryJson story)))"
    if sound: "startNodeExists story \<and> referencesResolve story \<and> hasEndNode story"
  proof -
    from sound have engine: "validateStoryReferences story = Inr (unreachableIds story)"
      using engine_reports_unreachable [OF assms] by blast
    with assms have "fst (loadStory story e) = Inr (unreachableIds story)"
      by (simp add: loadStory_def)
    with engine settings_reports_unreachable [OF assms] show ?thesis by blast
  qed
  moreover have "startNodeExists story \<and> referencesResolve story \<and> hasEndNode story"
    if "\<exists>ws. validateStoryReferences story = Inr ws"
    using that engine_accepts_only_sound_references [OF assms] by blast
  ultimately show ?thesis by blast
qed

theorem unreachable_nodes_warning_in_engine_error_in_settings_witness:
  "validateStoryStructure orphanJson = Inr () \<and> startNodeExists orphanJson \<and>
   referencesResolve orphanJson \<and> hasEndNode orphanJson \<and>
   unreachableIds orphanJson = [''orphan''] \<and>
   fst (loadStory orphanJson (None, emptyRedis)) = Inr [''orphan''] \<and>
   \<not> isValid (validateStoryJson orphanJson) \<and>
   F_Unreachable [''orphan''] \<in> set (errors (validateStoryJson orphanJson)) \<and>
   validateStoryStructure inheritedJson = Inr () \<and> startNodeExists inheritedJson \<and>
   referencesResolve inheritedJson \<and> hasEndNode inheritedJson \<and>
   unreachableIds inheritedJson = [''a'', ''b''] \<and>
   fst (loadStory inheritedJson (None, emptyRedis)) = Inr [''a'', ''b''] \<and>
   \<not> isValid (validateStoryJson inheritedJson) \<and>
   F_Unreachable [''a'', ''b''] \<in> set (errors (validateStoryJson inheritedJson))"
proof -
  have s: "validateStoryStructure orphanJson = Inr ()"
    by (simp add: validation orphanJson_def)
  have run: "validateStoryReferences orphanJson = Inr [''orphan'']"
    by (simp add: validation orphanJson_def)
  note th = unreachable_nodes_warning_in_engine_error_in_settings [OF s, of "(None, emptyRedis)"]
  from th run have sound: "startNodeExists orphanJson \<and> referencesResolve orphanJson \<and>
                           hasEndNode orphanJson"
    by blast
  then have b: "startNodeExists orphanJson" and d: "referencesResolve orphanJson"
    and f: "hasEndNode orphanJson" by blast+
  from th sound run have u: "unreachableIds orphanJson = [''orphan'']" by simp
  with th sound have o: "fst (loadStory orphanJson (None, emptyRedis)) = Inr [''orphan'']"
    "\<not> isValid (validateStoryJson orphanJson)"
    "F_Unreachable [''orphan''] \<in> set (errors (validateStoryJson orphanJson))"
    by simp_all
  have s': "validateStoryStructure inheritedJson = Inr ()"
    by (simp add: validation inheritedJson_def)
  have b': "startNodeExists inheritedJson"
    by (simp add: startNodeExists_def resolves_def validation inheritedJson_def)
  have d': "referencesResolve inheritedJson"
    by (simp add: referencesResolve_def resolves_def targetsOf_def validation inheritedJson_def)
  have f': "hasEndNode inheritedJson"
    by (simp add: hasEndNode_def validation inheritedJson_def)
  have run': "validateStoryReferences inheritedJson = Inr [''a'', ''b'']"
    by (simp add: validation inheritedJson_def)
  note th' = unreachable_nodes_warning_in_engine_error_in_settings [OF s', of "(None, emptyRedis)"]
  from th' b' d' f' run' have u': "unreachableIds inheritedJson = [''a'', ''b'']" by simp
  with th' b' d' f' have i: "fst (loadStory inheritedJson (None, emptyRedis)) = Inr [''a'', ''b'']"
    "\<not> isValid (validateStoryJson inheritedJson)"
    "F_Unreachable [''a'', ''b''] \<in> set (errors (validateStoryJson inheritedJson))"
    by simp_all
  from s b d f u o s' b' d' f' u' i show ?thesis by (intro conjI) assumption+
qed

subsection \<open>Accumulated findings\<close>











end
